(* ===== verification/Scrubber_Prelude.thy ===== *)
theory Scrubber_Prelude
  imports Complex_Main
begin

text \<open>
  Shared vocabulary of the audio-scrubber development: the types of paths, samples,
  frames and WAV files, the file system as a map from paths to files, the Python
  exceptions the two entry points can raise, and the generic lemmas on lists and maps
  that the component theories use. Nothing here models a line of the program by itself;
  the component theories (\<open>Paths\<close>, \<open>Decoder\<close>, \<open>Capture\<close>, \<open>Scrub\<close>,
  \<open>Cli\<close>, \<open>Gui\<close>) do.
\<close>

named_theorems model_simps
  "equations that evaluate the model's operations on concrete inputs"

named_theorems fs_simps
  "lookup lemmas for the file-system operations"

section \<open>Audio data\<close>

text \<open>
  A sample is kept as an opaque integer (the program never looks at sample values);
  a frame holds one sample per channel, the layout of a \<open>(frames, channels)\<close>
  numpy array as \<open>soundfile\<close> and \<open>sounddevice\<close> return it.
\<close>

type_synonym path = string
type_synonym sample = int
type_synonym frame = "sample list"

text \<open>The two WAV sample encodings the program produces: \<open>subtype="PCM_24"\<close> in
  \<open>sf.SoundFile\<close>/\<open>sf.write\<close>, and ffmpeg's default \<open>pcm_s16le\<close> for a
  \<open>.wav\<close> output in the fallback conversion.\<close>

datatype subtype = PCM_16 | PCM_24

record wav =
  wav_rate :: nat
  wav_channels :: nat
  wav_subtype :: subtype
  wav_frames :: "frame list"

text \<open>A file is an encoded input the program only hands to ffmpeg (its content is an
  opaque identity), a WAV file, or a file ffmpeg wrote in another container (the
  container's extension and the frames it holds).\<close>

datatype fcontent = Encoded nat | WavFile wav | Transcoded string "frame list"

type_synonym fs = "path \<rightharpoonup> fcontent"

text \<open>The well-formedness of a WAV buffer: a positive channel count and every frame
  holding exactly one sample per channel (the spec's AudioBuffer invariant).\<close>

definition frames_ok :: "nat \<Rightarrow> frame list \<Rightarrow> bool" where
  "frames_ok c frs \<longleftrightarrow> list_all (\<lambda>fr. length fr = c) frs"

definition wav_ok :: "wav \<Rightarrow> bool" where
  "wav_ok w \<longleftrightarrow> 0 < wav_channels w \<and> frames_ok (wav_channels w) (wav_frames w)"

fun file_ok :: "fcontent \<Rightarrow> bool" where
  "file_ok (Encoded _) = True"
| "file_ok (WavFile w) = wav_ok w"
| "file_ok (Transcoded _ _) = True"

definition fs_ok :: "fs \<Rightarrow> bool" where
  "fs_ok fs \<longleftrightarrow> (\<forall>p f. fs p = Some f \<longrightarrow> file_ok f)"

section \<open>Exceptions\<close>

text \<open>The exceptions of the Python entry points that the model distinguishes. Each is
  raised by a call of the source: \<open>FileNotFoundError\<close> by \<open>subprocess.Popen\<close>
  without an ffmpeg binary and by \<open>os.rename\<close>/\<open>os.remove\<close> of a missing path,
  \<open>LibsndfileError\<close> by \<open>sf.SoundFile\<close>/\<open>sf.read\<close>/\<open>sf.write\<close>,
  \<open>PortAudioError\<close> by \<open>sd.InputStream\<close> and its \<open>read\<close>, \<open>TypeError\<close>
  by a call with an unexpected keyword argument, \<open>CalledProcessError\<close> by
  \<open>subprocess.run(..., check=True)\<close>, \<open>ValueError\<close> by \<open>float(...)\<close> and by
  \<open>set_target_bandwidth\<close>, \<open>AssertionError\<close> by \<open>convert_audio\<close>, and
  \<open>RuntimeError\<close> by the codec's inference, \<open>ZeroDivisionError\<close> by a division by a
  zero total.\<close>

datatype error =
    FileNotFoundError path
  | LibsndfileError path
  | PortAudioError
  | TypeError
  | CalledProcessError
  | ValueError
  | AssertionError
  | RuntimeError
  | ZeroDivisionError

section \<open>File-system primitives\<close>

text \<open>\<open>os.path.exists\<close>, \<open>os.remove\<close> and \<open>os.rename\<close> (POSIX: the target is
  replaced; renaming a path to itself leaves it).\<close>

definition exists :: "fs \<Rightarrow> path \<Rightarrow> bool" where
  "exists fs p \<longleftrightarrow> fs p \<noteq> None"

definition os_remove :: "fs \<Rightarrow> path \<Rightarrow> error + fs" where
  "os_remove fs p = (if exists fs p then Inr (fs(p := None)) else Inl (FileNotFoundError p))"

definition os_rename :: "fs \<Rightarrow> path \<Rightarrow> path \<Rightarrow> error + fs" where
  "os_rename fs a b =
     (case fs a of None \<Rightarrow> Inl (FileNotFoundError a) | Some f \<Rightarrow> Inr ((fs(a := None))(b \<mapsto> f)))"

declare exists_def [model_simps] os_remove_def [model_simps] os_rename_def [model_simps]

section \<open>Generic lemmas\<close>

lemma frames_ok_append [simp]:
  "frames_ok c (xs @ ys) \<longleftrightarrow> frames_ok c xs \<and> frames_ok c ys"
  by (simp add: frames_ok_def)

lemma frames_ok_Nil [simp]: "frames_ok c []"
  by (simp add: frames_ok_def)

lemma frames_ok_concat [simp]:
  "frames_ok c (concat xss) \<longleftrightarrow> list_all (frames_ok c) xss"
  by (induction xss) simp_all

lemma fs_ok_upd [simp]:
  "fs_ok fs \<Longrightarrow> file_ok f \<Longrightarrow> fs_ok (fs(p \<mapsto> f))"
  by (simp add: fs_ok_def)

lemma fs_ok_del [simp]: "fs_ok fs \<Longrightarrow> fs_ok (fs(p := None))"
  by (simp add: fs_ok_def)

lemma fs_ok_lookup [dest]: "fs_ok fs \<Longrightarrow> fs p = Some f \<Longrightarrow> file_ok f"
  by (simp add: fs_ok_def)

lemma os_remove_Inr [fs_simps]:
  "os_remove fs p = Inr fs' \<longleftrightarrow> fs p \<noteq> None \<and> fs' = fs(p := None)"
  by (auto simp: os_remove_def exists_def)

lemma os_rename_Inr [fs_simps]:
  "os_rename fs a b = Inr fs' \<longleftrightarrow> (\<exists>f. fs a = Some f \<and> fs' = (fs(a := None))(b \<mapsto> f))"
  by (auto simp: os_rename_def split: option.splits)

lemma os_rename_self [simp]: "fs a = Some f \<Longrightarrow> os_rename fs a a = Inr fs"
  by (auto simp: os_rename_def)

lemma os_remove_ok [intro]: "fs_ok fs \<Longrightarrow> os_remove fs p = Inr fs' \<Longrightarrow> fs_ok fs'"
  by (auto simp: os_remove_def split: if_splits)

lemma os_rename_ok [intro]: "fs_ok fs \<Longrightarrow> os_rename fs a b = Inr fs' \<Longrightarrow> fs_ok fs'"
  by (auto simp: os_rename_def fs_ok_def split: option.splits if_splits)

end
