(* ===== verification/Paths.thy ===== *)
theory Paths
  imports Scrubber_Prelude
begin

text \<open>
  Path derivation of both entry points. The command-line script
  (\<open>src/audio_scrubber.py\<close>, lines 86--92) keeps an argument when
  \<open>mp3.lower().endswith(".mp3")\<close> and derives the temporary and final paths with
  \<open>mp3.replace(".mp3", "_rerecord.wav")\<close> and \<open>mp3.replace(".mp3", "_clean.wav")\<close>;
  the GUI (\<open>src/audio_scrubber_gui.py\<close>, lines 146--147) uses
  \<open>f_path.rsplit('.', 1)[0]\<close> plus the suffix. The Python string methods are
  modelled on byte strings; \<open>str.lower\<close> is modelled on ASCII letters. The theory
  also gives the extension of a path as the libraries the program hands its paths to
  read it (\<open>py_ext\<close> for \<open>soundfile\<close>, \<open>ff_ext\<close> for ffmpeg), with the
  lemmas that a \<open>_rerecord.wav\<close> path has the extension \<open>wav\<close> and that a selected
  argument has \<open>mp3\<close> in some case or none.
\<close>

section \<open>Python string methods\<close>

text \<open>\<open>str.replace(old, new)\<close>: every non-overlapping occurrence of a non-empty
  \<open>old\<close>, scanning from the left; an empty \<open>old\<close> inserts \<open>new\<close> around every
  character.\<close>

function replace_nonempty :: "string \<Rightarrow> string \<Rightarrow> string \<Rightarrow> string" where
  "replace_nonempty old new [] = []"
| "replace_nonempty old new (c # cs) =
     (if old \<noteq> [] \<and> take (length old) (c # cs) = old
      then new @ replace_nonempty old new (drop (length old) (c # cs))
      else c # replace_nonempty old new cs)"
  by pat_completeness auto
termination
  by (relation "measure (\<lambda>(old, new, s). length s)") auto

definition py_replace :: "string \<Rightarrow> string \<Rightarrow> string \<Rightarrow> string" where
  "py_replace s old new =
     (if old = [] then new @ concat (map (\<lambda>c. c # new) s) else replace_nonempty old new s)"

text \<open>\<open>sub in s\<close> for strings.\<close>

fun py_contains :: "string \<Rightarrow> string \<Rightarrow> bool" where
  "py_contains s [] = (s = [])"
| "py_contains s (c # cs) = (take (length s) (c # cs) = s \<or> py_contains s cs)"

text \<open>\<open>str.lower()\<close> on ASCII, and \<open>str.endswith(suffix)\<close>.\<close>

definition ascii_lower :: "char \<Rightarrow> char" where
  "ascii_lower c = (if (65::nat) \<le> of_char c \<and> of_char c \<le> (90::nat) then char_of (of_char c + (32::nat)) else c)"

definition py_lower :: "string \<Rightarrow> string" where
  "py_lower s = map ascii_lower s"

definition py_endswith :: "string \<Rightarrow> string \<Rightarrow> bool" where
  "py_endswith s suf \<longleftrightarrow> length suf \<le> length s \<and> drop (length s - length suf) s = suf"

text \<open>\<open>s.rsplit('.', 1)[0]\<close>: the part before the last dot, or the whole string when it
  has none.\<close>

definition rsplit_dot_head :: "string \<Rightarrow> string" where
  "rsplit_dot_head s =
     (if CHR ''.'' \<in> set s then rev (tl (dropWhile (\<lambda>c. c \<noteq> CHR ''.'') (rev s))) else s)"

text \<open>The extension of an output path as the two libraries the program hands it to
  see it. \<open>soundfile\<close> takes \<open>os.path.splitext(file)[-1][1:]\<close>: the characters
  after the last dot of the last path component, provided that component has a character
  other than a dot before that dot (leading dots make a hidden name, not an extension),
  and the empty string otherwise. ffmpeg's \<open>av_match_ext\<close> takes the characters
  after the last dot of the whole path name (\<open>strrchr(filename, '.')\<close>).\<close>

definition py_ext :: "path \<Rightarrow> string" where
  "py_ext p =
     (let b = rev (takeWhile (\<lambda>c. c \<noteq> CHR ''/'') (rev p)) in
      if CHR ''.'' \<in> set (dropWhile (\<lambda>c. c = CHR ''.'') b)
      then rev (takeWhile (\<lambda>c. c \<noteq> CHR ''.'') (rev b)) else [])"

definition ff_ext :: "path \<Rightarrow> string" where
  "ff_ext p = (if CHR ''.'' \<in> set p then rev (takeWhile (\<lambda>c. c \<noteq> CHR ''.'') (rev p)) else [])"

section \<open>The paths of a job\<close>

text \<open>Command line, \<open>src/audio_scrubber.py\<close> lines 87, 91, 92.\<close>

definition cli_selects :: "string \<Rightarrow> bool" where
  "cli_selects mp3 \<longleftrightarrow> py_endswith (py_lower mp3) ''.mp3''"

definition cli_temp :: "string \<Rightarrow> path" where
  "cli_temp mp3 = py_replace mp3 ''.mp3'' ''_rerecord.wav''"

definition cli_final :: "string \<Rightarrow> path" where
  "cli_final mp3 = py_replace mp3 ''.mp3'' ''_clean.wav''"

text \<open>GUI, \<open>src/audio_scrubber_gui.py\<close> lines 146--147.\<close>

definition gui_temp :: "path \<Rightarrow> path" where
  "gui_temp f = rsplit_dot_head f @ ''_rerecord.wav''"

definition gui_final :: "path \<Rightarrow> path" where
  "gui_final f = rsplit_dot_head f @ ''_clean.wav''"

declare replace_nonempty.simps [simp del]

section \<open>Lemmas on the string methods\<close>

lemma py_contains_Nil_pat: "py_contains [] s"
  by (cases s) simp_all

lemma py_contains_suffix: "py_contains p (s @ p)"
proof (induction s)
  case Nil then show ?case by (cases p) simp_all
qed simp

lemma py_contains_iff:
  "p \<noteq> [] \<Longrightarrow> py_contains p s \<longleftrightarrow> (\<exists>k<length s. take (length p) (drop k s) = p)"
proof (induction s)
  case Nil then show ?case by simp
next
  case (Cons c cs)
  have "(\<exists>k<length (c # cs). take (length p) (drop k (c # cs)) = p) \<longleftrightarrow>
        take (length p) (c # cs) = p \<or> (\<exists>k<length cs. take (length p) (drop k cs) = p)"
    by (auto simp: less_Suc_eq_0_disj)
  with Cons show ?case by simp
qed

lemma replace_nonempty_no_occ:
  "\<not> py_contains old s \<Longrightarrow> replace_nonempty old new s = s"
proof (induction old new s rule: replace_nonempty.induct)
  case (1 old new) then show ?case by (simp add: replace_nonempty.simps)
next
  case (2 old new c cs)
  then show ?case by (cases old) (auto simp: replace_nonempty.simps)
qed

lemma take_length_append_long:
  "length p \<le> length x \<Longrightarrow> take (length p) (x @ r) = take (length p) x"
  by simp

lemma replace_nonempty_append_old:
  assumes "old \<noteq> []" and "\<forall>k<length s. take (length old) (drop k s @ old) \<noteq> old"
  shows "replace_nonempty old new (s @ old @ r) = s @ new @ replace_nonempty old new r"
  using assms(2)
proof (induction s)
  case Nil
  from assms(1) obtain c cs where "old = c # cs" by (cases old) auto
  then show ?case by (simp add: replace_nonempty.simps)
next
  case (Cons c cs)
  from Cons.prems have "take (length old) ((c # cs) @ old) \<noteq> old"
    by (metis drop0 zero_less_Suc length_Cons)
  then have "take (length old) ((c # cs) @ old @ r) \<noteq> old"
    using take_length_append_long [of old "(c # cs) @ old" r] by simp
  moreover from Cons.prems have "\<forall>k<length cs. take (length old) (drop k cs @ old) \<noteq> old"
    by fastforce
  ultimately show ?case using Cons.IH by (simp add: replace_nonempty.simps)
qed

lemma mp3_no_border:
  assumes "\<not> py_contains ''.mp3'' s"
  shows "\<forall>k<length s. take (length ''.mp3'') (drop k s @ ''.mp3'') \<noteq> ''.mp3''"
proof (intro allI impI)
  fix k assume k: "k < length s"
  define d where "d = drop k s"
  have "d \<noteq> []" using k by (simp add: d_def)
  have occ: "take (length ''.mp3'') d \<noteq> ''.mp3''"
    using assms k py_contains_iff [of "''.mp3''" s] by (auto simp: d_def)
  show "take (length ''.mp3'') (drop k s @ ''.mp3'') \<noteq> ''.mp3''"
  proof (cases "length ''.mp3'' \<le> length d")
    case True
    with occ show ?thesis by (simp add: d_def [symmetric])
  next
    case False
    have "0 < length d" "length d < 4" using False \<open>d \<noteq> []\<close> by simp_all
    then have "length d = 1 \<or> length d = 2 \<or> length d = 3" by presburger
    then consider "length d = 1" | "length d = 2" | "length d = 3" by blast
    then show ?thesis
    proof cases
      case 1 then obtain a where "d = [a]" by (auto simp: length_Suc_conv)
      then show ?thesis by (simp add: d_def [symmetric])
    next
      case 2 then obtain a b where "d = [a, b]" by (auto simp: length_Suc_conv numeral_eq_Suc)
      then show ?thesis by (simp add: d_def [symmetric])
    next
      case 3 then obtain a b c where "d = [a, b, c]" by (auto simp: length_Suc_conv numeral_eq_Suc)
      then show ?thesis by (simp add: d_def [symmetric])
    qed
  qed
qed

lemma py_replace_mp3_split:
  "\<not> py_contains ''.mp3'' s \<Longrightarrow>
   py_replace (s @ ''.mp3'' @ r) ''.mp3'' new = s @ new @ py_replace r ''.mp3'' new"
  using replace_nonempty_append_old [of "''.mp3''" s new r] mp3_no_border [of s]
  by (simp only: py_replace_def) simp

lemma py_replace_mp3_suffix:
  "\<not> py_contains ''.mp3'' stem \<Longrightarrow> py_replace (stem @ ''.mp3'') ''.mp3'' new = stem @ new"
  using py_replace_mp3_split [of stem "[]" new]
  by (simp add: py_replace_def replace_nonempty.simps)

lemma py_replace_no_occ:
  "\<not> py_contains old s \<Longrightarrow> old \<noteq> [] \<Longrightarrow> py_replace s old new = s"
  by (simp add: py_replace_def replace_nonempty_no_occ)

lemma py_lower_mp3 [simp]: "py_lower ''.mp3'' = ''.mp3''"
  by code_simp

lemma py_lower_ext_names [simp]: "py_lower ''wav'' = ''wav''" "py_lower ''mp3'' = ''mp3''"
  by (simp_all add: py_lower_def ascii_lower_def)

lemma py_lower_append [simp]: "py_lower (xs @ ys) = py_lower xs @ py_lower ys"
  by (simp add: py_lower_def)

lemma py_endswith_append [simp]: "py_endswith (xs @ ys) ys"
  by (simp add: py_endswith_def)

lemma rsplit_dot_head_ext:
  "CHR ''.'' \<notin> set ext \<Longrightarrow> rsplit_dot_head (stem @ CHR ''.'' # ext) = stem"
proof -
  assume "CHR ''.'' \<notin> set ext"
  then have "dropWhile (\<lambda>c. c \<noteq> CHR ''.'') (rev ext @ CHR ''.'' # rev stem) = CHR ''.'' # rev stem"
    by (subst dropWhile_append2) auto
  then show ?thesis by (simp add: rsplit_dot_head_def)
qed

lemma replace_nonempty_differs:
  "py_contains old s \<Longrightarrow> old \<noteq> [] \<Longrightarrow> i < length n1 \<Longrightarrow> i < length n2 \<Longrightarrow>
   n1 ! i \<noteq> n2 ! i \<Longrightarrow> replace_nonempty old n1 s \<noteq> replace_nonempty old n2 s"
proof (induction old n1 s rule: replace_nonempty.induct)
  case (1 old new)
  then show ?case by simp
next
  case (2 old new c cs)
  show ?case
  proof (cases "take (length old) (c # cs) = old")
    case True
    have "new @ xs \<noteq> n2 @ ys" for xs ys
    proof
      assume "new @ xs = n2 @ ys"
      then have "(new @ xs) ! i = (n2 @ ys) ! i" by simp
      with "2.prems"(3-5) show False by (simp add: nth_append)
    qed
    with True "2.prems"(2) show ?thesis by (simp add: replace_nonempty.simps)
  next
    case False
    with "2.prems"(1) have "py_contains old cs" by simp
    with False "2.IH"(2) "2.prems"(2-5) show ?thesis by (simp add: replace_nonempty.simps)
  qed
qed

lemma replace_nonempty_id: "new = old \<Longrightarrow> replace_nonempty old new s = s"
proof (induction old new s rule: replace_nonempty.induct)
  case (2 old new c cs)
  have "take (length old) (c # cs) = old \<Longrightarrow> old @ drop (length old) (c # cs) = c # cs"
    by (metis append_take_drop_id)
  with 2 show ?case by (auto simp: replace_nonempty.simps)
qed (simp add: replace_nonempty.simps)

lemma cli_temp_neq_src: "py_contains ''.mp3'' f \<Longrightarrow> cli_temp f \<noteq> f"
proof -
  assume occ: "py_contains ''.mp3'' f"
  have "replace_nonempty ''.mp3'' ''_rerecord.wav'' f \<noteq> replace_nonempty ''.mp3'' ''.mp3'' f"
    by (rule replace_nonempty_differs [OF occ, of 0]) simp_all
  then show ?thesis by (simp add: cli_temp_def py_replace_def replace_nonempty_id)
qed

lemma cli_temp_eq_final_iff:
  "cli_temp f = cli_final f \<longleftrightarrow> \<not> py_contains ''.mp3'' f"
proof
  assume eq: "cli_temp f = cli_final f"
  show "\<not> py_contains ''.mp3'' f"
  proof
    assume occ: "py_contains ''.mp3'' f"
    have "replace_nonempty ''.mp3'' ''_rerecord.wav'' f \<noteq> replace_nonempty ''.mp3'' ''_clean.wav'' f"
      by (rule replace_nonempty_differs [OF occ, of 1]) simp_all
    with eq show False by (simp add: cli_temp_def cli_final_def py_replace_def)
  qed
next
  assume "\<not> py_contains ''.mp3'' f"
  then show "cli_temp f = cli_final f"
    by (simp add: cli_temp_def cli_final_def py_replace_no_occ)
qed

lemma gui_temp_neq_final [simp]: "gui_temp f \<noteq> gui_final f"
  by (simp add: gui_temp_def gui_final_def)

subsection \<open>Extensions\<close>

lemma takeWhile_append_all: "\<forall>x\<in>set xs. P x \<Longrightarrow> takeWhile P (xs @ ys) = xs @ takeWhile P ys"
  by (induction xs) auto

lemma py_ext_base:
  assumes "CHR ''/'' \<notin> set ys"
  shows "rev (takeWhile (\<lambda>c. c \<noteq> CHR ''/'') (rev (x @ ys))) = rev (takeWhile (\<lambda>c. c \<noteq> CHR ''/'') (rev x)) @ ys"
proof -
  have "\<forall>y\<in>set (rev ys). y \<noteq> CHR ''/''" using assms by auto
  then show ?thesis by (simp add: takeWhile_append_all)
qed

lemma py_ext_suffix:
  assumes "c \<noteq> CHR ''.''" "c \<noteq> CHR ''/''" "CHR ''/'' \<notin> set s" "CHR ''.'' \<notin> set e" "CHR ''/'' \<notin> set e"
  shows "py_ext (x @ c # s @ CHR ''.'' # e) = e"
proof -
  let ?x = "rev (takeWhile (\<lambda>c. c \<noteq> CHR ''/'') (rev x))"
  have b: "rev (takeWhile (\<lambda>c. c \<noteq> CHR ''/'') (rev (x @ c # s @ CHR ''.'' # e))) = ?x @ c # s @ CHR ''.'' # e"
    using assms(2,3,5) by (intro py_ext_base) auto
  have "CHR ''.'' \<in> set (dropWhile (\<lambda>c. c = CHR ''.'') (?x @ c # s @ CHR ''.'' # e))"
    using assms(1) by (auto simp: dropWhile_append)
  moreover have "\<forall>y\<in>set (rev e). y \<noteq> CHR ''.''" using assms(4) by auto
  ultimately show ?thesis unfolding py_ext_def Let_def b by (simp add: takeWhile_append_all)
qed

lemma py_ext_last_dot:
  assumes "CHR ''.'' \<notin> set e" "CHR ''/'' \<notin> set e"
  shows "py_ext (x @ CHR ''.'' # e) = e \<or> py_ext (x @ CHR ''.'' # e) = []"
proof -
  let ?x = "rev (takeWhile (\<lambda>c. c \<noteq> CHR ''/'') (rev x))"
  have b: "rev (takeWhile (\<lambda>c. c \<noteq> CHR ''/'') (rev (x @ CHR ''.'' # e))) = ?x @ CHR ''.'' # e"
    using assms(2) by (intro py_ext_base) auto
  have "\<forall>y\<in>set (rev e). y \<noteq> CHR ''.''" using assms(1) by auto
  then show ?thesis unfolding py_ext_def Let_def b by (simp add: takeWhile_append_all)
qed

lemma ext_wav_suffix [simp]:
  "py_ext (x @ ''_rerecord.wav'') = ''wav''" "ff_ext (x @ ''_rerecord.wav'') = ''wav''"
  "py_ext (x @ ''_clean.wav'') = ''wav''" "ff_ext (x @ ''_clean.wav'') = ''wav''"
  using py_ext_suffix [of "CHR ''_''" "''rerecord''" "''wav''" x]
    py_ext_suffix [of "CHR ''_''" "''clean''" "''wav''" x]
  by (simp_all add: ff_ext_def takeWhile_append_all)

lemma ascii_lower_cases: "ascii_lower c = c \<or> (97::nat) \<le> of_char (ascii_lower c)"
  by (auto simp: ascii_lower_def)

lemma ascii_lower_dot: "ascii_lower c = CHR ''.'' \<longleftrightarrow> c = CHR ''.''"
  using ascii_lower_cases [of c] by (auto simp: ascii_lower_def)

lemma ascii_lower_not_sep: "ascii_lower c \<notin> {CHR ''.'', CHR ''/''} \<Longrightarrow> c \<notin> {CHR ''.'', CHR ''/''}"
  by (auto simp: ascii_lower_def)

lemma length4_cases: "length t = 4 \<Longrightarrow> \<exists>a b c d. t = [a, b, c, d]"
  by (cases t; cases "tl t"; cases "tl (tl t)"; cases "tl (tl (tl t))") auto

lemma cli_selects_split:
  assumes "cli_selects f"
  obtains xs c2 c3 c4 where "f = xs @ [CHR ''.'', c2, c3, c4]" "py_lower [c2, c3, c4] = ''mp3''"
proof -
  let ?xs = "take (length f - 4) f" and ?t = "drop (length f - 4) f"
  have e: "length ''.mp3'' \<le> length (py_lower f) \<and> drop (length (py_lower f) - length ''.mp3'') (py_lower f) = ''.mp3''"
    using assms unfolding cli_selects_def py_endswith_def .
  have l4: "length ''.mp3'' = 4" by simp
  have len: "4 \<le> length f" and d: "py_lower ?t = ''.mp3''"
    using e unfolding l4 by (simp_all add: py_lower_def drop_map)
  have "length ?t = 4" using len by simp
  then obtain c1 c2 c3 c4 where t: "?t = [c1, c2, c3, c4]" using length4_cases by blast
  with d have "ascii_lower c1 = CHR ''.''" "py_lower [c2, c3, c4] = ''mp3''" by (simp_all add: py_lower_def)
  then have "c1 = CHR ''.''" "py_lower [c2, c3, c4] = ''mp3''" by (simp_all add: ascii_lower_dot)
  moreover have "f = ?xs @ ?t" by simp
  ultimately show ?thesis using that t by simp
qed

lemma cli_selects_ext:
  assumes "cli_selects f"
  shows "py_lower (py_ext f) = ''mp3'' \<or> py_ext f = []"
proof -
  obtain xs c2 c3 c4 where f: "f = xs @ [CHR ''.'', c2, c3, c4]" and l: "py_lower [c2, c3, c4] = ''mp3''"
    using assms by (rule cli_selects_split)
  from l have "ascii_lower c2 = CHR ''m''" "ascii_lower c3 = CHR ''p''" "ascii_lower c4 = CHR ''3''"
    by (simp_all add: py_lower_def)
  then have "CHR ''.'' \<notin> set [c2, c3, c4]" "CHR ''/'' \<notin> set [c2, c3, c4]"
    using ascii_lower_not_sep [of c2] ascii_lower_not_sep [of c3] ascii_lower_not_sep [of c4] by auto
  from py_ext_last_dot [OF this, of xs] f l show ?thesis by auto
qed

section \<open>Properties of the path derivation\<close>

text \<open>C25. For an argument \<open>stem.mp3\<close> whose stem does not contain \<open>.mp3\<close>,
  the command-line script selects it and derives \<open>stem_rerecord.wav\<close> and
  \<open>stem_clean.wav\<close>, the paths the spec's external interface names.\<close>

theorem cli_paths:
  assumes "\<not> py_contains ''.mp3'' stem"
  shows "cli_selects (stem @ ''.mp3'') \<and> cli_temp (stem @ ''.mp3'') = stem @ ''_rerecord.wav''
         \<and> cli_final (stem @ ''.mp3'') = stem @ ''_clean.wav''"
  using assms by (simp add: cli_selects_def cli_temp_def cli_final_def py_replace_mp3_suffix)

theorem cli_paths_witness:
  "\<not> py_contains ''.mp3'' ''song'' \<and> cli_selects ''song.mp3''
   \<and> cli_temp ''song.mp3'' = ''song_rerecord.wav'' \<and> cli_final ''song.mp3'' = ''song_clean.wav''"
proof -
  have h: "\<not> py_contains ''.mp3'' ''song''" by simp
  from cli_paths [OF h] h show ?thesis by simp
qed

text \<open>C26. \<open>str.replace\<close> rewrites every occurrence of \<open>.mp3\<close>, so a directory
  whose name contains \<open>.mp3\<close> is renamed too: the temporary and final files are
  placed in a directory that need not exist.\<close>

theorem cli_paths_directory:
  assumes "\<not> py_contains ''.mp3'' d" and "\<not> py_contains ''.mp3'' stem"
  shows "cli_final (d @ ''.mp3'' @ ''/'' @ stem @ ''.mp3'') = d @ ''_clean.wav/'' @ stem @ ''_clean.wav''"
proof -
  have "\<not> py_contains ''.mp3'' (''/'' @ stem)"
    using assms(2) by simp
  then have "py_replace (''/'' @ stem @ ''.mp3'') ''.mp3'' ''_clean.wav'' = ''/'' @ stem @ ''_clean.wav''"
    using py_replace_mp3_suffix [of "''/'' @ stem"] by simp
  with assms(1) show ?thesis
    using py_replace_mp3_split [of d "''/'' @ stem @ ''.mp3''" "''_clean.wav''"]
    by (simp add: cli_final_def)
qed

theorem cli_paths_directory_witness:
  "cli_final ''a.mp3/b.mp3'' = ''a_clean.wav/b_clean.wav''"
  using cli_paths_directory [of "''a''" "''b''"] by simp

text \<open>C27. An argument that passes the case-insensitive filter but has no lower-case
  \<open>.mp3\<close> (\<open>take.MP3\<close>) is left unchanged by \<open>str.replace\<close>: its
  temporary and final paths are the input path itself.\<close>

theorem cli_paths_unchanged:
  "\<not> py_contains ''.mp3'' f \<Longrightarrow> cli_temp f = f \<and> cli_final f = f"
  by (simp add: cli_temp_def cli_final_def py_replace_no_occ)

theorem cli_paths_unchanged_witness:
  "cli_selects ''take.MP3'' \<and> cli_temp ''take.MP3'' = ''take.MP3'' \<and> cli_final ''take.MP3'' = ''take.MP3''"
proof -
  have h: "\<not> py_contains ''.mp3'' ''take.MP3''" by code_simp
  have s: "cli_selects ''take.MP3''" by code_simp
  from s cli_paths_unchanged [OF h] show ?thesis by simp
qed

text \<open>C28. The GUI strips the text after the last dot and appends the suffixes.\<close>

theorem gui_paths:
  "CHR ''.'' \<notin> set ext \<Longrightarrow>
   gui_temp (stem @ CHR ''.'' # ext) = stem @ ''_rerecord.wav'' \<and>
   gui_final (stem @ CHR ''.'' # ext) = stem @ ''_clean.wav''"
  by (simp add: gui_temp_def gui_final_def rsplit_dot_head_ext)

theorem gui_paths_witness:
  "gui_temp ''x/a.mp3'' = ''x/a_rerecord.wav'' \<and> gui_final ''x/a.mp3'' = ''x/a_clean.wav''"
  using gui_paths [of "''mp3''" "''x/a''"] by simp

end
