(* ===== verification/Decoder.thy ===== *)
theory Decoder
  imports Paths
begin

text \<open>
  The Decoder Process Adapter and the Direct Fallback Converter: the two ffmpeg
  invocations of \<open>rerecord\<close> (\<open>src/audio_scrubber.py\<close> lines 22--25 and 42,
  \<open>src/audio_scrubber_gui.py\<close> lines 21--24 and 41).

  The first is \<open>subprocess.Popen([ffmpeg, -i, src, -f f32le, -ac 2, -ar 44100, -],
  stdout=PIPE)\<close>: ffmpeg decodes the source and writes raw stereo float frames (8 bytes
  each) to a pipe. The script never reads that pipe; it only calls \<open>player.poll()\<close>.
  The model keeps the producer's state as a record: the bytes still to be written, the
  bytes sitting in the pipe, and whether the process has exited. A step of the producer
  writes as much as the pipe has room for, at most \<open>decode_rate\<close> bytes per capture
  block interval; it exits once everything is written. A source ffmpeg cannot open or
  decode makes it exit at once (its exit status is not looked at).

  The second is \<open>subprocess.run([ffmpeg, -y, -i, src, -ar 44100, -ac 2, out],
  check=True)\<close>: a direct conversion in the container the output's extension names
  (a \<open>.wav\<close> output gets ffmpeg's default 16-bit PCM), raising
  \<open>CalledProcessError\<close> when ffmpeg fails: a missing or undecodable source, an
  extension ffmpeg has no muxer for, an output that is the input itself (ffmpeg refuses
  to edit a file in place), or an output it cannot write.

  The machine the program runs on is a record of the facts these calls depend on:
  whether an ffmpeg binary is installed, what ffmpeg decodes a file to (44.1 kHz
  stereo frames, or nothing), the OS pipe capacity, ffmpeg's decoding rate, which
  paths can be written and which extensions ffmpeg has a muxer for.

  The last section is \<open>soundfile\<close>'s check when it opens a file for writing with
  \<open>subtype="PCM_24"\<close> (\<open>sf.SoundFile(..., mode="w", ...)\<close> at line 28 and
  \<open>sf.write\<close> at line 71): the format comes from the extension, and an unknown
  extension or a format without 24-bit PCM raises before any file is created.
\<close>

record host =
  ffmpeg_installed :: bool
  ff_decode :: "fcontent \<Rightarrow> frame list option"
  pipe_capacity :: nat
  decode_rate :: nat
  writable :: "path \<Rightarrow> bool"
  ff_muxes :: "string \<Rightarrow> bool"

text \<open>The constants of \<open>src/audio_scrubber.py\<close> lines 15--16.\<close>

definition TARGET_SR :: nat where
  "TARGET_SR = 44100"

definition TARGET_BITS :: subtype where
  "TARGET_BITS = PCM_24"

text \<open>\<open>-f f32le -ac 2\<close>: two 4-byte floats per frame.\<close>

definition bytes_per_frame :: nat where
  "bytes_per_frame = 8"

section \<open>The decoding producer\<close>

record player =
  pl_pending :: nat
  pl_piped :: nat
  pl_exited :: bool

definition player_exited :: player where
  "player_exited = \<lparr>pl_pending = 0, pl_piped = 0, pl_exited = True\<rparr>"

text \<open>\<open>subprocess.Popen(...)\<close>: \<open>FileNotFoundError\<close> without an ffmpeg binary;
  otherwise a running producer with the decoded size still to write, or one that exits
  at once when the source is missing or undecodable.\<close>

definition player_start :: "'a host_scheme \<Rightarrow> fs \<Rightarrow> path \<Rightarrow> error + player" where
  "player_start h fs src =
     (if \<not> ffmpeg_installed h then Inl (FileNotFoundError ''ffmpeg'')
      else Inr (case fs src of
                  None \<Rightarrow> player_exited
                | Some f \<Rightarrow>
                    (case ff_decode h f of
                       None \<Rightarrow> player_exited
                     | Some frs \<Rightarrow> \<lparr>pl_pending = bytes_per_frame * length frs, pl_piped = 0,
                                    pl_exited = False\<rparr>)))"

text \<open>One capture block interval of the producer: write what fits into the pipe, or
  exit when nothing is left to write.\<close>

definition player_step :: "'a host_scheme \<Rightarrow> player \<Rightarrow> player" where
  "player_step h p =
     (if pl_exited p then p
      else if pl_pending p = 0 then p\<lparr>pl_exited := True\<rparr>
      else (let w = min (decode_rate h) (min (pl_pending p) (pipe_capacity h - pl_piped p))
            in p\<lparr>pl_pending := pl_pending p - w, pl_piped := pl_piped p + w\<rparr>))"

text \<open>\<open>player.poll() is None\<close>.\<close>

definition player_running :: "player \<Rightarrow> bool" where
  "player_running p \<longleftrightarrow> \<not> pl_exited p"

section \<open>The direct fallback conversion\<close>

definition fallback_wav :: "frame list \<Rightarrow> wav" where
  "fallback_wav frs = \<lparr>wav_rate = TARGET_SR, wav_channels = 2, wav_subtype = PCM_16, wav_frames = frs\<rparr>"

text \<open>What ffmpeg writes for the frames \<open>frs\<close>: ffmpeg's default 16-bit WAV for a
  \<open>.wav\<close> path, another container (named by its lower-case extension) otherwise.\<close>

definition ff_output :: "path \<Rightarrow> frame list \<Rightarrow> fcontent" where
  "ff_output out frs =
     (if py_lower (ff_ext out) = ''wav'' then WavFile (fallback_wav frs)
      else Transcoded (py_lower (ff_ext out)) frs)"

definition direct_convert :: "'a host_scheme \<Rightarrow> fs \<Rightarrow> path \<Rightarrow> path \<Rightarrow> error + fs" where
  "direct_convert h fs src out =
     (if \<not> ffmpeg_installed h then Inl (FileNotFoundError ''ffmpeg'')
      else case fs src of
        None \<Rightarrow> Inl CalledProcessError
      | Some f \<Rightarrow>
          (case ff_decode h f of
             None \<Rightarrow> Inl CalledProcessError
           | Some frs \<Rightarrow>
               if \<not> ff_muxes h (py_lower (ff_ext out)) then Inl CalledProcessError
               else if out = src then Inl CalledProcessError
               else if writable h out then Inr (fs(out \<mapsto> ff_output out frs))
               else Inl CalledProcessError))"

section \<open>Opening a file for writing with soundfile\<close>

text \<open>\<open>soundfile\<close>'s table of formats, keyed by file extension (compared in upper case
  there, in lower case here), and those of them that libsndfile can write with
  \<open>PCM_24\<close> samples.\<close>

definition sf_formats :: "string list" where
  "sf_formats = [''wav'', ''aiff'', ''au'', ''raw'', ''paf'', ''svx'', ''nist'', ''voc'', ''ircam'', ''w64'',
     ''mat4'', ''mat5'', ''pvf'', ''xi'', ''htk'', ''sds'', ''avr'', ''wavex'', ''sd2'', ''flac'', ''caf'',
     ''wve'', ''ogg'', ''mpc2k'', ''rf64'', ''mp3'']"

definition sf_pcm24_formats :: "string list" where
  "sf_pcm24_formats = [''wav'', ''aiff'', ''au'', ''raw'', ''paf'', ''nist'', ''w64'', ''sds'', ''wavex'',
     ''sd2'', ''flac'', ''caf'', ''rf64'']"

text \<open>Opening \<open>p\<close> for writing: \<open>TypeError\<close> when no format can be derived from
  the extension, \<open>ValueError\<close> ("Invalid combination of format, subtype and
  endian") when the format has no 24-bit PCM, \<open>LibsndfileError\<close> when the file
  cannot be created.\<close>

definition sf_open_write :: "'a host_scheme \<Rightarrow> path \<Rightarrow> error + unit" where
  "sf_open_write h p =
     (let fmt = py_lower (py_ext p) in
      if fmt \<notin> set sf_formats then Inl TypeError
      else if fmt \<notin> set sf_pcm24_formats then Inl ValueError
      else if writable h p then Inr () else Inl (LibsndfileError p))"

section \<open>Well-formed hosts\<close>

text \<open>ffmpeg's \<open>-ac 2\<close> output has two samples per frame.\<close>

definition host_ok :: "'a host_scheme \<Rightarrow> bool" where
  "host_ok h \<longleftrightarrow> (\<forall>f frs. ff_decode h f = Some frs \<longrightarrow> frames_ok 2 frs)"

section \<open>Lemmas\<close>

text \<open>The producer never loses bytes: what is written to the pipe is taken from what
  is pending, and the pipe never holds more than its capacity.\<close>

definition player_total :: "player \<Rightarrow> nat" where
  "player_total p = pl_pending p + pl_piped p"

lemma sf_open_write_wav:
  "py_lower (py_ext p) = ''wav'' \<Longrightarrow> sf_open_write h p = (if writable h p then Inr () else Inl (LibsndfileError p))"
  by (simp add: sf_open_write_def sf_formats_def sf_pcm24_formats_def)

lemma ff_output_wav: "py_lower (ff_ext out) = ''wav'' \<Longrightarrow> ff_output out frs = WavFile (fallback_wav frs)"
  by (simp add: ff_output_def)

lemma direct_convert_in_place: "ffmpeg_installed h \<Longrightarrow> direct_convert h fs f f = Inl CalledProcessError"
  by (simp add: direct_convert_def split: option.split)

lemma player_step_total [simp]: "player_total (player_step h p) = player_total p"
  by (simp add: player_step_def player_total_def Let_def)

lemma player_step_piped_le:
  "pl_piped p \<le> pipe_capacity h \<Longrightarrow> pl_piped (player_step h p) \<le> pipe_capacity h"
  unfolding player_step_def Let_def by (auto simp: min_def)

lemma player_step_exited [simp]: "pl_exited p \<Longrightarrow> player_step h p = p"
  by (simp add: player_step_def)

lemma player_start_Inr:
  "player_start h fs src = Inr p \<Longrightarrow> pl_piped p = 0"
  by (auto simp: player_start_def player_exited_def split: if_splits option.splits)

text \<open>A producer with more to write than the pipe holds is stuck: it never exits.\<close>

definition player_stuck :: "'a host_scheme \<Rightarrow> player \<Rightarrow> bool" where
  "player_stuck h p \<longleftrightarrow>
     \<not> pl_exited p \<and> pl_piped p \<le> pipe_capacity h \<and> pipe_capacity h < player_total p"

lemma player_step_stuck:
  "player_stuck h p \<Longrightarrow> player_stuck h (player_step h p)"
  by (auto simp: player_stuck_def player_step_def player_total_def Let_def)

lemma player_stuck_funpow:
  "player_stuck h p \<Longrightarrow> player_stuck h ((player_step h ^^ n) p)"
  by (induction n) (simp_all add: player_step_stuck)

text \<open>A producer whose output fits into the pipe, with a positive rate, exits: each step
  either writes a positive number of bytes or exits. The measure is the pending bytes
  plus one for a running process.\<close>

definition player_fits :: "'a host_scheme \<Rightarrow> player \<Rightarrow> bool" where
  "player_fits h p \<longleftrightarrow> player_total p \<le> pipe_capacity h"

definition player_measure :: "player \<Rightarrow> nat" where
  "player_measure p = pl_pending p + (if pl_exited p then 0 else 1)"

lemma player_step_fits:
  "player_fits h p \<Longrightarrow> player_fits h (player_step h p)"
  by (simp add: player_fits_def)

lemma player_step_decreases:
  assumes "player_fits h p" and "0 < decode_rate h" and "\<not> pl_exited p"
  shows "player_measure (player_step h p) < player_measure p"
proof (cases "pl_pending p = 0")
  case True
  with assms(3) show ?thesis by (simp add: player_step_def player_measure_def)
next
  case False
  with assms(1) have "0 < min (pl_pending p) (pipe_capacity h - pl_piped p)"
    by (simp add: player_fits_def player_total_def)
  with assms(2,3) False show ?thesis
    by (simp add: player_step_def player_measure_def Let_def)
qed

end
