(* ===== verification/Capture.thy ===== *)
theory Capture
  imports Decoder
begin

text \<open>
  The Loopback Capturer, \<open>rerecord\<close> (\<open>src/audio_scrubber.py\<close> lines 20--42;
  \<open>src/audio_scrubber_gui.py\<close> lines 16--41 is the same code with the device name
  as a parameter). After starting the ffmpeg producer (theory \<open>Decoder\<close>) it opens
  the output WAV file, opens an input stream on the capture device, sleeps 100 ms, reads
  1024-frame blocks while \<open>player.poll() is None\<close>, then performs ten more reads
  with \<open>exception_on_overflow=False\<close>. Any exception inside the \<open>try\<close> falls back
  to the direct conversion of theory \<open>Decoder\<close>. Opening the output file is
  \<open>soundfile\<close>'s check of theory \<open>Decoder\<close> (\<open>sf_open_write\<close>).

  The capture device is a function from the index of a \<open>stream.read\<close> call to its
  result: a block of frames with the overflow flag, or a \<open>PortAudioError\<close>. The
  device table maps a device name to its stream (\<open>None\<close>: opening the stream fails).
  The stream is sounddevice's \<open>InputStream\<close> (the script imports
  \<open>sounddevice as sd\<close>), whose \<open>read(frames)\<close> takes no
  \<open>exception_on_overflow\<close> argument: the first drain call raises \<open>TypeError\<close>
  before reading anything.
  The wait loop may run forever, so it is a \<open>partial_function (option)\<close>:
  \<open>None\<close> is a capture that never returns.
\<close>

datatype read_result = Block "frame list" bool | ReadFailed

type_synonym device = "nat \<Rightarrow> read_result"

record audio_host = host +
  devices :: "string \<Rightarrow> device option"

record capture =
  cp_player :: player
  cp_reads :: nat
  cp_blocks :: "frame list list"

text \<open>Ten drain reads after the producer has exited (line 36).\<close>

definition DRAIN_READS :: nat where
  "DRAIN_READS = 10"

text \<open>The file \<open>sf.SoundFile(output_wav, mode="w", samplerate=TARGET_SR,
  channels=2, subtype="PCM_24")\<close> holding the written blocks in order.\<close>

definition capture_wav :: "frame list list \<Rightarrow> wav" where
  "capture_wav bs =
     \<lparr>wav_rate = TARGET_SR, wav_channels = 2, wav_subtype = TARGET_BITS, wav_frames = concat bs\<rparr>"

text \<open>One \<open>stream.read(1024)\<close> followed by \<open>f.write(data)\<close>.\<close>

definition read_block :: "capture \<Rightarrow> frame list \<Rightarrow> capture" where
  "read_block c data = c\<lparr>cp_reads := Suc (cp_reads c), cp_blocks := cp_blocks c @ [data]\<rparr>"

text \<open>Lines 33--35: poll, read (the producer runs meanwhile), write. The overflow flag
  is ignored.\<close>

partial_function (option) capture_loop ::
  "'a audio_host_scheme \<Rightarrow> device \<Rightarrow> capture \<Rightarrow> ((error \<times> capture) + capture) option"
where
  "capture_loop h d c =
     (if \<not> player_running (cp_player c) then Some (Inr c)
      else case d (cp_reads c) of
        ReadFailed \<Rightarrow> Some (Inl (PortAudioError, c))
      | Block data overflow \<Rightarrow>
          capture_loop h d ((read_block c data)\<lparr>cp_player := player_step h (cp_player c)\<rparr>))"

text \<open>Lines 36--38: the drain loop. Each iteration calls
  \<open>stream.read(1024, exception_on_overflow=False)\<close>, which raises \<open>TypeError\<close>
  (an unexpected keyword argument of \<open>InputStream.read\<close>) before reading a block,
  so the first iteration leaves the loop with the capture as it was.\<close>

fun drain :: "device \<Rightarrow> nat \<Rightarrow> capture \<Rightarrow> (error \<times> capture) + capture" where
  "drain d 0 c = Inr c"
| "drain d (Suc n) c = Inl (TypeError, c)"

text \<open>Lines 30--38, inside the open file: the stream, the settle delay (one producer
  step), the loop and the drain.\<close>

definition capture_streams ::
  "'a audio_host_scheme \<Rightarrow> device \<Rightarrow> player \<Rightarrow> ((error \<times> capture) + capture) option"
where
  "capture_streams h d p =
     map_option
       (\<lambda>r. case r of
              Inl ec \<Rightarrow> Inl ec
            | Inr c \<Rightarrow> drain d DRAIN_READS c)
       (capture_loop h d \<lparr>cp_player = player_step h p, cp_reads = 0, cp_blocks = []\<rparr>)"

text \<open>Lines 28--38, the body of the \<open>try\<close>: \<open>sf.SoundFile\<close> checks the
  format and creates (or truncates) the output file, which then holds the written blocks
  whichever way the \<open>with\<close> blocks are left.\<close>

definition capture_attempt ::
  "'a audio_host_scheme \<Rightarrow> string \<Rightarrow> fs \<Rightarrow> path \<Rightarrow> player \<Rightarrow> ((error + unit) \<times> fs) option"
where
  "capture_attempt h dev fs out p =
     (case sf_open_write h out of
        Inl e \<Rightarrow> Some (Inl e, fs)
      | Inr _ \<Rightarrow> (case devices h dev of
        None \<Rightarrow> Some (Inl PortAudioError, fs(out \<mapsto> WavFile (capture_wav [])))
      | Some d \<Rightarrow>
          map_option
            (\<lambda>r. case r of
                   Inl (e, c) \<Rightarrow> (Inl e, fs(out \<mapsto> WavFile (capture_wav (cp_blocks c))))
                 | Inr c \<Rightarrow> (Inr (), fs(out \<mapsto> WavFile (capture_wav (cp_blocks c)))))
            (capture_streams h d p)))"

text \<open>The whole function: \<open>Popen\<close> outside the \<open>try\<close> (its exception propagates),
  the attempt, and on any exception the direct conversion (whose exception
  propagates).\<close>

definition rerecord ::
  "'a audio_host_scheme \<Rightarrow> string \<Rightarrow> fs \<Rightarrow> path \<Rightarrow> path \<Rightarrow> ((error + unit) \<times> fs) option"
where
  "rerecord h dev fs src out =
     (case player_start h fs src of
        Inl e \<Rightarrow> Some (Inl e, fs)
      | Inr p \<Rightarrow>
          map_option
            (\<lambda>(r, fs'). case r of
                Inr u \<Rightarrow> (Inr u, fs')
              | Inl _ \<Rightarrow>
                  (case direct_convert h fs' src out of
                     Inl e \<Rightarrow> (Inl e, fs')
                   | Inr fs'' \<Rightarrow> (Inr (), fs'')))
            (capture_attempt h dev fs out p))"

section \<open>Well-formed devices\<close>

definition device_ok :: "device \<Rightarrow> bool" where
  "device_ok d \<longleftrightarrow> (\<forall>k data ov. d k = Block data ov \<longrightarrow> frames_ok 2 data)"

definition audio_host_ok :: "'a audio_host_scheme \<Rightarrow> bool" where
  "audio_host_ok h \<longleftrightarrow> host_ok h \<and> (\<forall>n d. devices h n = Some d \<longrightarrow> device_ok d)"

definition reads_succeed :: "device \<Rightarrow> bool" where
  "reads_succeed d \<longleftrightarrow> (\<forall>k. d k \<noteq> ReadFailed)"

fun block_data :: "read_result \<Rightarrow> frame list" where
  "block_data (Block data _) = data"
| "block_data ReadFailed = []"


fun result_capture :: "(error \<times> capture) + capture \<Rightarrow> capture" where
  "result_capture (Inl (e, c)) = c"
| "result_capture (Inr c) = c"

text \<open>The blocks written so far are the device's blocks in read order.\<close>

definition blocks_from :: "device \<Rightarrow> capture \<Rightarrow> bool" where
  "blocks_from d c \<longleftrightarrow> cp_blocks c = map (\<lambda>k. block_data (d k)) [0..<cp_reads c]"

text \<open>The result of a read with its overflow flag cleared, and two devices that deliver
  the same blocks and failures at every read index, whatever overflows they report.\<close>

fun clear_overflow :: "read_result \<Rightarrow> read_result" where
  "clear_overflow (Block data _) = Block data False"
| "clear_overflow ReadFailed = ReadFailed"

definition same_reads :: "device \<Rightarrow> device \<Rightarrow> bool" where
  "same_reads d d' \<longleftrightarrow> (\<forall>k. clear_overflow (d k) = clear_overflow (d' k))"

definition no_overflow :: "'a audio_host_scheme \<Rightarrow> 'a audio_host_scheme" where
  "no_overflow h = h\<lparr>devices := \<lambda>n. map_option (\<lambda>d k. clear_overflow (d k)) (devices h n)\<rparr>"

section \<open>Example configuration\<close>

text \<open>A host whose ffmpeg decodes every file to one stereo frame (8 bytes) and writes
  \<open>.wav\<close> and \<open>.mp3\<close> files, whose capture device \<open>default\<close> delivers
  block \<open>k\<close> as the single frame \<open>[k, k]\<close>, with a given pipe capacity.\<close>

definition demo_device :: device where
  "demo_device k = Block [[int k, int k]] False"

definition demo_host :: "nat \<Rightarrow> audio_host" where
  "demo_host cap =
     \<lparr>ffmpeg_installed = True, ff_decode = (\<lambda>_. Some [[0, 0]]),
      pipe_capacity = cap, decode_rate = 8, writable = (\<lambda>_. True),
      ff_muxes = (\<lambda>e. e \<in> set [''wav'', ''mp3'']),
      devices = (\<lambda>n. if n = ''default'' then Some demo_device else None)\<rparr>"

definition demo_fs :: fs where
  "demo_fs = [''a.mp3'' \<mapsto> Encoded 0]"

section \<open>Lemmas\<close>

lemma demo_exts [simp]:
  "py_ext ''a_rerecord.wav'' = ''wav''" "ff_ext ''a_rerecord.wav'' = ''wav''"
  using ext_wav_suffix(1,2) [of "''a''"] by simp_all

subsection \<open>Unfolding the loops on concrete states\<close>

declare rerecord_def [model_simps] capture_attempt_def [model_simps] capture_streams_def [model_simps]
  player_start_def [model_simps] player_step_def [model_simps] player_running_def [model_simps]
  read_block_def [model_simps] direct_convert_def [model_simps] bytes_per_frame_def [model_simps]
  DRAIN_READS_def [model_simps] player_exited_def [model_simps] sf_open_write_def [model_simps]
  ff_output_def [model_simps] sf_formats_def [model_simps] sf_pcm24_formats_def [model_simps]
  py_ext_def [model_simps] ff_ext_def [model_simps]

lemma capture_loop_exit [model_simps]:
  "\<not> player_running (cp_player c) \<Longrightarrow> capture_loop h d c = Some (Inr c)"
  by (subst capture_loop.simps) simp

lemma capture_loop_running [model_simps]:
  "player_running (cp_player c) \<Longrightarrow>
   capture_loop h d c =
     (case d (cp_reads c) of
        ReadFailed \<Rightarrow> Some (Inl (PortAudioError, c))
      | Block data overflow \<Rightarrow>
          capture_loop h d ((read_block c data)\<lparr>cp_player := player_step h (cp_player c)\<rparr>))"
  by (subst capture_loop.simps) simp

lemma drain_numeral [model_simps]: "drain d (numeral k) c = Inl (TypeError, c)"
  by (simp add: numeral_eq_Suc)

subsection \<open>The wait loop and the drain\<close>

lemma read_block_simps [simp]:
  "cp_reads (read_block c data) = Suc (cp_reads c)"
  "cp_blocks (read_block c data) = cp_blocks c @ [data]"
  "cp_player (read_block c data) = cp_player c"
  by (simp_all add: read_block_def)

lemma blocks_from_read_block:
  "blocks_from d c \<Longrightarrow> d (cp_reads c) = Block data ov \<Longrightarrow> blocks_from d (read_block c data)"
  by (simp add: blocks_from_def)

lemma blocks_from_start [simp]: "blocks_from d \<lparr>cp_player = p, cp_reads = 0, cp_blocks = []\<rparr>"
  by (simp add: blocks_from_def)

lemma capture_loop_stuck:
  assumes "player_stuck h (cp_player c)" and "reads_succeed d"
  shows "capture_loop h d c = None"
proof (rule ccontr)
  assume "capture_loop h d c \<noteq> None"
  then obtain r where ret: "capture_loop h d c = Some r" by blast
  have "reads_succeed d \<longrightarrow> \<not> player_stuck h (cp_player c)"
  proof (rule capture_loop.raw_induct
      [where P = "\<lambda>h d c r. reads_succeed d \<longrightarrow> \<not> player_stuck h (cp_player c)", OF _ ret])
    fix f h d c r
    assume IH: "\<And>h d c r. f h d c = Some r \<Longrightarrow> reads_succeed d \<longrightarrow> \<not> player_stuck h (cp_player c)"
      and eq: "(if \<not> player_running (cp_player c) then Some (Inr c)
          else case d (cp_reads c) of
            ReadFailed \<Rightarrow> Some (Inl (PortAudioError, c))
          | Block data overflow \<Rightarrow>
              f h d ((read_block c data)\<lparr>cp_player := player_step h (cp_player c)\<rparr>)) = Some r"
    show "reads_succeed d \<longrightarrow> \<not> player_stuck h (cp_player c)"
    proof (intro impI notI)
      assume ok: "reads_succeed d" and st: "player_stuck h (cp_player c)"
      then have run: "player_running (cp_player c)"
        by (simp add: player_stuck_def player_running_def)
      from ok obtain data ov where blk: "d (cp_reads c) = Block data ov"
        by (cases "d (cp_reads c)") (auto simp: reads_succeed_def)
      from eq run blk have "f h d ((read_block c data)\<lparr>cp_player := player_step h (cp_player c)\<rparr>) = Some r"
        by simp
      from IH [OF this] ok have "\<not> player_stuck h (player_step h (cp_player c))" by simp
      with player_step_stuck [OF st] show False by simp
    qed
  qed
  with assms show False by simp
qed

lemma capture_loop_fits:
  assumes "player_fits h (cp_player c)" and "0 < decode_rate h"
  shows "\<exists>r. capture_loop h d c = Some r"
  using assms(1)
proof (induction "player_measure (cp_player c)" arbitrary: c rule: less_induct)
  case less
  show ?case
  proof (cases "player_running (cp_player c)")
    case False
    then show ?thesis by (subst capture_loop.simps) simp
  next
    case True
    show ?thesis
    proof (cases "d (cp_reads c)")
      case ReadFailed
      with True show ?thesis by (subst capture_loop.simps) simp
    next
      case (Block data ov)
      let ?c' = "(read_block c data)\<lparr>cp_player := player_step h (cp_player c)\<rparr>"
      have "player_measure (cp_player ?c') < player_measure (cp_player c)"
        using player_step_decreases [OF less.prems assms(2)] True by (simp add: player_running_def)
      moreover have "player_fits h (cp_player ?c')"
        using player_step_fits [OF less.prems] by simp
      ultimately obtain r where "capture_loop h d ?c' = Some r"
        using less.hyps by blast
      with True Block show ?thesis by (subst capture_loop.simps) simp
    qed
  qed
qed

lemma capture_loop_result:
  assumes ret: "capture_loop h d c = Some r"
  shows "blocks_from d c \<longrightarrow> blocks_from d (result_capture r) \<and> (isl r \<longrightarrow> \<not> reads_succeed d)"
proof (rule capture_loop.raw_induct
    [where P = "\<lambda>h d c r. blocks_from d c \<longrightarrow> blocks_from d (result_capture r) \<and> (isl r \<longrightarrow> \<not> reads_succeed d)", OF _ ret])
  fix f h d c r
  assume IH: "\<And>h d c r. f h d c = Some r \<Longrightarrow>
      blocks_from d c \<longrightarrow> blocks_from d (result_capture r) \<and> (isl r \<longrightarrow> \<not> reads_succeed d)"
    and eq: "(if \<not> player_running (cp_player c) then Some (Inr c)
        else case d (cp_reads c) of
          ReadFailed \<Rightarrow> Some (Inl (PortAudioError, c))
        | Block data overflow \<Rightarrow>
            f h d ((read_block c data)\<lparr>cp_player := player_step h (cp_player c)\<rparr>)) = Some r"
  show "blocks_from d c \<longrightarrow> blocks_from d (result_capture r) \<and> (isl r \<longrightarrow> \<not> reads_succeed d)"
  proof
    assume bf: "blocks_from d c"
    show "blocks_from d (result_capture r) \<and> (isl r \<longrightarrow> \<not> reads_succeed d)"
    proof (cases "player_running (cp_player c)")
      case False
      with eq bf show ?thesis by auto
    next
      case True
      show ?thesis
      proof (cases "d (cp_reads c)")
        case ReadFailed
        with True eq bf show ?thesis by (auto simp: reads_succeed_def)
      next
        case (Block data ov)
        with True eq have "f h d ((read_block c data)\<lparr>cp_player := player_step h (cp_player c)\<rparr>) = Some r"
          by simp
        moreover have "blocks_from d ((read_block c data)\<lparr>cp_player := player_step h (cp_player c)\<rparr>)"
          using blocks_from_read_block [OF bf Block] by (simp add: blocks_from_def)
        ultimately show ?thesis using IH by blast
      qed
    qed
  qed
qed

lemma player_start_fits:
  assumes "player_start h fs src = Inr p"
    and "\<forall>f frs. fs src = Some f \<longrightarrow> ff_decode h f = Some frs \<longrightarrow> bytes_per_frame * length frs \<le> pipe_capacity h"
  shows "player_fits h p"
  using assms
  by (auto simp: player_start_def player_fits_def player_total_def player_exited_def
           split: if_splits option.splits)

lemma capture_streams_fits:
  "player_fits h p \<Longrightarrow> 0 < decode_rate h \<Longrightarrow> capture_streams h d p \<noteq> None"
  using capture_loop_fits [of h "\<lparr>cp_player = player_step h p, cp_reads = 0, cp_blocks = []\<rparr>" d]
  by (auto simp: capture_streams_def player_step_fits)

lemma capture_attempt_None:
  "capture_attempt h dev fs out p = None \<longleftrightarrow>
   sf_open_write h out = Inr () \<and> (\<exists>d. devices h dev = Some d \<and> capture_streams h d p = None)"
  by (auto simp: capture_attempt_def split: option.splits sum.splits)

lemma capture_attempt_fits:
  "player_fits h p \<Longrightarrow> 0 < decode_rate h \<Longrightarrow> capture_attempt h dev fs out p \<noteq> None"
  by (auto simp: capture_attempt_None dest: capture_streams_fits)

lemma capture_attempt_Some:
  assumes "capture_attempt h dev fs out p = Some (r, fs')"
  obtains (unopened) e where "sf_open_write h out = Inl e" "r = Inl e" "fs' = fs"
  | (nodev) "sf_open_write h out = Inr ()" "devices h dev = None" "r = Inl PortAudioError"
      "fs' = fs(out \<mapsto> WavFile (capture_wav []))"
  | (streams) d x where "sf_open_write h out = Inr ()" "devices h dev = Some d" "capture_streams h d p = Some x"
      "r = (case x of Inl (e, c) \<Rightarrow> Inl e | Inr c \<Rightarrow> Inr ())"
      "fs' = fs(out \<mapsto> WavFile (capture_wav (cp_blocks (result_capture x))))"
proof (cases "sf_open_write h out")
  case (Inl e)
  with assms show ?thesis by (intro unopened [of e]) (simp_all add: capture_attempt_def)
next
  case (Inr u)
  then have ok: "sf_open_write h out = Inr ()" by simp
  show ?thesis
  proof (cases "devices h dev")
    case None
    with ok assms show ?thesis using nodev by (simp add: capture_attempt_def)
  next
    case (Some d)
    with ok assms obtain x where x: "capture_streams h d p = Some x"
      by (auto simp: capture_attempt_def)
    with ok Some assms show ?thesis
      using streams [OF ok Some x] by (cases x) (auto simp: capture_attempt_def)
  qed
qed

lemma capture_attempt_other:
  "capture_attempt h dev fs out p = Some (r, fs') \<Longrightarrow> q \<noteq> out \<Longrightarrow> fs' q = fs q"
  by (erule capture_attempt_Some) simp_all

lemma result_capture_drain [simp]: "result_capture (drain d n c) = c"
  by (cases n) simp_all

lemma capture_streams_isl:
  assumes "capture_streams h d p = Some r"
  shows "isl r"
proof -
  from assms obtain y where
    "r = (case y of Inl ec \<Rightarrow> Inl ec | Inr c \<Rightarrow> drain d DRAIN_READS c)"
    by (auto simp: capture_streams_def)
  then show ?thesis by (cases y) (simp_all add: DRAIN_READS_def drain_numeral)
qed

lemma capture_attempt_isl:
  assumes "capture_attempt h dev fs out p = Some (r, fs')"
  shows "isl r"
  using assms
proof (cases rule: capture_attempt_Some)
  case (streams d x)
  from capture_streams_isl [OF streams(3)] streams(4) show ?thesis by (cases x) auto
qed simp_all

lemma direct_convert_Inr:
  "direct_convert h fs src out = Inr fs' \<Longrightarrow>
   \<exists>f frs. fs src = Some f \<and> ff_decode h f = Some frs \<and> out \<noteq> src \<and> fs' = fs(out \<mapsto> ff_output out frs)"
  by (auto simp: direct_convert_def split: if_splits option.splits)

subsection \<open>Well-formed files\<close>

lemma block_data_ok: "device_ok d \<Longrightarrow> frames_ok 2 (block_data (d k))"
  by (cases "d k") (auto simp: device_ok_def)

lemma blocks_from_ok:
  "device_ok d \<Longrightarrow> blocks_from d c \<Longrightarrow> list_all (frames_ok 2) (cp_blocks c)"
  by (simp add: blocks_from_def list_all_iff block_data_ok)

lemma capture_wav_ok: "list_all (frames_ok 2) bs \<Longrightarrow> wav_ok (capture_wav bs)"
  by (simp add: capture_wav_def wav_ok_def)

lemma fallback_wav_ok: "frames_ok 2 frs \<Longrightarrow> wav_ok (fallback_wav frs)"
  by (simp add: fallback_wav_def wav_ok_def)

lemma ff_output_ok: "frames_ok 2 frs \<Longrightarrow> file_ok (ff_output out frs)"
  by (simp add: ff_output_def fallback_wav_ok)

lemma capture_streams_blocks:
  assumes "capture_streams h d p = Some r"
  shows "blocks_from d (result_capture r)"
proof -
  let ?c0 = "\<lparr>cp_player = player_step h p, cp_reads = 0, cp_blocks = []\<rparr>"
  obtain y where loop: "capture_loop h d ?c0 = Some y"
    and r: "r = (case y of Inl ec \<Rightarrow> Inl ec | Inr c \<Rightarrow> drain d DRAIN_READS c)"
    using assms by (auto simp: capture_streams_def)
  have "blocks_from d (result_capture y)" using capture_loop_result [OF loop] by simp
  with r show ?thesis by (cases y) auto
qed

lemma capture_attempt_ok:
  assumes "audio_host_ok h" and "fs_ok fs" and "capture_attempt h dev fs out p = Some (r, fs')"
  shows "fs_ok fs'"
  using assms(3)
proof (cases rule: capture_attempt_Some)
  case (streams d x)
  with assms(1) have "device_ok d" by (simp add: audio_host_ok_def)
  with capture_streams_blocks [OF streams(3)] have "list_all (frames_ok 2) (cp_blocks (result_capture x))"
    by (rule blocks_from_ok [rotated])
  with assms(2) streams(5) show ?thesis by (simp add: capture_wav_ok)
qed (use assms(2) in \<open>simp_all add: capture_wav_ok\<close>)

lemma direct_convert_ok:
  "host_ok h \<Longrightarrow> fs_ok fs \<Longrightarrow> direct_convert h fs src out = Inr fs' \<Longrightarrow> fs_ok fs'"
  by (auto simp: host_ok_def ff_output_ok dest!: direct_convert_Inr)

lemma rerecord_keeps_ok:
  assumes "audio_host_ok h" and "fs_ok fs" and ret: "rerecord h dev fs src out = Some (r, fs')"
  shows "fs_ok fs'"
proof (cases "player_start h fs src")
  case (Inl e)
  with ret assms(2) show ?thesis by (simp add: rerecord_def)
next
  case (Inr p)
  with ret obtain r1 fs1 where att: "capture_attempt h dev fs out p = Some (r1, fs1)"
    by (auto simp: rerecord_def)
  have ok1: "fs_ok fs1" by (rule capture_attempt_ok [OF assms(1,2) att])
  have "host_ok h" using assms(1) by (simp add: audio_host_ok_def)
  with ok1 ret Inr att show ?thesis
    by (auto simp: rerecord_def split: sum.splits dest: direct_convert_ok)
qed

subsection \<open>Overflow flags\<close>

lemma same_reads_sym: "same_reads d d' \<Longrightarrow> same_reads d' d"
  by (simp add: same_reads_def)

lemma same_reads_cases:
  assumes "same_reads d d'"
  shows "d k = ReadFailed \<longleftrightarrow> d' k = ReadFailed"
    and "d k = Block data ov \<Longrightarrow> \<exists>ov'. d' k = Block data ov'"
  using assms unfolding same_reads_def
  by (metis clear_overflow.elims read_result.distinct(1) read_result.inject)+

lemma capture_loop_same_reads:
  assumes ret: "capture_loop h d c = Some r"
  shows "\<forall>d'. player_step h' = player_step h \<and> same_reads d d' \<longrightarrow> capture_loop h' d' c = Some r"
proof (rule capture_loop.raw_induct [where P = "\<lambda>h d c r. \<forall>d'. player_step h' = player_step h \<and>
      same_reads d d' \<longrightarrow> capture_loop h' d' c = Some r", OF _ ret], intro allI impI, elim conjE)
  fix f h d c r d'
  assume IH: "\<And>h d c r. f h d c = Some r \<Longrightarrow>
      \<forall>d'. player_step h' = player_step h \<and> same_reads d d' \<longrightarrow> capture_loop h' d' c = Some r"
    and eq: "(if \<not> player_running (cp_player c) then Some (Inr c)
        else case d (cp_reads c) of
          ReadFailed \<Rightarrow> Some (Inl (PortAudioError, c))
        | Block data overflow \<Rightarrow>
            f h d ((read_block c data)\<lparr>cp_player := player_step h (cp_player c)\<rparr>)) = Some r"
    and ps: "player_step h' = player_step h" and sr: "same_reads d d'"
  show "capture_loop h' d' c = Some r"
  proof (cases "player_running (cp_player c)")
    case run: True
    show ?thesis
    proof (cases "d (cp_reads c)")
      case (Block data ov)
      with same_reads_cases(2) [OF sr] obtain ov' where d': "d' (cp_reads c) = Block data ov'" by blast
      let ?c = "(read_block c data)\<lparr>cp_player := player_step h (cp_player c)\<rparr>"
      have "f h d ?c = Some r" using eq run Block by simp
      then have "capture_loop h' d' ?c = Some r" using IH ps sr by blast
      then show ?thesis using run d' ps by (simp only: capture_loop_running read_result.case)
    next
      case ReadFailed
      with run eq same_reads_cases(1) [OF sr] show ?thesis by (simp add: capture_loop_running)
    qed
  qed (use eq in \<open>simp add: capture_loop_exit\<close>)
qed

lemma capture_loop_same_reads_eq:
  assumes "player_step h' = player_step h" and "same_reads d d'"
  shows "capture_loop h d c = capture_loop h' d' c"
proof (cases "capture_loop h d c")
  case None
  show ?thesis
  proof (rule ccontr)
    assume "capture_loop h d c \<noteq> capture_loop h' d' c"
    with None obtain r where "capture_loop h' d' c = Some r" by (cases "capture_loop h' d' c") auto
    with capture_loop_same_reads same_reads_sym [OF assms(2)] assms(1) None show False by fastforce
  qed
next
  case (Some r)
  with capture_loop_same_reads assms show ?thesis by fastforce
qed

lemma drain_same_reads: "drain d n c = drain d' n c"
  by (cases n) simp_all

lemma same_reads_clear: "same_reads (\<lambda>k. clear_overflow (d k)) d"
  unfolding same_reads_def by (metis clear_overflow.elims clear_overflow.simps)

lemma no_overflow_fields [simp]:
  "ffmpeg_installed (no_overflow h) = ffmpeg_installed h" "ff_decode (no_overflow h) = ff_decode h"
  "pipe_capacity (no_overflow h) = pipe_capacity h" "decode_rate (no_overflow h) = decode_rate h"
  "writable (no_overflow h) = writable h" "ff_muxes (no_overflow h) = ff_muxes h"
  "devices (no_overflow h) n = map_option (\<lambda>d k. clear_overflow (d k)) (devices h n)"
  by (simp_all add: no_overflow_def)

lemma no_overflow_ffmpeg [simp]:
  "player_step (no_overflow h) = player_step h" "player_start (no_overflow h) = player_start h"
  "direct_convert (no_overflow h) = direct_convert h" "sf_open_write (no_overflow h) = sf_open_write h"
  unfolding player_step_def player_start_def direct_convert_def sf_open_write_def no_overflow_fields
  by (rule refl)+

lemma capture_streams_no_overflow:
  "capture_streams (no_overflow h) (\<lambda>k. clear_overflow (d k)) p = capture_streams h d p"
proof -
  have "capture_loop h d c = capture_loop (no_overflow h) (\<lambda>k. clear_overflow (d k)) c" for c
    by (rule capture_loop_same_reads_eq [OF no_overflow_ffmpeg(1) same_reads_sym [OF same_reads_clear]])
  moreover have "drain d n c = drain (\<lambda>k. clear_overflow (d k)) n c" for n c
    by (rule drain_same_reads)
  ultimately show ?thesis by (simp add: capture_streams_def cong: sum.case_cong if_cong)
qed

section \<open>Properties of the loopback capture\<close>

text \<open>C1. The capture never returns when the decoded audio does not fit into the pipe:
  nothing reads ffmpeg's standard output, so ffmpeg blocks on the full pipe, \<open>poll()\<close>
  keeps returning \<open>None\<close> and the loop reads the device for ever. With a 64 KiB
  pipe and 8-byte frames this is every source longer than 8192 frames (0.19 s).\<close>

theorem rerecord_hangs:
  assumes "ffmpeg_installed h" and "sf_open_write h out = Inr ()" and "devices h dev = Some d"
    and "reads_succeed d" and "fs src = Some f" and "ff_decode h f = Some frs"
    and "pipe_capacity h < bytes_per_frame * length frs"
  shows "rerecord h dev fs src out = None"
proof -
  let ?p = "\<lparr>pl_pending = bytes_per_frame * length frs, pl_piped = 0, pl_exited = False\<rparr>"
  have start: "player_start h fs src = Inr ?p"
    using assms(1,5,6) by (simp add: player_start_def)
  have "player_stuck h ?p"
    using assms(7) by (simp add: player_stuck_def player_total_def)
  then have "player_stuck h (cp_player \<lparr>cp_player = player_step h ?p, cp_reads = 0, cp_blocks = []\<rparr>)"
    by (simp add: player_step_stuck)
  then have "capture_loop h d \<lparr>cp_player = player_step h ?p, cp_reads = 0, cp_blocks = []\<rparr> = None"
    using assms(4) by (rule capture_loop_stuck)
  with start assms(2,3) show ?thesis
    by (simp add: rerecord_def capture_attempt_def capture_streams_def)
qed

theorem rerecord_hangs_witness:
  "rerecord (demo_host 4) ''default'' demo_fs ''a.mp3'' ''a_rerecord.wav'' = None"
proof -
  have "reads_succeed demo_device" by (simp add: reads_succeed_def demo_device_def)
  then show ?thesis
    using rerecord_hangs [of "demo_host 4" "''a_rerecord.wav''" "''default''" demo_device
        demo_fs "''a.mp3''" "Encoded 0" "[[0, 0]]"]
    by (simp add: demo_host_def demo_fs_def bytes_per_frame_def model_simps)
qed

text \<open>C2. Conversely the capture always returns (with a result or an exception) when the
  decoded audio fits into the pipe and ffmpeg makes progress.\<close>

theorem rerecord_returns:
  assumes "0 < decode_rate h"
    and "\<forall>f frs. fs src = Some f \<longrightarrow> ff_decode h f = Some frs \<longrightarrow> bytes_per_frame * length frs \<le> pipe_capacity h"
  shows "rerecord h dev fs src out \<noteq> None"
proof (cases "player_start h fs src")
  case (Inl e)
  then show ?thesis by (simp add: rerecord_def)
next
  case (Inr p)
  from Inr assms(2) have "player_fits h p" by (rule player_start_fits)
  then have "capture_attempt h dev fs out p \<noteq> None" using assms(1) by (rule capture_attempt_fits)
  with Inr show ?thesis by (simp add: rerecord_def)
qed

theorem rerecord_returns_witness:
  "rerecord (demo_host 65536) ''default'' demo_fs ''a.mp3'' ''a_rerecord.wav'' \<noteq> None"
  using rerecord_returns [of "demo_host 65536" demo_fs "''a.mp3''" "''default''" "''a_rerecord.wav''"]
  by (simp add: demo_host_def demo_fs_def bytes_per_frame_def)

text \<open>C3. The drain's \<open>stream.read(1024, exception_on_overflow=False)\<close> is a
  \<open>TypeError\<close> for sounddevice's \<open>InputStream\<close>, so every capture that returns
  normally ends in the direct fallback conversion: the output file is ffmpeg's conversion
  of the source (16-bit PCM for a \<open>.wav\<close> path), never the captured audio, and the
  output is not the source itself.\<close>

theorem rerecord_kw_fallback:
  assumes ret: "rerecord h dev fs src out = Some (Inr (), fs')"
  shows "\<exists>f frs. fs src = Some f \<and> ff_decode h f = Some frs \<and> src \<noteq> out \<and>
    fs' out = Some (ff_output out frs)"
proof -
  obtain p where start: "player_start h fs src = Inr p"
    using ret by (cases "player_start h fs src") (auto simp: rerecord_def)
  obtain r fs1 where att: "capture_attempt h dev fs out p = Some (r, fs1)"
    using ret start by (cases "capture_attempt h dev fs out p") (auto simp: rerecord_def)
  have "isl r" using capture_attempt_isl [OF att] .
  with ret start att have conv: "direct_convert h fs1 src out = Inr fs'"
    by (auto simp: rerecord_def split: sum.splits)
  from direct_convert_Inr [OF conv] obtain f frs where
    "fs1 src = Some f" "ff_decode h f = Some frs" "out \<noteq> src" "fs' = fs1(out \<mapsto> ff_output out frs)"
    by blast
  moreover have "fs1 src = fs src" using capture_attempt_other [OF att] \<open>out \<noteq> src\<close> by simp
  ultimately show ?thesis by auto
qed

theorem rerecord_kw_fallback_witness:
  "\<exists>f frs. demo_fs ''a.mp3'' = Some f \<and> ff_decode (demo_host 65536) f = Some frs \<and>
     ''a.mp3'' \<noteq> ''a_rerecord.wav'' \<and>
     (demo_fs(''a_rerecord.wav'' \<mapsto> WavFile (fallback_wav [[0, 0]]))) ''a_rerecord.wav''
       = Some (ff_output ''a_rerecord.wav'' frs)"
proof -
  have run: "rerecord (demo_host 65536) ''default'' demo_fs ''a.mp3'' ''a_rerecord.wav''
      = Some (Inr (), demo_fs(''a_rerecord.wav'' \<mapsto> WavFile (fallback_wav [[0, 0]])))"
    by (simp add: rerecord_def player_start_def bytes_per_frame_def capture_attempt_def demo_host_def
        capture_streams_def model_simps player_step_def player_running_def demo_device_def
        read_block_def direct_convert_def demo_fs_def)
  from rerecord_kw_fallback [OF run] show ?thesis by simp
qed

text \<open>C4. Spec 4.2 step 4: a read may report a buffer overflow without that being treated
  as an error. The overflow flag returned by \<open>stream.read\<close> is never looked at: a
  device that reports no overflow at all, and otherwise delivers the same blocks and
  failures, gives the same outcome of \<open>rerecord\<close> (result, written files, and
  non-termination alike).\<close>

theorem rerecord_overflow_ignored:
  "rerecord (no_overflow h) dev fs src out = rerecord h dev fs src out"
  by (simp add: rerecord_def capture_attempt_def capture_streams_no_overflow
      del: no_overflow_ffmpeg(1) cong: sum.case_cong option.case_cong if_cong split: option.split)

end
