(* ===== verification/Scrub.thy ===== *)
theory Scrub
  imports Decoder
begin

text \<open>
  The Neural Re-encoder, \<open>neural_scrub\<close> (\<open>src/audio_scrubber.py\<close> lines 45--72;
  \<open>src/audio_scrubber_gui.py\<close> lines 43--62 is the same code with the bitrate as a
  parameter). It loads the 48 kHz EnCodec model (on every call), sets its bandwidth,
  reads the input WAV with \<open>sf.read\<close>, turns the \<open>(frames, channels)\<close> array into
  a channels-first tensor, converts it with \<open>convert_audio\<close> to the model's rate and
  two channels, runs encode and decode, transposes the result back to frames and writes
  it with \<open>sf.write\<close> as 24-bit PCM at the model's rate.

  The codec is a record of what the program uses of it: whether it loads, its sample
  rate, its list of supported bandwidths (EnCodec's 48 kHz model supports 3, 6, 12 and
  24 kbps), the per-channel resampler of \<open>julius.resample_frac\<close> that
  \<open>convert_audio\<close> applies, and the encode/decode round trip on a channels-first
  tensor (\<open>None\<close>: the inference raises). The 48 kHz model has two channels, so
  \<open>convert_audio\<close> takes its \<open>expand\<close> branch: a mono tensor is duplicated, a
  stereo tensor kept, any other channel count fails its assertion.
\<close>

record codec =
  cd_loads :: bool
  cd_rate :: nat
  cd_bandwidths :: "rat list"
  cd_resample :: "nat \<Rightarrow> nat \<Rightarrow> sample list \<Rightarrow> sample list"
  cd_roundtrip :: "rat \<Rightarrow> sample list list \<Rightarrow> sample list list option"

text \<open>The array \<open>sf.read\<close> returns: one-dimensional for a mono file, otherwise
  \<open>(frames, channels)\<close> with its column count.\<close>

datatype array = Mono "sample list" | Multi nat "frame list"

definition sf_read :: "fs \<Rightarrow> path \<Rightarrow> error + (array \<times> nat)" where
  "sf_read fs p =
     (case fs p of
        Some (WavFile w) \<Rightarrow>
          Inr (if wav_channels w = 1 then Mono (map (\<lambda>fr. fr ! 0) (wav_frames w))
               else Multi (wav_channels w) (wav_frames w), wav_rate w)
      | _ \<Rightarrow> Inl (LibsndfileError p))"

text \<open>Lines 53--57: \<open>unsqueeze(0)\<close> for a one-dimensional array, \<open>transpose(0, 1)\<close>
  otherwise.\<close>

definition channels_first :: "nat \<Rightarrow> frame list \<Rightarrow> sample list list" where
  "channels_first c frs = map (\<lambda>j. map (\<lambda>fr. fr ! j) frs) [0..<c]"

fun to_tensor :: "array \<Rightarrow> sample list list" where
  "to_tensor (Mono xs) = [xs]"
| "to_tensor (Multi c frs) = channels_first c frs"

text \<open>Line 60, \<open>convert_audio(wav, sr, model.sample_rate, model.channels)\<close>.\<close>

definition convert_audio :: "codec \<Rightarrow> sample list list \<Rightarrow> nat \<Rightarrow> error + sample list list" where
  "convert_audio cd wav sr =
     (if length wav \<noteq> 1 \<and> length wav \<noteq> 2 then Inl AssertionError
      else Inr (map (cd_resample cd sr (cd_rate cd)) (if length wav = 1 then [hd wav, hd wav] else wav)))"

text \<open>Line 68: \<open>squeeze(0).transpose(0, 1)\<close>, back to frames.\<close>

definition frames_len :: "sample list list \<Rightarrow> nat" where
  "frames_len t = (case t of [] \<Rightarrow> 0 | r # _ \<Rightarrow> length r)"

definition frames_of :: "sample list list \<Rightarrow> frame list" where
  "frames_of t = map (\<lambda>i. map (\<lambda>row. row ! i) t) [0..<frames_len t]"

text \<open>Line 71: \<open>sf.write(output_wav, out_data, model.sample_rate, subtype="PCM_24")\<close>:
  \<open>soundfile\<close>'s format check and file creation (\<open>sf_open_write\<close>), then the
  frames at 24 bits. The file is recorded as a WAV file, the format of the \<open>.wav\<close>
  paths the program writes.\<close>

definition sf_write :: "'a host_scheme \<Rightarrow> fs \<Rightarrow> path \<Rightarrow> nat \<Rightarrow> nat \<Rightarrow> frame list \<Rightarrow> error + fs" where
  "sf_write h fs p rate c frs =
     (case sf_open_write h p of
        Inl e \<Rightarrow> Inl e
      | Inr _ \<Rightarrow> Inr (fs(p \<mapsto> WavFile \<lparr>wav_rate = rate, wav_channels = c, wav_subtype = PCM_24, wav_frames = frs\<rparr>)))"

text \<open>The whole function, every raising call a branch, in the order of the source.\<close>

definition neural_scrub :: "'a host_scheme \<Rightarrow> codec \<Rightarrow> fs \<Rightarrow> path \<Rightarrow> path \<Rightarrow> rat \<Rightarrow> error + fs" where
  "neural_scrub h cd fs inp out bw =
     (if \<not> cd_loads cd then Inl RuntimeError
      else if bw \<notin> set (cd_bandwidths cd) then Inl ValueError
      else case sf_read fs inp of
        Inl e \<Rightarrow> Inl e
      | Inr (arr, sr) \<Rightarrow>
          (case convert_audio cd (to_tensor arr) sr of
             Inl e \<Rightarrow> Inl e
           | Inr wav \<Rightarrow>
               (case cd_roundtrip cd bw wav of
                  None \<Rightarrow> Inl RuntimeError
                | Some dec \<Rightarrow> sf_write h fs out (cd_rate cd) (length dec) (frames_of dec))))"

section \<open>Well-behaved codecs\<close>

text \<open>A rectangular tensor: every channel has the same length.\<close>

definition rectangular :: "sample list list \<Rightarrow> bool" where
  "rectangular t \<longleftrightarrow> (\<forall>r \<in> set t. length r = length (hd t))"

text \<open>The decoder's output has the model's two channels, of equal length.\<close>

definition codec_ok :: "codec \<Rightarrow> bool" where
  "codec_ok cd \<longleftrightarrow> (\<forall>bw x y. cd_roundtrip cd bw x = Some y \<longrightarrow> length y = 2 \<and> rectangular y)"

text \<open>A transparent codec: resampling and the round trip of a rectangular stereo tensor
  change nothing. The orientation handling of \<open>neural_scrub\<close> is judged against it.\<close>

definition transparent :: "codec \<Rightarrow> bool" where
  "transparent cd \<longleftrightarrow>
     (\<forall>a b. cd_resample cd a b = id) \<and>
     (\<forall>bw x. length x = 2 \<and> rectangular x \<longrightarrow> cd_roundtrip cd bw x = Some x)"

section \<open>Example configuration\<close>

text \<open>A codec with EnCodec 48 kHz's rate and bandwidth list that reproduces rectangular
  stereo tensors and fails on anything else, a host that can write everywhere, and a
  stereo input file.\<close>

definition demo_codec :: codec where
  "demo_codec =
     \<lparr>cd_loads = True, cd_rate = 48000, cd_bandwidths = [3, 6, 12, 24],
      cd_resample = (\<lambda>a b. id),
      cd_roundtrip = (\<lambda>bw x. if length x = 2 \<and> rectangular x then Some x else None)\<rparr>"

definition demo_scrub_host :: host where
  "demo_scrub_host =
     \<lparr>ffmpeg_installed = True, ff_decode = (\<lambda>_. None), pipe_capacity = 65536,
      decode_rate = 8, writable = (\<lambda>_. True), ff_muxes = (\<lambda>e. e \<in> set [''wav'', ''mp3''])\<rparr>"

definition demo_wav :: wav where
  "demo_wav = \<lparr>wav_rate = 44100, wav_channels = 2, wav_subtype = PCM_24, wav_frames = [[1, 2], [3, 4]]\<rparr>"

section \<open>Lemmas\<close>

declare neural_scrub_def [model_simps] sf_read_def [model_simps] convert_audio_def [model_simps]
  channels_first_def [model_simps] frames_of_def [model_simps] frames_len_def [model_simps]
  sf_write_def [model_simps] rectangular_def [model_simps]


lemma length_channels_first [simp]: "length (channels_first c frs) = c"
  by (simp add: channels_first_def)

lemma channels_first_rows: "r \<in> set (channels_first c frs) \<Longrightarrow> length r = length frs"
  by (auto simp: channels_first_def)

lemma length_frames_of [simp]: "length (frames_of t) = frames_len t"
  by (simp add: frames_of_def frames_len_def)

lemma nth_frames_of: "i < frames_len t \<Longrightarrow> frames_of t ! i = map (\<lambda>row. row ! i) t"
  by (simp add: frames_of_def frames_len_def)

lemma frames_len_channels_first: "0 < c \<Longrightarrow> frames_len (channels_first c frs) = length frs"
  by (cases c) (simp_all add: channels_first_def frames_len_def upt_conv_Cons del: upt_Suc)

lemma frames_of_channels_first:
  assumes "frames_ok c frs" and "0 < c"
  shows "frames_of (channels_first c frs) = frs"
proof (rule nth_equalityI)
  show "length (frames_of (channels_first c frs)) = length frs"
    using assms(2) by (simp add: frames_len_channels_first)
next
  fix i assume "i < length (frames_of (channels_first c frs))"
  then have i: "i < length frs" using assms(2) by (simp add: frames_len_channels_first)
  then have c: "length (frs ! i) = c" using assms(1) by (simp add: frames_ok_def list_all_length)
  have "frames_of (channels_first c frs) ! i = map (\<lambda>row. row ! i) (channels_first c frs)"
    using i assms(2) by (simp add: nth_frames_of frames_len_channels_first)
  also have "\<dots> = map (\<lambda>j. frs ! i ! j) [0..<c]"
    using i by (simp add: channels_first_def)
  also have "\<dots> = frs ! i"
    using c by (simp add: list_eq_iff_nth_eq)
  finally show "frames_of (channels_first c frs) ! i = frs ! i" .
qed

lemma frames_of_dup: "frames_of [xs, xs] = map (\<lambda>x. [x, x]) xs"
proof (rule nth_equalityI)
  show "length (frames_of [xs, xs]) = length (map (\<lambda>x. [x, x]) xs)"
    by (simp add: frames_len_def)
next
  fix i assume "i < length (frames_of [xs, xs])"
  then show "frames_of [xs, xs] ! i = map (\<lambda>x. [x, x]) xs ! i"
    by (simp add: frames_len_def nth_frames_of)
qed

lemma length_two_obtain:
  assumes "length xs = 2" obtains x y where "xs = [x, y]"
  using assms by (cases xs; cases "tl xs") auto

lemma frames_of_single: "frames_of [xs] = map (\<lambda>x. [x]) xs"
  by (rule nth_equalityI) (simp_all add: frames_len_def nth_frames_of)

lemma frames_of_ok: "rectangular t \<Longrightarrow> frames_ok (length t) (frames_of t)"
proof -
  assume r: "rectangular t"
  have "length (frames_of t ! i) = length t" if "i < frames_len t" for i
    using that by (simp add: nth_frames_of)
  then show ?thesis by (simp add: frames_ok_def list_all_length)
qed

lemma sf_write_Inr:
  "sf_write h fs p rate c frs = Inr fs' \<longleftrightarrow>
   sf_open_write h p = Inr () \<and> fs' = fs(p \<mapsto> WavFile \<lparr>wav_rate = rate, wav_channels = c, wav_subtype = PCM_24, wav_frames = frs\<rparr>)"
  by (auto simp: sf_write_def split: sum.splits)

lemma neural_scrub_Inr:
  assumes "neural_scrub h cd fs inp out bw = Inr fs'"
  obtains arr sr wav dec where "cd_loads cd" "bw \<in> set (cd_bandwidths cd)"
    "sf_read fs inp = Inr (arr, sr)" "convert_audio cd (to_tensor arr) sr = Inr wav"
    "cd_roundtrip cd bw wav = Some dec" "sf_open_write h out = Inr ()"
    "fs' = fs(out \<mapsto> WavFile \<lparr>wav_rate = cd_rate cd, wav_channels = length dec, wav_subtype = PCM_24,
                                wav_frames = frames_of dec\<rparr>)"
  using assms
  by (auto simp: neural_scrub_def sf_write_Inr split: if_splits sum.splits option.splits)

lemma neural_scrub_other:
  "neural_scrub h cd fs inp out bw = Inr fs' \<Longrightarrow> p \<noteq> out \<Longrightarrow> fs' p = fs p"
  by (erule neural_scrub_Inr) simp

lemma rectangular_channels_first: "rectangular (channels_first c frs)"
  unfolding rectangular_def
proof
  fix r assume r: "r \<in> set (channels_first c frs)"
  then have "channels_first c frs \<noteq> []" by auto
  then have "hd (channels_first c frs) \<in> set (channels_first c frs)" by (rule hd_in_set)
  with r show "length r = length (hd (channels_first c frs))" by (simp add: channels_first_rows)
qed

lemma rectangular_dup: "rectangular [xs, xs]"
  by (simp add: rectangular_def)

lemma neural_scrub_keeps_ok:
  assumes "codec_ok cd" and "fs_ok fs" and "neural_scrub h cd fs inp out bw = Inr fs'"
  shows "fs_ok fs'"
  using assms(3)
proof (rule neural_scrub_Inr)
  fix arr sr wav dec
  assume rt: "cd_roundtrip cd bw wav = Some dec"
    and fs': "fs' = fs(out \<mapsto> WavFile \<lparr>wav_rate = cd_rate cd, wav_channels = length dec,
                 wav_subtype = PCM_24, wav_frames = frames_of dec\<rparr>)"
  from assms(1) rt have "length dec = 2" and "rectangular dec" by (auto simp: codec_ok_def)
  then have "wav_ok \<lparr>wav_rate = cd_rate cd, wav_channels = length dec, wav_subtype = PCM_24,
                    wav_frames = frames_of dec\<rparr>"
    using frames_of_ok [of dec] by (simp add: wav_ok_def)
  with assms(2) fs' show ?thesis by simp
qed

section \<open>Properties of the neural re-encoder\<close>

text \<open>C24. The orientation handling is a round trip: with a transparent codec the scrub
  writes the input's frames back unchanged for a stereo file and duplicates the channel of
  a mono file, as 24-bit PCM at the codec's rate.\<close>

theorem neural_scrub_transparent:
  assumes "transparent cd" and "cd_loads cd" and "bw \<in> set (cd_bandwidths cd)"
    and "sf_open_write h out = Inr ()"
    and "fs inp = Some (WavFile w)" and "wav_ok w" and "wav_channels w \<in> {1, 2}"
  shows "neural_scrub h cd fs inp out bw =
    Inr (fs(out \<mapsto> WavFile \<lparr>wav_rate = cd_rate cd, wav_channels = 2, wav_subtype = PCM_24,
       wav_frames = (if wav_channels w = 1 then map (\<lambda>fr. [fr ! 0, fr ! 0]) (wav_frames w)
                     else wav_frames w)\<rparr>))"
proof (cases "wav_channels w = 1")
  case True
  let ?xs = "map (\<lambda>fr. fr ! 0) (wav_frames w)"
  have "frames_of [?xs, ?xs] = map (\<lambda>fr. [fr ! 0, fr ! 0]) (wav_frames w)"
    by (simp add: frames_of_dup)
  with True assms rectangular_dup [of ?xs] show ?thesis
    by (simp add: neural_scrub_def sf_read_def convert_audio_def transparent_def sf_write_def numeral_2_eq_2)
next
  case False
  with assms(7) have two: "wav_channels w = 2" by simp
  have "frames_ok 2 (wav_frames w)" using assms(6) two by (simp add: wav_ok_def)
  then have "frames_of (channels_first 2 (wav_frames w)) = wav_frames w"
    by (simp add: frames_of_channels_first)
  with two assms rectangular_channels_first [of 2 "wav_frames w"] show ?thesis
    by (simp add: neural_scrub_def sf_read_def convert_audio_def transparent_def sf_write_def)
qed

theorem neural_scrub_transparent_witness:
  "neural_scrub demo_scrub_host demo_codec [''t.wav'' \<mapsto> WavFile demo_wav] ''t.wav'' ''c.wav'' 12 =
     Inr [''t.wav'' \<mapsto> WavFile demo_wav,
          ''c.wav'' \<mapsto> WavFile \<lparr>wav_rate = 48000, wav_channels = 2, wav_subtype = PCM_24,
                                wav_frames = [[1, 2], [3, 4]]\<rparr>]"
proof -
  have hyps: "transparent demo_codec" "cd_loads demo_codec" "12 \<in> set (cd_bandwidths demo_codec)"
    "sf_open_write demo_scrub_host ''c.wav'' = Inr ()" "[''t.wav'' \<mapsto> WavFile demo_wav] ''t.wav'' = Some (WavFile demo_wav)"
    "wav_ok demo_wav" "wav_channels demo_wav \<in> {1, 2}"
    using py_ext_suffix [of "CHR ''c''" "[]" "''wav''" "[]"]
    by (simp_all add: transparent_def demo_codec_def demo_scrub_host_def demo_wav_def wav_ok_def frames_ok_def
        sf_open_write_wav)
  from neural_scrub_transparent [where fs = "[''t.wav'' \<mapsto> WavFile demo_wav]" and inp = "''t.wav''", OF hyps]
  show ?thesis
    by (simp add: demo_codec_def demo_wav_def)
qed

end
