(* ===== verification/Cli.thy ===== *)
theory Cli
  imports Paths Capture Scrub
begin

text \<open>
  The command-line Batch Orchestrator, the \<open>__main__\<close> block of
  \<open>src/audio_scrubber.py\<close> (lines 75--106) with its configuration (lines 14--17). The
  argument list, or when it is empty the result of \<open>glob.glob("*.mp3")\<close>, is processed
  in order; an argument that does not end in \<open>.mp3\<close> (case-insensitively) is skipped.
  Each job re-records the file into its temporary path, then, when
  \<open>CODEC_BITRATE\<close> is non-zero, runs the neural scrub into the final path inside a
  \<open>try\<close> that removes the temporary file on success and renames it to the final path on
  failure (unless the final file exists); with a zero bitrate it renames directly. An
  exception outside that \<open>try\<close> (from \<open>rerecord\<close> or from a rename) is uncaught
  and ends the script. A job that never returns (theory \<open>Capture\<close>) makes the whole
  run \<open>None\<close>.
\<close>

text \<open>The machine of a batch run: the capture host and the codec model.\<close>

record batch_host = audio_host +
  bh_codec :: codec

text \<open>Lines 14 and 17: \<open>VIRTUAL_DEVICE = os.getenv("VIRTUAL_DEVICE", "default")\<close>
  and \<open>CODEC_BITRATE = 12.0\<close>.\<close>

record cli_config =
  virtual_device :: string
  codec_bitrate :: rat

definition cli_defaults :: "string option \<Rightarrow> cli_config" where
  "cli_defaults env_device =
     \<lparr>virtual_device = (case env_device of None \<Rightarrow> ''default'' | Some d \<Rightarrow> d), codec_bitrate = 12\<rparr>"

text \<open>How the script ends: \<open>sys.exit(n)\<close> or normal completion (\<open>Exit\<close>), or an
  uncaught exception (\<open>Crash\<close>, exit status 1 with a traceback).\<close>

datatype cli_exit = Exit nat | Crash error

text \<open>The process's exit status: the argument of \<open>sys.exit\<close> (line 84), 0 at the
  normal end, and 1, the status CPython exits with after an uncaught exception.\<close>

fun exit_status :: "cli_exit \<Rightarrow> nat" where
  "exit_status (Exit n) = n"
| "exit_status (Crash e) = 1"

text \<open>Lines 95--105: the neural stage of one job, from the state after the capture.\<close>

definition scrub_stage :: "batch_host \<Rightarrow> cli_config \<Rightarrow> fs \<Rightarrow> path \<Rightarrow> path \<Rightarrow> (error + unit) \<times> fs" where
  "scrub_stage h cfg fs temp final =
     (if codec_bitrate cfg \<noteq> 0 then
        (let body =
           (case neural_scrub h (bh_codec h) fs temp final (codec_bitrate cfg) of
              Inl e \<Rightarrow> Inl (e, fs)
            | Inr fs2 \<Rightarrow>
                if exists fs2 temp
                then (case os_remove fs2 temp of Inl e \<Rightarrow> Inl (e, fs2) | Inr fs3 \<Rightarrow> Inr fs3)
                else Inr fs2)
         in case body of
              Inr fs3 \<Rightarrow> (Inr (), fs3)
            | Inl (e, fs') \<Rightarrow>
                if \<not> exists fs' final
                then (case os_rename fs' temp final of Inl e' \<Rightarrow> (Inl e', fs') | Inr fs4 \<Rightarrow> (Inr (), fs4))
                else (Inr (), fs'))
      else (case os_rename fs temp final of Inl e \<Rightarrow> (Inl e, fs) | Inr fs4 \<Rightarrow> (Inr (), fs4)))"

text \<open>Lines 90--106: one selected file.\<close>

definition cli_job :: "batch_host \<Rightarrow> cli_config \<Rightarrow> fs \<Rightarrow> string \<Rightarrow> ((error + unit) \<times> fs) option" where
  "cli_job h cfg fs mp3 =
     (case rerecord h (virtual_device cfg) fs mp3 (cli_temp mp3) of
        None \<Rightarrow> None
      | Some (Inl e, fs1) \<Rightarrow> Some (Inl e, fs1)
      | Some (Inr u, fs1) \<Rightarrow> Some (scrub_stage h cfg fs1 (cli_temp mp3) (cli_final mp3)))"

text \<open>Lines 86--106: the loop over the files; the first uncaught exception ends it.\<close>

fun cli_loop :: "batch_host \<Rightarrow> cli_config \<Rightarrow> fs \<Rightarrow> string list \<Rightarrow> ((error + unit) \<times> fs) option" where
  "cli_loop h cfg fs [] = Some (Inr (), fs)"
| "cli_loop h cfg fs (mp3 # rest) =
     (if \<not> cli_selects mp3 then cli_loop h cfg fs rest
      else case cli_job h cfg fs mp3 of
        None \<Rightarrow> None
      | Some (Inl e, fs1) \<Rightarrow> Some (Inl e, fs1)
      | Some (Inr u, fs1) \<Rightarrow> cli_loop h cfg fs1 rest)"

text \<open>Lines 78--84 and the loop: the file list, the exit on an empty list.\<close>

definition cli_main ::
  "batch_host \<Rightarrow> cli_config \<Rightarrow> string list \<Rightarrow> string list \<Rightarrow> fs \<Rightarrow> (cli_exit \<times> fs) option"
where
  "cli_main h cfg argv globbed fs =
     (let files = (if argv = [] then globbed else argv) in
      if files = [] then Some (Exit 1, fs)
      else map_option (\<lambda>(r, fs'). (case r of Inl e \<Rightarrow> Crash e | Inr u \<Rightarrow> Exit 0, fs'))
             (cli_loop h cfg fs files))"

definition batch_host_ok :: "batch_host \<Rightarrow> bool" where
  "batch_host_ok h \<longleftrightarrow> audio_host_ok h \<and> codec_ok (bh_codec h)"

section \<open>Example configuration\<close>

text \<open>ffmpeg decodes an encoded source to one stereo frame and a well-formed stereo WAV
  file to its frames; the host combines it with the capture device and the codec of the
  earlier examples.\<close>

fun demo_decode :: "fcontent \<Rightarrow> frame list option" where
  "demo_decode (Encoded n) = Some [[0, 0]]"
| "demo_decode (WavFile w) = (if frames_ok 2 (wav_frames w) then Some (wav_frames w) else None)"
| "demo_decode (Transcoded e frs) = (if frames_ok 2 frs then Some frs else None)"

definition demo_batch_host :: batch_host where
  "demo_batch_host =
     \<lparr>ffmpeg_installed = True, ff_decode = demo_decode, pipe_capacity = 65536, decode_rate = 8,
      writable = (\<lambda>_. True), ff_muxes = (\<lambda>e. e \<in> set [''wav'', ''mp3'']),
      devices = (\<lambda>n. if n = ''default'' then Some demo_device else None), bh_codec = demo_codec\<rparr>"

definition demo_config :: "rat \<Rightarrow> cli_config" where
  "demo_config bw = \<lparr>virtual_device = ''default'', codec_bitrate = bw\<rparr>"

section \<open>Lemmas\<close>

lemma sf_open_write_selected:
  assumes "cli_selects f" and "\<not> py_contains ''.mp3'' f"
  shows "\<exists>e. sf_open_write h f = Inl e"
  using cli_selects_ext [OF assms(1)]
  by (auto simp: sf_open_write_def sf_formats_def sf_pcm24_formats_def py_lower_def)

lemma direct_convert_other:
  "direct_convert h fs src out = Inr fs' \<Longrightarrow> p \<noteq> out \<Longrightarrow> fs' p = fs p"
  by (auto dest!: direct_convert_Inr)

lemma rerecord_cases:
  assumes "rerecord h dev fs src out = Some (r, fs')"
  obtains (popen) e where "player_start h fs src = Inl e" "r = Inl e" "fs' = fs"
  | (capture) p fs1 where "player_start h fs src = Inr p" "capture_attempt h dev fs out p = Some (Inr (), fs1)"
      "r = Inr ()" "fs' = fs1"
  | (fallback) p e fs1 where "player_start h fs src = Inr p" "capture_attempt h dev fs out p = Some (Inl e, fs1)"
      "(r, fs') = (case direct_convert h fs1 src out of Inl e \<Rightarrow> (Inl e, fs1) | Inr fs2 \<Rightarrow> (Inr (), fs2))"
proof (cases "player_start h fs src")
  case (Inl e)
  show ?thesis by (rule popen [OF Inl]) (use assms Inl in \<open>simp_all add: rerecord_def\<close>)
next
  case (Inr p)
  with assms obtain r1 fs1 where att: "capture_attempt h dev fs out p = Some (r1, fs1)"
    by (auto simp: rerecord_def)
  show ?thesis
  proof (cases r1)
    case (Inl e)
    show ?thesis
      by (rule fallback [OF \<open>player_start h fs src = Inr p\<close> att [unfolded Inl]])
         (use assms \<open>player_start h fs src = Inr p\<close> att Inl in \<open>simp add: rerecord_def\<close>)
  next
    case (Inr u)
    then have "r1 = Inr ()" by (cases u) simp
    show ?thesis
      by (rule capture [OF \<open>player_start h fs src = Inr p\<close> att [unfolded \<open>r1 = Inr ()\<close>]])
         (use assms \<open>player_start h fs src = Inr p\<close> att Inr in \<open>simp_all add: rerecord_def\<close>)
  qed
qed

lemma rerecord_other:
  assumes "rerecord h dev fs src out = Some (r, fs')" and "p \<noteq> out"
  shows "fs' p = fs p"
  using assms(1)
proof (cases rule: rerecord_cases)
  case (capture q fs1)
  then show ?thesis using capture_attempt_other assms(2) by metis
next
  case (fallback q e fs1)
  have "fs1 p = fs p" using capture_attempt_other [OF fallback(2) assms(2)] .
  with fallback(3) assms(2) show ?thesis
    by (auto split: sum.splits dest: direct_convert_other)
qed simp

lemma rerecord_Inr_out:
  assumes "rerecord h dev fs src out = Some (Inr (), fs')"
  shows "fs' out \<noteq> None"
  using assms
proof (cases rule: rerecord_cases)
  case (capture p fs1)
  from capture(2) show ?thesis
  proof (cases rule: capture_attempt_Some)
    case (streams d x)
    with capture show ?thesis by simp
  qed (use capture in simp_all)
next
  case (fallback p e fs1)
  then show ?thesis by (auto split: sum.splits dest!: direct_convert_Inr)
qed simp

lemma neural_scrub_out:
  "neural_scrub h cd fs inp out bw = Inr fs' \<Longrightarrow> fs' out \<noteq> None"
  by (erule neural_scrub_Inr) simp

lemma scrub_stage_ok:
  assumes "batch_host_ok h" and "fs_ok fs" and "scrub_stage h cfg fs temp final = (r, fs')"
  shows "fs_ok fs'"
proof -
  have cd: "codec_ok (bh_codec h)" using assms(1) by (simp add: batch_host_ok_def)
  show ?thesis
  proof (cases "codec_bitrate cfg \<noteq> 0")
    case False
    with assms(2,3) show ?thesis
      by (auto simp: scrub_stage_def split: sum.splits intro: os_rename_ok)
  next
    case True
    show ?thesis
    proof (cases "neural_scrub h (bh_codec h) fs temp final (codec_bitrate cfg)")
      case (Inl e)
      with True assms(2,3) show ?thesis
        by (auto simp: scrub_stage_def split: sum.splits if_splits intro: os_rename_ok)
    next
      case (Inr fs2)
      have ok2: "fs_ok fs2" by (rule neural_scrub_keeps_ok [OF cd assms(2) Inr])
      with True Inr assms(3) show ?thesis
        by (auto simp: scrub_stage_def split: sum.splits if_splits intro: os_remove_ok)
    qed
  qed
qed

lemma cli_job_ok:
  assumes "batch_host_ok h" and "fs_ok fs" and "cli_job h cfg fs mp3 = Some (r, fs')"
  shows "fs_ok fs'"
proof -
  have ah: "audio_host_ok h" using assms(1) by (simp add: batch_host_ok_def)
  obtain r1 fs1 where rr: "rerecord h (virtual_device cfg) fs mp3 (cli_temp mp3) = Some (r1, fs1)"
    using assms(3) by (auto simp: cli_job_def split: option.splits)
  have ok1: "fs_ok fs1" by (rule rerecord_keeps_ok [OF ah assms(2) rr])
  show ?thesis
  proof (cases r1)
    case (Inl e)
    with rr assms(3) ok1 show ?thesis by (simp add: cli_job_def)
  next
    case (Inr u)
    with rr assms(3) have "scrub_stage h cfg fs1 (cli_temp mp3) (cli_final mp3) = (r, fs')"
      by (simp add: cli_job_def)
    then show ?thesis by (rule scrub_stage_ok [OF assms(1) ok1])
  qed
qed

lemma cli_loop_ok:
  "batch_host_ok h \<Longrightarrow> fs_ok fs \<Longrightarrow> cli_loop h cfg fs files = Some (r, fs') \<Longrightarrow> fs_ok fs'"
proof (induction files arbitrary: fs)
  case Nil then show ?case by simp
next
  case (Cons mp3 rest)
  show ?case
  proof (cases "cli_selects mp3")
    case False
    with Cons show ?thesis by simp
  next
    case True
    with Cons.prems(3) obtain r1 fs1 where job: "cli_job h cfg fs mp3 = Some (r1, fs1)"
      by (auto split: option.splits)
    have ok1: "fs_ok fs1" by (rule cli_job_ok [OF Cons.prems(1,2) job])
    show ?thesis
    proof (cases r1)
      case (Inl e)
      with True job Cons.prems(3) ok1 show ?thesis by simp
    next
      case (Inr u)
      with True job Cons.prems(3) have "cli_loop h cfg fs1 rest = Some (r, fs')" by simp
      with Cons.IH [OF Cons.prems(1) ok1] show ?thesis by simp
    qed
  qed
qed

subsection \<open>The example runs\<close>

lemma demo_decode_ok: "demo_decode f = Some frs \<Longrightarrow> frames_ok 2 frs"
  by (cases f) (auto simp: frames_ok_def split: if_splits)

lemma demo_batch_host_ok: "batch_host_ok demo_batch_host"
proof -
  have "host_ok demo_batch_host"
    using demo_decode_ok by (auto simp: host_ok_def demo_batch_host_def)
  then show ?thesis
    by (auto simp: batch_host_ok_def audio_host_ok_def device_ok_def demo_batch_host_def
        demo_device_def codec_ok_def demo_codec_def rectangular_def frames_ok_def)
qed

lemma demo_codec_of [simp]: "bh_codec demo_batch_host = demo_codec"
  by (simp add: demo_batch_host_def)

lemma demo_paths [simp]:
  "cli_temp ''a.mp3'' = ''a_rerecord.wav''" "cli_final ''a.mp3'' = ''a_clean.wav''"
  "cli_temp ''missing.mp3'' = ''missing_rerecord.wav''"
  by (simp_all add: cli_temp_def cli_final_def py_replace_def replace_nonempty.simps)

lemma demo_rerecord:
  "rerecord (demo_batch_host) ''default'' [''a.mp3'' \<mapsto> Encoded 0] ''a.mp3'' ''a_rerecord.wav''
   = Some (Inr (), [''a.mp3'' \<mapsto> Encoded 0, ''a_rerecord.wav'' \<mapsto> WavFile (fallback_wav [[0, 0]])])"
  by (simp add: model_simps demo_batch_host_def demo_device_def)

lemma demo_scrub:
  "neural_scrub (demo_batch_host) demo_codec
     [''a.mp3'' \<mapsto> Encoded 0, ''a_rerecord.wav'' \<mapsto> WavFile (fallback_wav [[0, 0]])]
     ''a_rerecord.wav'' ''a_clean.wav'' 12
   = Inr [''a.mp3'' \<mapsto> Encoded 0, ''a_rerecord.wav'' \<mapsto> WavFile (fallback_wav [[0, 0]]),
          ''a_clean.wav'' \<mapsto> WavFile \<lparr>wav_rate = 48000, wav_channels = 2, wav_subtype = PCM_24,
                                   wav_frames = [[0, 0]]\<rparr>]"
  by (simp add: model_simps demo_batch_host_def demo_codec_def fallback_wav_def upt_conv_Cons
      numeral_2_eq_2)

lemma demo_scrub_rejected:
  "neural_scrub (demo_batch_host) demo_codec
     [''a.mp3'' \<mapsto> Encoded 0, ''a_rerecord.wav'' \<mapsto> WavFile (fallback_wav [[0, 0]])]
     ''a_rerecord.wav'' ''a_clean.wav'' (3 / 2) = Inl ValueError"
  by (simp add: neural_scrub_def demo_codec_def)

section \<open>Properties of the command-line batch\<close>

text \<open>C10. Every run of the batch keeps the file system well formed: each WAV file it
  leaves (captured, converted, scrubbed or renamed) has one sample per channel in every
  frame.\<close>

theorem cli_main_fs_ok:
  assumes "batch_host_ok h" and "fs_ok fs" and "cli_main h cfg argv globbed fs = Some (x, fs')"
  shows "fs_ok fs'"
  using assms
  by (auto simp: cli_main_def Let_def split: if_splits intro: cli_loop_ok)

theorem cli_main_fs_ok_witness:
  "fs_ok [''a.mp3'' \<mapsto> Encoded 0,
          ''a_clean.wav'' \<mapsto> WavFile \<lparr>wav_rate = 48000, wav_channels = 2, wav_subtype = PCM_24,
                                   wav_frames = [[0, 0]]\<rparr>]"
proof -
  have sel: "cli_selects ''a.mp3''" by code_simp
  have run: "cli_main (demo_batch_host) (demo_config 12) [''a.mp3''] [] [''a.mp3'' \<mapsto> Encoded 0]
    = Some (Exit 0, [''a.mp3'' \<mapsto> Encoded 0,
         ''a_clean.wav'' \<mapsto> WavFile \<lparr>wav_rate = 48000, wav_channels = 2, wav_subtype = PCM_24,
                                  wav_frames = [[0, 0]]\<rparr>])"
    by (simp add: cli_main_def cli_job_def scrub_stage_def demo_config_def demo_rerecord demo_scrub sel
        exists_def os_remove_def fun_upd_twist)
  have "fs_ok [''a.mp3'' \<mapsto> Encoded 0]" by (simp add: fs_ok_def)
  from cli_main_fs_ok [OF demo_batch_host_ok this run] show ?thesis .
qed

text \<open>C11. The exit status of the script is non-zero exactly when there is no file
  at all (no argument and no \<open>*.mp3\<close> match), in which case it exits with 1 and
  touches nothing, or when a job raised an uncaught exception (status 1). Arguments none
  of which ends in \<open>.mp3\<close> give status 0, and so does a batch whose jobs all failed in
  the neural stage.\<close>

theorem cli_main_exit_status:
  assumes "cli_main h cfg argv globbed fs = Some (x, fs')"
  shows "(exit_status x \<noteq> 0 \<longleftrightarrow> (argv = [] \<and> globbed = []) \<or> (\<exists>e. x = Crash e)) \<and>
    (argv = [] \<and> globbed = [] \<longrightarrow> x = Exit 1 \<and> fs' = fs)"
  using assms
  by (auto simp: cli_main_def Let_def split: if_splits sum.splits)

theorem cli_main_exit_status_witness:
  "cli_main demo_batch_host \<lparr>virtual_device = ''none'', codec_bitrate = 12\<rparr>
     [''missing.mp3''] [] [''b.mp3'' \<mapsto> Encoded 0]
   = Some (Crash CalledProcessError,
       [''b.mp3'' \<mapsto> Encoded 0, ''missing_rerecord.wav'' \<mapsto> WavFile (capture_wav [])])
   \<and> exit_status (Crash CalledProcessError) \<noteq> 0"
proof -
  have sel: "cli_selects ''missing.mp3''" by code_simp
  have run: "cli_main demo_batch_host \<lparr>virtual_device = ''none'', codec_bitrate = 12\<rparr>
     [''missing.mp3''] [] [''b.mp3'' \<mapsto> Encoded 0]
   = Some (Crash CalledProcessError,
       [''b.mp3'' \<mapsto> Encoded 0, ''missing_rerecord.wav'' \<mapsto> WavFile (capture_wav [])])"
    using sel by (simp add: cli_main_def cli_job_def model_simps demo_batch_host_def)
  from cli_main_exit_status [OF run] run show ?thesis by simp
qed

text \<open>C7. When the capture and the neural stage both succeed, the job leaves the final
  file and removes the temporary one (spec, section 8, first property).\<close>

theorem cli_job_success:
  assumes "py_contains ''.mp3'' mp3" and "codec_bitrate cfg \<noteq> 0"
    and rr: "rerecord h (virtual_device cfg) fs mp3 (cli_temp mp3) = Some (Inr (), fs1)"
    and ns: "neural_scrub h (bh_codec h) fs1 (cli_temp mp3) (cli_final mp3) (codec_bitrate cfg) = Inr fs2"
  shows "cli_job h cfg fs mp3 = Some (Inr (), fs2(cli_temp mp3 := None)) \<and> fs2 (cli_final mp3) \<noteq> None"
proof -
  have ne: "cli_temp mp3 \<noteq> cli_final mp3" using assms(1) by (simp add: cli_temp_eq_final_iff)
  have "fs2 (cli_temp mp3) = fs1 (cli_temp mp3)" using neural_scrub_other [OF ns ne] .
  with rerecord_Inr_out [OF rr] have "exists fs2 (cli_temp mp3)" by (simp add: exists_def)
  with assms(2) rr ns have "cli_job h cfg fs mp3 = Some (Inr (), fs2(cli_temp mp3 := None))"
    by (simp add: cli_job_def scrub_stage_def os_remove_def)
  with neural_scrub_out [OF ns] show ?thesis by simp
qed

theorem cli_job_success_witness:
  "cli_job (demo_batch_host) (demo_config 12) [''a.mp3'' \<mapsto> Encoded 0] ''a.mp3''
     = Some (Inr (), [''a.mp3'' \<mapsto> Encoded 0,
         ''a_clean.wav'' \<mapsto> WavFile \<lparr>wav_rate = 48000, wav_channels = 2, wav_subtype = PCM_24,
                                  wav_frames = [[0, 0]]\<rparr>])"
proof -
  have occ: "py_contains ''.mp3'' ''a.mp3''" by simp
  have bw: "codec_bitrate (demo_config 12) \<noteq> 0" by (simp add: demo_config_def)
  have rr: "rerecord (demo_batch_host) (virtual_device (demo_config 12)) [''a.mp3'' \<mapsto> Encoded 0]
      ''a.mp3'' (cli_temp ''a.mp3'')
    = Some (Inr (), [''a.mp3'' \<mapsto> Encoded 0, ''a_rerecord.wav'' \<mapsto> WavFile (fallback_wav [[0, 0]])])"
    by (simp add: demo_config_def demo_rerecord)
  have ns: "neural_scrub (demo_batch_host) (bh_codec (demo_batch_host))
      [''a.mp3'' \<mapsto> Encoded 0, ''a_rerecord.wav'' \<mapsto> WavFile (fallback_wav [[0, 0]])]
      (cli_temp ''a.mp3'') (cli_final ''a.mp3'') (codec_bitrate (demo_config 12))
    = Inr [''a.mp3'' \<mapsto> Encoded 0, ''a_rerecord.wav'' \<mapsto> WavFile (fallback_wav [[0, 0]]),
          ''a_clean.wav'' \<mapsto> WavFile \<lparr>wav_rate = 48000, wav_channels = 2, wav_subtype = PCM_24,
                                   wav_frames = [[0, 0]]\<rparr>]"
    by (simp add: demo_config_def demo_scrub)
  from cli_job_success [OF occ bw rr ns] show ?thesis by (simp add: fun_upd_twist)
qed

text \<open>C8. When the neural stage raises after a successful capture and there is no final
  file yet, the captured (or converted) file becomes the final file unchanged (spec,
  section 8, third property). A bitrate the model rejects, such as 1.5 for the 48 kHz
  model, takes this path.\<close>

theorem cli_job_scrub_fails:
  assumes "py_contains ''.mp3'' mp3" and "codec_bitrate cfg \<noteq> 0"
    and rr: "rerecord h (virtual_device cfg) fs mp3 (cli_temp mp3) = Some (Inr (), fs1)"
    and ns: "neural_scrub h (bh_codec h) fs1 (cli_temp mp3) (cli_final mp3) (codec_bitrate cfg) = Inl e"
    and nofinal: "fs1 (cli_final mp3) = None"
  shows "cli_job h cfg fs mp3 =
           Some (Inr (), (fs1(cli_temp mp3 := None))(cli_final mp3 := fs1 (cli_temp mp3)))
         \<and> fs1 (cli_temp mp3) \<noteq> None"
proof -
  obtain f where f: "fs1 (cli_temp mp3) = Some f" using rerecord_Inr_out [OF rr] by blast
  with assms(2) rr ns nofinal show ?thesis
    by (simp add: cli_job_def scrub_stage_def os_rename_def exists_def)
qed

theorem cli_job_scrub_fails_witness:
  "cli_job (demo_batch_host) (demo_config (3 / 2)) [''a.mp3'' \<mapsto> Encoded 0] ''a.mp3''
     = Some (Inr (), [''a.mp3'' \<mapsto> Encoded 0, ''a_clean.wav'' \<mapsto> WavFile (fallback_wav [[0, 0]])])"
proof -
  have occ: "py_contains ''.mp3'' ''a.mp3''" by simp
  have bw: "codec_bitrate (demo_config (3 / 2)) \<noteq> 0" by (simp add: demo_config_def)
  have rr: "rerecord (demo_batch_host) (virtual_device (demo_config (3 / 2))) [''a.mp3'' \<mapsto> Encoded 0]
      ''a.mp3'' (cli_temp ''a.mp3'')
    = Some (Inr (), [''a.mp3'' \<mapsto> Encoded 0, ''a_rerecord.wav'' \<mapsto> WavFile (fallback_wav [[0, 0]])])"
    by (simp add: demo_config_def demo_rerecord)
  have ns: "neural_scrub (demo_batch_host) (bh_codec (demo_batch_host))
      [''a.mp3'' \<mapsto> Encoded 0, ''a_rerecord.wav'' \<mapsto> WavFile (fallback_wav [[0, 0]])]
      (cli_temp ''a.mp3'') (cli_final ''a.mp3'') (codec_bitrate (demo_config (3 / 2))) = Inl ValueError"
    by (simp add: demo_config_def demo_scrub_rejected)
  have nf: "[''a.mp3'' \<mapsto> Encoded 0, ''a_rerecord.wav'' \<mapsto> WavFile (fallback_wav [[0, 0]])]
      (cli_final ''a.mp3'') = None" by simp
  from cli_job_scrub_fails [OF occ bw rr ns nf] show ?thesis by (auto simp: fun_eq_iff)
qed

text \<open>C9. With a zero bitrate the neural stage is skipped and the captured file is
  promoted to the final path unchanged (spec, section 8, scenario with bitrate 0).\<close>

theorem cli_job_no_bitrate:
  assumes "py_contains ''.mp3'' mp3" and "codec_bitrate cfg = 0"
    and rr: "rerecord h (virtual_device cfg) fs mp3 (cli_temp mp3) = Some (Inr (), fs1)"
  shows "cli_job h cfg fs mp3 =
           Some (Inr (), (fs1(cli_temp mp3 := None))(cli_final mp3 := fs1 (cli_temp mp3)))
         \<and> fs1 (cli_temp mp3) \<noteq> None"
proof -
  obtain f where f: "fs1 (cli_temp mp3) = Some f" using rerecord_Inr_out [OF rr] by blast
  with assms(2) rr show ?thesis
    by (simp add: cli_job_def scrub_stage_def os_rename_def)
qed

theorem cli_job_no_bitrate_witness:
  "cli_job (demo_batch_host) (demo_config 0) [''a.mp3'' \<mapsto> Encoded 0] ''a.mp3''
     = Some (Inr (), [''a.mp3'' \<mapsto> Encoded 0, ''a_clean.wav'' \<mapsto> WavFile (fallback_wav [[0, 0]])])"
proof -
  have occ: "py_contains ''.mp3'' ''a.mp3''" by simp
  have bw: "codec_bitrate (demo_config 0) = 0" by (simp add: demo_config_def)
  have rr: "rerecord (demo_batch_host) (virtual_device (demo_config 0)) [''a.mp3'' \<mapsto> Encoded 0]
      ''a.mp3'' (cli_temp ''a.mp3'')
    = Some (Inr (), [''a.mp3'' \<mapsto> Encoded 0, ''a_rerecord.wav'' \<mapsto> WavFile (fallback_wav [[0, 0]])])"
    by (simp add: demo_config_def demo_rerecord)
  from cli_job_no_bitrate [OF occ bw rr] show ?thesis by (simp add: fun_upd_twist)
qed

text \<open>C6. An exception of the fallback conversion (the source cannot be decoded after the
  capture failed) is not caught: the script ends with it and the remaining files are never
  processed. The spec classifies it as a failure of that job only.\<close>

theorem cli_main_crash:
  assumes "cli_selects mp3"
    and rr: "rerecord h (virtual_device cfg) fs mp3 (cli_temp mp3) = Some (Inl e, fs1)"
  shows "cli_main h cfg (mp3 # rest) globbed fs = Some (Crash e, fs1)"
  using assms by (simp add: cli_main_def cli_job_def)

theorem cli_main_crash_witness:
  "cli_main (demo_batch_host) \<lparr>virtual_device = ''none'', codec_bitrate = 12\<rparr>
     [''missing.mp3'', ''b.mp3''] [] [''b.mp3'' \<mapsto> Encoded 0]
   = Some (Crash CalledProcessError,
       [''b.mp3'' \<mapsto> Encoded 0, ''missing_rerecord.wav'' \<mapsto> WavFile (capture_wav [])])"
proof -
  have sel: "cli_selects ''missing.mp3''" by code_simp
  have rr: "rerecord (demo_batch_host) (virtual_device \<lparr>virtual_device = ''none'', codec_bitrate = 12\<rparr>)
      [''b.mp3'' \<mapsto> Encoded 0] ''missing.mp3'' (cli_temp ''missing.mp3'')
    = Some (Inl CalledProcessError, [''b.mp3'' \<mapsto> Encoded 0, ''missing_rerecord.wav'' \<mapsto> WavFile (capture_wav [])])"
    by (simp add: model_simps demo_batch_host_def)
  from cli_main_crash [OF sel rr] show ?thesis .
qed

text \<open>C5. For an argument such as \<open>take.MP3\<close>, selected by the case-insensitive
  filter but left unchanged by the case-sensitive \<open>str.replace\<close>, the temporary path
  is the source itself. \<open>sf.SoundFile\<close> refuses it (an \<open>.mp3\<close> extension has no
  24-bit PCM, no extension has no format) before creating anything, and the fallback
  ffmpeg refuses to convert a file onto itself, so the job raises
  \<open>CalledProcessError\<close> outside any \<open>try\<close> with the files untouched: the
  whole batch ends there, as for any uncaught exception of a job.\<close>

theorem cli_job_uppercase:
  assumes "ffmpeg_installed h" and "cli_selects f" and "\<not> py_contains ''.mp3'' f"
  shows "cli_job h cfg fs f = Some (Inl CalledProcessError, fs)"
proof -
  have paths: "cli_temp f = f" using assms(3) by (simp add: cli_temp_def py_replace_no_occ)
  obtain p where p: "player_start h fs f = Inr p" using assms(1) by (simp add: player_start_def)
  obtain e where e: "sf_open_write h f = Inl e" using sf_open_write_selected [OF assms(2,3)] by blast
  have "capture_attempt h (virtual_device cfg) fs f p = Some (Inl e, fs)"
    using e by (simp add: capture_attempt_def)
  with p direct_convert_in_place [OF assms(1)] paths show ?thesis
    by (simp add: cli_job_def rerecord_def)
qed

theorem cli_job_uppercase_witness:
  "cli_job demo_batch_host (demo_config 12) [''take.MP3'' \<mapsto> Encoded 0] ''take.MP3''
     = Some (Inl CalledProcessError, [''take.MP3'' \<mapsto> Encoded 0])"
proof -
  have i: "ffmpeg_installed demo_batch_host" by (simp add: demo_batch_host_def)
  have s: "cli_selects ''take.MP3''" by code_simp
  have n: "\<not> py_contains ''.mp3'' ''take.MP3''" by simp
  from cli_job_uppercase [OF i s n] show ?thesis .
qed

end
