(* ===== verification/Py_Float.thy ===== *)
theory Py_Float
  imports Scrubber_Prelude
begin

text \<open>
  Python's \<open>float(str)\<close> as the GUI applies it to the text of the bitrate combobox
  (\<open>src/audio_scrubber_gui.py\<close> line 46, \<open>set_target_bandwidth(float(bitrate))\<close>).
  The combobox offers \<open>1.5\<close>, \<open>3.0\<close>, \<open>6.0\<close>, \<open>12.0\<close> and
  \<open>24.0\<close> but is editable, so any text can reach \<open>float\<close>. The model follows the
  grammar of the Python documentation on ASCII text: surrounding white space is
  stripped, then an optional sign and either \<open>inf\<close>, \<open>infinity\<close> or \<open>nan\<close>
  (in any case), or a number: digit parts (digits with single underscores between them)
  before and after an optional decimal point, at least one of them present, and an
  optional exponent \<open>e\<close> or \<open>E\<close> with an optional sign and a digit part. Anything
  else is a \<open>ValueError\<close> (\<open>None\<close>). Finite values are exact rationals (the
  literals the program uses are exact binary fractions); infinities and NaN are one
  value \<open>NonFinite\<close>, which no bandwidth list contains. Non-ASCII digits and white
  space, which Python also accepts, are outside the model.
\<close>

datatype pyfloat = Finite rat | NonFinite

definition py_isdigit :: "char \<Rightarrow> bool" where
  "py_isdigit c \<longleftrightarrow> (48::nat) \<le> of_char c \<and> of_char c \<le> (57::nat)"

definition digits_value :: "string \<Rightarrow> nat" where
  "digits_value ds = foldl (\<lambda>n c. 10 * n + (of_char c - 48)) 0 ds"

text \<open>The ASCII characters \<open>str.isspace\<close> accepts: tab, line feed, vertical tab, form
  feed, carriage return, the four separators 28--31 and space.\<close>

definition py_isspace :: "char \<Rightarrow> bool" where
  "py_isspace c \<longleftrightarrow> of_char c \<in> {9, 10, 11, 12, 13, 28, 29, 30, 31, 32::nat}"

definition py_strip :: "string \<Rightarrow> string" where
  "py_strip s = rev (dropWhile py_isspace (rev (dropWhile py_isspace s)))"

fun no_double_underscore :: "string \<Rightarrow> bool" where
  "no_double_underscore (a # b # r) = (\<not> (a = CHR ''_'' \<and> b = CHR ''_'') \<and> no_double_underscore (b # r))"
| "no_double_underscore _ = True"

text \<open>\<open>digitpart ::= digit (["_"] digit)*\<close> and its value.\<close>

definition digitpart :: "string \<Rightarrow> bool" where
  "digitpart s \<longleftrightarrow> s \<noteq> [] \<and> py_isdigit (hd s) \<and> py_isdigit (last s) \<and>
     list_all (\<lambda>c. py_isdigit c \<or> c = CHR ''_'') s \<and> no_double_underscore s"

definition digitpart_value :: "string \<Rightarrow> nat" where
  "digitpart_value s = digits_value (filter py_isdigit s)"

text \<open>\<open>number ::= [digitpart] "." digitpart | digitpart ["."]\<close>.\<close>

definition py_number :: "string \<Rightarrow> rat option" where
  "py_number s =
     (let ip = takeWhile (\<lambda>c. c \<noteq> CHR ''.'') s; rest = dropWhile (\<lambda>c. c \<noteq> CHR ''.'') s in
      if rest = [] \<or> tl rest = [] then
        (if digitpart ip then Some (of_nat (digitpart_value ip)) else None)
      else
        (let fp = tl rest in
         if (ip = [] \<or> digitpart ip) \<and> digitpart fp
         then Some (of_nat (digitpart_value ip) + of_nat (digitpart_value fp) / 10 ^ length (filter py_isdigit fp))
         else None))"

text \<open>\<open>exponent ::= ("e" | "E") [sign] digitpart\<close>, as a power of ten.\<close>

definition py_exponent :: "string \<Rightarrow> int option" where
  "py_exponent s =
     (case s of
        [] \<Rightarrow> None
      | c # r \<Rightarrow>
          if c = CHR ''-'' then (if digitpart r then Some (- int (digitpart_value r)) else None)
          else if c = CHR ''+'' then (if digitpart r then Some (int (digitpart_value r)) else None)
          else if digitpart s then Some (int (digitpart_value s)) else None)"

definition scale10 :: "rat \<Rightarrow> int \<Rightarrow> rat" where
  "scale10 m e = (if 0 \<le> e then m * 10 ^ nat e else m / 10 ^ nat (- e))"

text \<open>\<open>floatnumber ::= number [exponent]\<close>, or an infinity or NaN.\<close>

definition py_absfloat :: "string \<Rightarrow> pyfloat option" where
  "py_absfloat s =
     (if map (\<lambda>c. if (65::nat) \<le> of_char c \<and> (of_char c :: nat) \<le> 90 then char_of (of_char c + (32::nat)) else c) s
           \<in> {''inf'', ''infinity'', ''nan''} then Some NonFinite
      else
        (let m = takeWhile (\<lambda>c. c \<noteq> CHR ''e'' \<and> c \<noteq> CHR ''E'') s;
             x = dropWhile (\<lambda>c. c \<noteq> CHR ''e'' \<and> c \<noteq> CHR ''E'') s in
         if x = [] then map_option Finite (py_number m)
         else (case (py_number m, py_exponent (tl x)) of
                 (Some v, Some e) \<Rightarrow> Some (Finite (scale10 v e))
               | _ \<Rightarrow> None)))"

fun pf_neg :: "pyfloat \<Rightarrow> pyfloat" where
  "pf_neg (Finite r) = Finite (- r)"
| "pf_neg NonFinite = NonFinite"

definition py_float :: "string \<Rightarrow> pyfloat option" where
  "py_float s =
     (case py_strip s of
        [] \<Rightarrow> None
      | c # r \<Rightarrow>
          if c = CHR ''-'' then map_option pf_neg (py_absfloat r)
          else if c = CHR ''+'' then py_absfloat r
          else py_absfloat (c # r))"

section \<open>Lemmas\<close>

lemma demo_py_float [simp]:
  "py_float ''12.0'' = Some (Finite 12)" "py_float ''1.5'' = Some (Finite (3 / 2))"
  by (simp_all add: py_float_def py_strip_def py_isspace_def py_absfloat_def py_number_def py_isdigit_def
      digitpart_def digitpart_value_def digits_value_def)

end
