(* ===== verification/Gui.thy ===== *)
theory Gui
  imports Cli Py_Float
begin

text \<open>
  The Tk front end, \<open>AudioScrubberApp\<close> of \<open>src/audio_scrubber_gui.py\<close>. Its
  state is the attributes the handlers and the worker thread share: \<open>self.files\<close>,
  \<open>self.processing\<close>, the start button's state, the progress bar's value, the
  status label's message, the device and bitrate combobox texts, and the file system. The button handlers
  (\<open>add_files\<close>, \<open>clear_files\<close>, \<open>start_processing\<close>) run on the Tk thread;
  \<open>process_loop\<close> runs on a separate thread, so the model interleaves handler
  events with steps of the worker.

  \<open>self.files\<close> is a reference to a Python list object: \<open>add_files\<close> appends to
  the object, \<open>clear_files\<close> rebinds the attribute to a fresh empty list, and the
  worker iterates the object it fetched when its loop started. The model therefore keeps
  a heap of list objects (addresses to lists), the address \<open>self.files\<close> refers to
  and the next free address. The worker's state records the list object it iterates,
  the index of the next element (Python's list iterator re-reads the length on every
  step, so appends to that object are seen), and the \<open>total\<close> it computed at the
  start.

  A worker step is one statement group of \<open>process_loop\<close>: reading the length,
  fetching the iterator, setting the progress and running \<open>rerecord\<close> (lines
  145--149), running \<open>neural_scrub\<close> and removing the temporary file (lines
  150--153), or finishing (lines 159--163). Every exception inside the loop body is
  caught and the loop continues (line 155--157). A \<open>rerecord\<close> that never returns
  leaves the worker \<open>Blocked\<close> for good. The GUI's copies of \<open>rerecord\<close> and
  \<open>neural_scrub\<close> (lines 16--62) differ from the CLI's only by the status
  messages they post and by \<open>float(bitrate)\<close>; they are defined over the CLI's
  stages (theories \<open>Capture\<close>, \<open>Scrub\<close>, \<open>Py_Float\<close>).
\<close>

section \<open>The GUI's copy of the stages\<close>

text \<open>The status label (line 106, \<open>self.status_var\<close>): the messages the code shows,
  with \<open>os.path.basename\<close> of the file they name.\<close>

datatype status =
    Ready
  | Rerecording string
  | LoopbackFailed
  | NeuralScrubbing string
  | ErrorProcessing string error
  | AllProcessed

text \<open>\<open>os.path.basename\<close> (POSIX): the part after the last slash.\<close>

definition py_basename :: "path \<Rightarrow> string" where
  "py_basename p = rev (takeWhile (\<lambda>c. c \<noteq> CHR ''/'') (rev p))"

text \<open>Lines 16--41, the GUI's \<open>rerecord\<close>: the command-line function with the device
  name as a parameter and a status callback. The result carries the status it shows last:
  \<open>Re-recording ...\<close> (line 17), replaced by \<open>Loopback failed ...\<close> when the capture
  attempt raises (line 40).\<close>

definition gui_rerecord ::
  "'a audio_host_scheme \<Rightarrow> fs \<Rightarrow> path \<Rightarrow> path \<Rightarrow> string \<Rightarrow> ((error + unit) \<times> fs \<times> status) option"
where
  "gui_rerecord h fs input_mp3 output_wav device_name =
     (let st = Rerecording (py_basename input_mp3) in
      case player_start h fs input_mp3 of
        Inl e \<Rightarrow> Some (Inl e, fs, st)
      | Inr p \<Rightarrow>
          map_option
            (\<lambda>(r, fs'). case r of
                Inr u \<Rightarrow> (Inr u, fs', st)
              | Inl _ \<Rightarrow>
                  (case direct_convert h fs' input_mp3 output_wav of
                     Inl e \<Rightarrow> (Inl e, fs', LoopbackFailed)
                   | Inr fs'' \<Rightarrow> (Inr (), fs'', LoopbackFailed)))
            (capture_attempt h device_name fs output_wav p))"

text \<open>Lines 43--62 are \<open>neural_scrub\<close> with \<open>set_target_bandwidth(float(bitrate))\<close>:
  the model is loaded first, then the text converted; an infinity or NaN is not among the
  model's bandwidths, so \<open>set_target_bandwidth\<close> raises \<open>ValueError\<close>.\<close>

definition gui_neural_scrub :: "'a host_scheme \<Rightarrow> codec \<Rightarrow> fs \<Rightarrow> path \<Rightarrow> path \<Rightarrow> string \<Rightarrow> error + fs" where
  "gui_neural_scrub h cd fs inp out bitrate =
     (if \<not> cd_loads cd then Inl RuntimeError
      else case py_float bitrate of
        None \<Rightarrow> Inl ValueError
      | Some (Finite bw) \<Rightarrow> neural_scrub h cd fs inp out bw
      | Some NonFinite \<Rightarrow> Inl ValueError)"

section \<open>The application state\<close>

text \<open>Where the worker thread is. \<open>Looping a i total\<close>: at the head of the
  \<open>for\<close> loop over the list object \<open>a\<close>, about to fetch element \<open>i\<close>;
  \<open>Recorded a i total temp final\<close>: \<open>rerecord\<close> of element \<open>i\<close> returned,
  \<open>neural_scrub\<close> is next; \<open>Blocked a i total\<close>: \<open>rerecord\<close> of element
  \<open>i\<close> never returns.\<close>

datatype wstate =
    Idle
  | Spawned
  | Counted nat
  | Looping nat nat nat
  | Recorded nat nat nat path path
  | Blocked nat nat nat

record app =
  heap :: "nat \<Rightarrow> path list"
  files_ref :: nat
  next_ref :: nat
  processing :: bool
  btn_enabled :: bool
  progress :: rat
  status_var :: status
  device_var :: string
  bitrate_var :: string
  worker :: wstate
  app_fs :: fs

text \<open>\<open>__init__\<close> and \<open>setup_ui\<close> (lines 67--113): an empty list, not processing, the
  button enabled, progress 0, status \<open>Ready\<close>, device \<open>default\<close>, bitrate
  \<open>12.0\<close>.\<close>

definition app_init :: "fs \<Rightarrow> app" where
  "app_init fs =
     \<lparr>heap = (\<lambda>_. []), files_ref = 0, next_ref = 1, processing = False, btn_enabled = True,
      progress = 0, status_var = Ready, device_var = ''default'', bitrate_var = ''12.0'', worker = Idle, app_fs = fs\<rparr>"

section \<open>The Tk handlers\<close>

text \<open>Lines 117--119: append each chosen file not already in the list.\<close>

definition append_new :: "path list \<Rightarrow> path list \<Rightarrow> path list" where
  "append_new l fl = foldl (\<lambda>l f. if f \<in> set l then l else l @ [f]) l fl"

definition add_files :: "path list \<Rightarrow> app \<Rightarrow> app" where
  "add_files fl s = s\<lparr>heap := (heap s)(files_ref s := append_new (heap s (files_ref s)) fl)\<rparr>"

text \<open>Line 123: \<open>self.files = []\<close> binds a new list object.\<close>

definition clear_files :: "app \<Rightarrow> app" where
  "clear_files s = s\<lparr>heap := (heap s)(next_ref s := []), files_ref := next_ref s, next_ref := Suc (next_ref s)\<rparr>"

text \<open>Lines 130--139: warn on an empty list, ignore a second start, otherwise set the
  flag, disable the button and start the thread.\<close>

definition start_processing :: "app \<Rightarrow> app" where
  "start_processing s =
     (if heap s (files_ref s) = [] then s
      else if processing s then s
      else s\<lparr>processing := True, btn_enabled := False, worker := Spawned\<rparr>)"

datatype event = AddFiles "path list" | ClearFiles | StartProcessing | SetDevice string | SetBitrate string

text \<open>A disabled button delivers no click.\<close>

fun gui_event :: "event \<Rightarrow> app \<Rightarrow> app" where
  "gui_event (AddFiles fl) s = add_files fl s"
| "gui_event ClearFiles s = clear_files s"
| "gui_event StartProcessing s = (if btn_enabled s then start_processing s else s)"
| "gui_event (SetDevice d) s = s\<lparr>device_var := d\<rparr>"
| "gui_event (SetBitrate b) s = s\<lparr>bitrate_var := b\<rparr>"

section \<open>The worker thread\<close>

text \<open>Lines 126--128, \<open>update_status\<close>: set the label's text.\<close>

definition update_status :: "status \<Rightarrow> app \<Rightarrow> app" where
  "update_status msg s = s\<lparr>status_var := msg\<rparr>"

text \<open>Lines 150--153: the neural stage and the removal of the temporary file, with the
  exception that escapes them and the file system they leave.\<close>

definition job_scrub :: "batch_host \<Rightarrow> string \<Rightarrow> fs \<Rightarrow> path \<Rightarrow> path \<Rightarrow> (error + unit) \<times> fs" where
  "job_scrub h bitrate fs temp final =
     (case gui_neural_scrub h (bh_codec h) fs temp final bitrate of
        Inl e \<Rightarrow> (Inl e, fs)
      | Inr fs2 \<Rightarrow>
          if exists fs2 temp
          then (case os_remove fs2 temp of Inl e \<Rightarrow> (Inl e, fs2) | Inr fs3 \<Rightarrow> (Inr (), fs3))
          else (Inr (), fs2))"

text \<open>One step of \<open>process_loop\<close> (lines 141--163). \<open>None\<close>: the worker takes no
  step (it is idle, or blocked in a \<open>rerecord\<close> that never returns). A zero
  \<open>total\<close> raises \<open>ZeroDivisionError\<close> at line 145. Every exception of the loop
  body is caught at line 155, shown as \<open>Error processing ...\<close>, and the loop
  continues.\<close>

definition worker_step :: "batch_host \<Rightarrow> app \<Rightarrow> app option" where
  "worker_step h s =
     (case worker s of
        Idle \<Rightarrow> None
      | Blocked a i tot \<Rightarrow> None
      | Spawned \<Rightarrow> Some (s\<lparr>worker := Counted (length (heap s (files_ref s)))\<rparr>)
      | Counted tot \<Rightarrow> Some (s\<lparr>worker := Looping (files_ref s) 0 tot\<rparr>)
      | Looping a i tot \<Rightarrow>
          if length (heap s a) \<le> i then
            Some ((update_status AllProcessed (s\<lparr>progress := 100\<rparr>))
                    \<lparr>processing := False, btn_enabled := True, worker := Idle\<rparr>)
          else if tot = 0 then
            Some ((update_status (ErrorProcessing (py_basename (heap s a ! i)) ZeroDivisionError) s)
                    \<lparr>worker := Looping a (Suc i) tot\<rparr>)
          else
            (let f = heap s a ! i; s1 = s\<lparr>progress := of_nat i / of_nat tot * 100\<rparr> in
             case gui_rerecord h (app_fs s) f (gui_temp f) (device_var s) of
               None \<Rightarrow> Some ((update_status (Rerecording (py_basename f)) s1)\<lparr>worker := Blocked a i tot\<rparr>)
             | Some (Inl e, fs1, st) \<Rightarrow>
                 Some ((update_status (ErrorProcessing (py_basename f) e) s1)
                         \<lparr>app_fs := fs1, worker := Looping a (Suc i) tot\<rparr>)
             | Some (Inr u, fs1, st) \<Rightarrow>
                 Some ((update_status st s1)
                         \<lparr>app_fs := fs1, worker := Recorded a i tot (gui_temp f) (gui_final f)\<rparr>))
      | Recorded a i tot temp final \<Rightarrow>
          (case job_scrub h (bitrate_var s) (app_fs s) temp final of
             (Inl e, fs') \<Rightarrow>
               Some ((update_status (ErrorProcessing (py_basename (heap s a ! i)) e) s)
                       \<lparr>app_fs := fs', worker := Looping a (Suc i) tot\<rparr>)
           | (Inr u, fs') \<Rightarrow>
               Some ((update_status (NeuralScrubbing (py_basename temp)) s)
                       \<lparr>app_fs := fs', worker := Looping a (Suc i) tot\<rparr>)))"

section \<open>Interleaving\<close>

text \<open>A step of the application is a handler event on the Tk thread or a step of the
  worker thread.\<close>

inductive gui_step :: "batch_host \<Rightarrow> app \<Rightarrow> app \<Rightarrow> bool" for h where
  event: "gui_step h s (gui_event e s)"
| work: "worker_step h s = Some s' \<Longrightarrow> gui_step h s s'"

text \<open>A schedule: a sequence of events and worker steps, run from a state; \<open>None\<close> when
  a scheduled worker step is not possible.\<close>

datatype gui_op = Ev event | Work

fun run_ops :: "batch_host \<Rightarrow> gui_op list \<Rightarrow> app \<Rightarrow> app option" where
  "run_ops h [] s = Some s"
| "run_ops h (Ev e # ops) s = run_ops h ops (gui_event e s)"
| "run_ops h (Work # ops) s = (case worker_step h s of None \<Rightarrow> None | Some s' \<Rightarrow> run_ops h ops s')"

section \<open>The invariant\<close>

text \<open>The worker runs exactly while \<open>processing\<close> is set, the button is enabled
  exactly when it is not, every list object the state refers to is allocated, and no
  list holds a path twice.\<close>

fun wref_ok :: "nat \<Rightarrow> wstate \<Rightarrow> bool" where
  "wref_ok n (Looping a i t) \<longleftrightarrow> a < n"
| "wref_ok n (Recorded a i t temp final) \<longleftrightarrow> a < n"
| "wref_ok n (Blocked a i t) \<longleftrightarrow> a < n"
| "wref_ok n _ \<longleftrightarrow> True"

definition gui_inv :: "app \<Rightarrow> bool" where
  "gui_inv s \<longleftrightarrow>
     (processing s \<longleftrightarrow> worker s \<noteq> Idle) \<and> (btn_enabled s \<longleftrightarrow> \<not> processing s) \<and>
     files_ref s < next_ref s \<and> wref_ok (next_ref s) (worker s) \<and> (\<forall>a. distinct (heap s a))"

text \<open>The worker thread running alone (no handler events) for at most \<open>n\<close> steps,
  stopping when it is idle; \<open>None\<close> when it blocks.\<close>

fun worker_run :: "batch_host \<Rightarrow> nat \<Rightarrow> app \<Rightarrow> app option" where
  "worker_run h 0 s = Some s"
| "worker_run h (Suc n) s =
     (if worker s = Idle then Some s
      else case worker_step h s of None \<Rightarrow> None | Some s' \<Rightarrow> worker_run h n s')"

text \<open>A machine on which \<open>rerecord\<close> cannot block: ffmpeg makes progress and every
  decoded source fits into the pipe.\<close>

definition pipe_fits :: "'a host_scheme \<Rightarrow> bool" where
  "pipe_fits h \<longleftrightarrow>
     0 < decode_rate h \<and> (\<forall>f frs. ff_decode h f = Some frs \<longrightarrow> bytes_per_frame * length frs \<le> pipe_capacity h)"

section \<open>Example configuration\<close>

text \<open>The host of the command-line examples, and a variant on which ffmpeg decodes
  every file to one frame, so that no capture can block.\<close>

definition demo_small_host :: batch_host where
  "demo_small_host = (demo_batch_host)\<lparr>ff_decode := (\<lambda>_. Some [[0, 0]])\<rparr>"

text \<open>The list object and total the worker is iterating, if any.\<close>

definition worker_list :: "wstate \<Rightarrow> (nat \<times> nat) option" where
  "worker_list w =
     (case w of
        Looping a i t \<Rightarrow> Some (a, t)
      | Recorded a i t tp fn \<Rightarrow> Some (a, t)
      | Blocked a i t \<Rightarrow> Some (a, t)
      | _ \<Rightarrow> None)"

text \<open>The progress bar's value is in \<open>[0, 100]\<close>, unless the list object being
  iterated has grown past the total read at the start.\<close>

definition progress_ok :: "app \<Rightarrow> bool" where
  "progress_ok s \<longleftrightarrow> 0 \<le> progress s \<and>
     (progress s \<le> 100 \<or> (\<exists>a t. worker_list (worker s) = Some (a, t) \<and> t < length (heap s a)))"

section \<open>Lemmas\<close>

declare update_status_def [simp]

lemma unit_result_neq_Inr [simp]: "(r \<noteq> Inr ()) \<longleftrightarrow> (\<exists>e. r = Inl e)" for r :: "'e + unit"
  by (cases r) auto

subsection \<open>The GUI's \<open>rerecord\<close>\<close>

lemma gui_rerecord_forget:
  "map_option (\<lambda>(r, fs', st). (r, fs')) (gui_rerecord h fs src out dev) = rerecord h dev fs src out"
proof (cases "player_start h fs src")
  case (Inl e)
  then show ?thesis by (simp add: gui_rerecord_def rerecord_def)
next
  case (Inr p)
  show ?thesis
  proof (cases "capture_attempt h dev fs out p")
    case None
    with Inr show ?thesis by (simp add: gui_rerecord_def rerecord_def)
  next
    case (Some x)
    obtain q fs1 where x: "x = (q, fs1)" by (cases x)
    show ?thesis
      using Inr Some x by (cases q; cases "direct_convert h fs1 src out") (simp_all add: gui_rerecord_def rerecord_def)
  qed
qed

lemma gui_rerecord_Some:
  "gui_rerecord h fs src out dev = Some (r, fs', st) \<Longrightarrow> rerecord h dev fs src out = Some (r, fs')"
  using gui_rerecord_forget [of h fs src out dev] by simp

lemma gui_rerecord_None: "gui_rerecord h fs src out dev = None \<longleftrightarrow> rerecord h dev fs src out = None"
  unfolding gui_rerecord_forget [symmetric] by simp

lemma rerecord_gui_rerecord:
  "rerecord h dev fs src out = Some (r, fs') \<Longrightarrow> \<exists>st. gui_rerecord h fs src out dev = Some (r, fs', st)"
  using gui_rerecord_forget [of h fs src out dev] by (cases "gui_rerecord h fs src out dev") auto

lemma gui_rerecord_status:
  "gui_rerecord h fs src out dev = Some (r, fs', st) \<Longrightarrow> st = Rerecording (py_basename src) \<or> st = LoopbackFailed"
  by (auto simp: gui_rerecord_def Let_def split: sum.splits option.splits if_splits)

subsection \<open>The status label\<close>

lemma gui_event_status [simp]: "status_var (gui_event e s) = status_var s"
  by (cases e) (simp_all add: add_files_def clear_files_def start_processing_def)

lemma gui_event_Idle: "worker (gui_event e s) = Idle \<Longrightarrow> worker s = Idle"
  by (cases e) (auto simp: add_files_def clear_files_def start_processing_def split: if_splits)

lemma worker_step_Idle: "worker_step h s = Some s' \<Longrightarrow> worker s' = Idle \<Longrightarrow> status_var s' = AllProcessed"
  by (auto simp: worker_step_def Let_def split: wstate.splits if_splits option.splits prod.splits sum.splits)

subsection \<open>The invariant\<close>

lemma distinct_append_new: "distinct l \<Longrightarrow> distinct (append_new l fl)"
  unfolding append_new_def by (induction fl arbitrary: l) auto

lemma set_append_new [simp]: "set (append_new l fl) = set l \<union> set fl"
  unfolding append_new_def by (induction fl arbitrary: l) auto

lemma gui_inv_init: "gui_inv (app_init fs)"
  by (simp add: gui_inv_def app_init_def)

lemma gui_event_inv:
  assumes "gui_inv s" shows "gui_inv (gui_event e s)"
proof (cases e)
  case (AddFiles fl)
  with assms show ?thesis by (auto simp: gui_inv_def add_files_def distinct_append_new)
next
  case ClearFiles
  moreover have "wref_ok n w \<Longrightarrow> wref_ok (Suc n) w" for n w
    by (cases w) auto
  ultimately show ?thesis using assms by (auto simp: gui_inv_def clear_files_def)
qed (use assms in \<open>auto simp: gui_inv_def start_processing_def\<close>)

lemma worker_step_inv: "gui_inv s \<Longrightarrow> worker_step h s = Some s' \<Longrightarrow> gui_inv s'"
  by (auto simp: worker_step_def gui_inv_def Let_def
      split: wstate.splits if_splits option.splits prod.splits sum.splits)

lemma gui_step_inv: "gui_step h s s' \<Longrightarrow> gui_inv s \<Longrightarrow> gui_inv s'"
  by (induction rule: gui_step.induct) (auto intro: gui_event_inv worker_step_inv)


lemma gui_event_fs [simp]: "app_fs (gui_event e s) = app_fs s"
  by (cases e) (simp_all add: add_files_def clear_files_def start_processing_def)

lemma job_scrub_ok:
  assumes "batch_host_ok h" and "fs_ok fs" and js: "job_scrub h b fs temp final = (r, fs')"
  shows "fs_ok fs'"
proof -
  have "fs_ok fs2" if "gui_neural_scrub h (bh_codec h) fs temp final b = Inr fs2" for fs2
    using that assms neural_scrub_keeps_ok [of "bh_codec h" fs h temp final _ fs2]
    by (auto simp: gui_neural_scrub_def batch_host_ok_def split: if_splits option.splits pyfloat.splits)
  with assms(2) js show ?thesis
    by (auto simp: job_scrub_def split: sum.splits if_splits intro: os_remove_ok)
qed

lemma worker_step_fs_ok:
  assumes "batch_host_ok h" and "fs_ok (app_fs s)" and "worker_step h s = Some s'"
  shows "fs_ok (app_fs s')"
proof -
  have ah: "audio_host_ok h" using assms(1) by (simp add: batch_host_ok_def)
  show ?thesis
    using assms(2,3) rerecord_keeps_ok [OF ah assms(2), OF gui_rerecord_Some] job_scrub_ok [OF assms(1,2)]
    by (auto simp: worker_step_def Let_def split: wstate.splits if_splits option.splits prod.splits sum.splits)
qed

lemma gui_step_fs_ok:
  "gui_step h s s' \<Longrightarrow> batch_host_ok h \<Longrightarrow> fs_ok (app_fs s) \<Longrightarrow> fs_ok (app_fs s')"
  by (induction rule: gui_step.induct) (auto intro: worker_step_fs_ok)

lemma run_ops_reach: "run_ops h ops s = Some s' \<Longrightarrow> (gui_step h)\<^sup>*\<^sup>* s s'"
proof (induction h ops s rule: run_ops.induct)
  case (2 h e ops s)
  then show ?case by (auto intro: converse_rtranclp_into_rtranclp gui_step.event)
next
  case (3 h ops s)
  then show ?case by (auto split: option.splits intro: converse_rtranclp_into_rtranclp gui_step.work)
qed simp

lemma clear_files_fields [simp]:
  "worker (clear_files s) = worker s" "device_var (clear_files s) = device_var s"
  "bitrate_var (clear_files s) = bitrate_var s" "app_fs (clear_files s) = app_fs s"
  "progress (clear_files s) = progress s" "status_var (clear_files s) = status_var s"
  "a < next_ref s \<Longrightarrow> heap (clear_files s) a = heap s a"
  by (simp_all add: clear_files_def)

lemma clear_files_upd:
  "clear_files (s\<lparr>worker := w\<rparr>) = (clear_files s)\<lparr>worker := w\<rparr>"
  "clear_files (s\<lparr>progress := x\<rparr>) = (clear_files s)\<lparr>progress := x\<rparr>"
  "clear_files (s\<lparr>app_fs := fs\<rparr>) = (clear_files s)\<lparr>app_fs := fs\<rparr>"
  "clear_files (s\<lparr>processing := b\<rparr>) = (clear_files s)\<lparr>processing := b\<rparr>"
  "clear_files (s\<lparr>btn_enabled := b\<rparr>) = (clear_files s)\<lparr>btn_enabled := b\<rparr>"
  "clear_files (s\<lparr>status_var := m\<rparr>) = (clear_files s)\<lparr>status_var := m\<rparr>"
  by (simp_all add: clear_files_def)

lemma gui_event_disabled:
  "\<not> btn_enabled s \<Longrightarrow>
   worker (gui_event e s) = worker s \<and> processing (gui_event e s) = processing s \<and>
   btn_enabled (gui_event e s) = btn_enabled s"
  by (cases e) (simp_all add: add_files_def clear_files_def)

subsection \<open>The progress bar\<close>

lemma length_append_new: "length l \<le> length (append_new l fl)"
proof (induction fl arbitrary: l)
  case (Cons f fl)
  have "length l \<le> length (if f \<in> set l then l else l @ [f])" by simp
  also have "\<dots> \<le> length (append_new (if f \<in> set l then l else l @ [f]) fl)" by (rule Cons.IH)
  finally show ?case by (simp add: append_new_def)
qed (simp add: append_new_def)

lemma progress_frac_le: "i < t \<Longrightarrow> of_nat i / of_nat t * 100 \<le> (100::rat)"
  by (simp add: divide_le_eq)

lemma worker_list_ref: "worker_list w = Some (a, t) \<Longrightarrow> wref_ok n w \<Longrightarrow> a < n"
  by (cases w) (auto simp: worker_list_def)

lemma gui_event_progress:
  assumes "gui_inv s" and "progress_ok s"
  shows "progress_ok (gui_event e s)"
proof (cases e)
  case (AddFiles fl)
  have "length (heap s a) \<le> length (heap (add_files fl s) a)" for a
    by (simp add: add_files_def length_append_new)
  moreover have "progress (add_files fl s) = progress s" "worker (add_files fl s) = worker s"
    by (simp_all add: add_files_def)
  ultimately show ?thesis using assms(2) unfolding AddFiles gui_event.simps progress_ok_def
    by (metis less_le_trans)
next
  case ClearFiles
  have "wref_ok (next_ref s) (worker s)" using assms(1) by (simp add: gui_inv_def)
  then have "worker_list (worker s) = Some (a, t) \<Longrightarrow> heap (clear_files s) a = heap s a" for a t
    by (simp add: worker_list_ref)
  with assms(2) ClearFiles show ?thesis by (auto simp: progress_ok_def)
next
  case StartProcessing
  have "worker s = Idle \<or> processing s" using assms(1) by (auto simp: gui_inv_def)
  with assms(2) StartProcessing show ?thesis
    by (auto simp: progress_ok_def start_processing_def worker_list_def)
qed (use assms(2) in \<open>simp_all add: progress_ok_def\<close>)

lemma worker_step_progress:
  assumes "progress_ok s" and "worker_step h s = Some s'"
  shows "progress_ok s'"
proof (cases "worker s")
  case (Looping a i t)
  show ?thesis
  proof (cases "length (heap s a) \<le> i \<or> t = 0")
    case True
    with assms Looping show ?thesis
      by (auto simp: worker_step_def progress_ok_def worker_list_def split: if_splits)
  next
    case False
    then have "of_nat i / of_nat t * 100 \<le> (100::rat) \<or> t < length (heap s a)"
      using progress_frac_le [of i t] by (cases "i < t") auto
    with assms Looping False show ?thesis
      by (auto simp: worker_step_def progress_ok_def worker_list_def Let_def
          split: if_splits option.splits prod.splits sum.splits)
  qed
qed (use assms in \<open>auto simp: worker_step_def progress_ok_def worker_list_def split: prod.splits sum.splits\<close>)

lemma gui_step_progress: "gui_step h s s' \<Longrightarrow> gui_inv s \<Longrightarrow> progress_ok s \<Longrightarrow> progress_ok s'"
  by (induction rule: gui_step.induct) (auto intro: gui_event_progress worker_step_progress)

subsection \<open>Schedules\<close>

lemma run_ops_append:
  "run_ops h (ops @ ops') s = Option.bind (run_ops h ops s) (run_ops h ops')"
  by (induction h ops s rule: run_ops.induct) (auto split: option.splits)

subsection \<open>The worker's progress\<close>

lemma rerecord_pipe_fits:
  assumes "pipe_fits h"
  shows "rerecord h dev fs src out \<noteq> None"
proof (cases "player_start h fs src")
  case (Inl e)
  then show ?thesis by (simp add: rerecord_def)
next
  case (Inr p)
  have "player_fits h p"
    by (rule player_start_fits [OF Inr]) (use assms in \<open>auto simp: pipe_fits_def\<close>)
  with assms have "capture_attempt h dev fs out p \<noteq> None"
    by (simp add: pipe_fits_def capture_attempt_fits)
  with Inr show ?thesis by (simp add: rerecord_def)
qed

lemma worker_step_heap:
  "worker_step h s = Some s' \<Longrightarrow> heap s' = heap s \<and> files_ref s' = files_ref s \<and> next_ref s' = next_ref s"
  by (auto simp: worker_step_def Let_def split: wstate.splits if_splits option.splits prod.splits sum.splits)

lemma worker_step_Looping_end:
  "worker s = Looping a i t \<Longrightarrow> length (heap s a) \<le> i \<Longrightarrow>
   worker_step h s = Some (s\<lparr>progress := 100, status_var := AllProcessed, processing := False,
     btn_enabled := True, worker := Idle\<rparr>)"
  by (simp add: worker_step_def)

lemma worker_step_Looping_next:
  assumes "worker s = Looping a i t" and "i < length (heap s a)" and "pipe_fits h"
  obtains s' where "worker_step h s = Some s'" and "heap s' = heap s"
    and "worker s' = Looping a (Suc i) t \<or> (\<exists>tp fn. worker s' = Recorded a i t tp fn)"
proof -
  obtain r fs1 st where rr: "gui_rerecord h (app_fs s) (heap s a ! i) (gui_temp (heap s a ! i)) (device_var s)
      = Some (r, fs1, st)"
  proof -
    have "gui_rerecord h (app_fs s) (heap s a ! i) (gui_temp (heap s a ! i)) (device_var s) \<noteq> None"
      using rerecord_pipe_fits [OF assms(3)] by (simp add: gui_rerecord_None)
    then show ?thesis using that by (metis not_None_eq prod_cases3)
  qed
  have "\<exists>s'. worker_step h s = Some s' \<and> heap s' = heap s \<and>
      (worker s' = Looping a (Suc i) t \<or> (\<exists>tp fn. worker s' = Recorded a i t tp fn))"
    using assms(1,2) rr by (cases r) (auto simp: worker_step_def Let_def)
  then show ?thesis using that by blast
qed

lemma worker_step_Recorded:
  "worker s = Recorded a i t tp fn \<Longrightarrow>
   \<exists>s'. worker_step h s = Some s' \<and> heap s' = heap s \<and> worker s' = Looping a (Suc i) t"
  by (simp add: worker_step_def split: prod.splits sum.splits)

lemma worker_run_idle: "worker s = Idle \<Longrightarrow> worker_run h n s = Some s"
  by (cases n) simp_all

lemma worker_run_step:
  "worker s \<noteq> Idle \<Longrightarrow> worker_step h s = Some s1 \<Longrightarrow> worker_run h (Suc n) s = worker_run h n s1"
  by simp

lemma worker_run_mono:
  "worker_run h n s = Some s' \<Longrightarrow> worker s' = Idle \<Longrightarrow> n \<le> m \<Longrightarrow> worker_run h m s = Some s'"
proof (induction h n s arbitrary: m rule: worker_run.induct)
  case (1 h s)
  then show ?case by (simp add: worker_run_idle)
next
  case (2 h n s)
  then obtain m' where m: "m = Suc m'" "n \<le> m'" by (cases m) auto
  show ?case using 2 m by (auto split: if_splits option.splits)
qed

lemma worker_run_Looping:
  assumes "pipe_fits h" and "worker s = Looping a i t"
  shows "\<exists>s'. worker_run h (2 * (length (heap s a) - i) + 1) s = Some s' \<and> worker s' = Idle \<and>
    \<not> processing s' \<and> btn_enabled s' \<and> progress s' = 100 \<and> heap s' = heap s"
  using assms(2)
proof (induction "length (heap s a) - i" arbitrary: s i)
  case 0
  then show ?case by (simp add: worker_step_Looping_end)
next
  case (Suc k)
  then have lt: "i < length (heap s a)" by arith
  obtain s1 where s1: "worker_step h s = Some s1" "heap s1 = heap s"
    and w1: "worker s1 = Looping a (Suc i) t \<or> (\<exists>tp fn. worker s1 = Recorded a i t tp fn)"
    using worker_step_Looping_next [OF Suc.prems lt assms(1)] by blast
  have k: "k = length (heap s1 a) - Suc i" using Suc.hyps(2) s1(2) by simp
  from w1 show ?case
  proof
    assume "worker s1 = Looping a (Suc i) t"
    from Suc.hyps(1) [OF k this] obtain s' where
      run: "worker_run h (2 * k + 1) s1 = Some s'" and s': "worker s' = Idle \<and> \<not> processing s' \<and>
        btn_enabled s' \<and> progress s' = 100 \<and> heap s' = heap s1" by (auto simp: k)
    have r1: "worker_run h (2 * k + 2) s1 = Some s'"
      using worker_run_mono [OF run, of "2 * k + 2"] s' by linarith
    have eq: "2 * (length (heap s a) - i) + 1 = Suc (2 * k + 2)" using Suc.hyps(2) by simp
    have ns: "worker s \<noteq> Idle" using Suc.prems by simp
    show ?thesis
      unfolding eq worker_run_step [OF ns s1(1)] using r1 s' s1(2) by auto
  next
    assume "\<exists>tp fn. worker s1 = Recorded a i t tp fn"
    then obtain s2 where s2: "worker_step h s1 = Some s2" "heap s2 = heap s1" "worker s2 = Looping a (Suc i) t"
      using worker_step_Recorded by blast
    have k2: "k = length (heap s2 a) - Suc i" using k s2(2) by simp
    from Suc.hyps(1) [OF k2 s2(3)] obtain s' where
      run: "worker_run h (2 * k + 1) s2 = Some s'" and s': "worker s' = Idle \<and> \<not> processing s' \<and>
        btn_enabled s' \<and> progress s' = 100 \<and> heap s' = heap s2" by (auto simp: k2)
    from \<open>\<exists>tp fn. worker s1 = Recorded a i t tp fn\<close> have ns1: "worker s1 \<noteq> Idle" by auto
    have eq: "2 * (length (heap s a) - i) + 1 = Suc (Suc (2 * k + 1))" using Suc.hyps(2) by simp
    have ns: "worker s \<noteq> Idle" using Suc.prems by simp
    show ?thesis
      unfolding eq worker_run_step [OF ns s1(1)] worker_run_step [OF ns1 s2(1)]
      using run s' s1(2) s2(2) by auto
  qed
qed

subsection \<open>The example runs\<close>

lemma demo_gui_paths [simp]:
  "gui_temp ''a.mp3'' = ''a_rerecord.wav''" "gui_final ''a.mp3'' = ''a_clean.wav''"
  by (simp_all add: gui_temp_def gui_final_def rsplit_dot_head_def)

lemma demo_codec_loads [simp]: "cd_loads demo_codec"
  by (simp add: demo_codec_def)

lemmas gui_run_simps = app_init_def add_files_def append_new_def start_processing_def clear_files_def
  worker_step_def Let_def job_scrub_def gui_neural_scrub_def exists_def os_remove_def fun_upd_twist
  py_basename_def

lemma demo_hang:
  "rerecord ((demo_batch_host)\<lparr>pipe_capacity := 4\<rparr>) ''default'' [''a.mp3'' \<mapsto> Encoded 0]
     ''a.mp3'' ''a_rerecord.wav'' = None"
proof -
  let ?h = "(demo_batch_host)\<lparr>pipe_capacity := 4\<rparr>"
  let ?p = "\<lparr>pl_pending = 8, pl_piped = 0, pl_exited = False\<rparr>"
  have "player_stuck ?h ?p" by (simp add: player_stuck_def player_total_def)
  then have "player_stuck ?h (cp_player \<lparr>cp_player = player_step ?h ?p, cp_reads = 0, cp_blocks = []\<rparr>)"
    by (simp add: player_step_stuck)
  moreover have "reads_succeed demo_device" by (simp add: reads_succeed_def demo_device_def)
  ultimately have "capture_loop ?h demo_device \<lparr>cp_player = player_step ?h ?p, cp_reads = 0, cp_blocks = []\<rparr> = None"
    by (rule capture_loop_stuck)
  then show ?thesis
    by (simp add: rerecord_def player_start_def capture_attempt_def capture_streams_def demo_batch_host_def
        bytes_per_frame_def sf_open_write_wav)
qed

lemma demo_gui_rerecord:
  "gui_rerecord (demo_batch_host) [''a.mp3'' \<mapsto> Encoded 0] ''a.mp3'' ''a_rerecord.wav'' ''default''
   = Some (Inr (), [''a.mp3'' \<mapsto> Encoded 0, ''a_rerecord.wav'' \<mapsto> WavFile (fallback_wav [[0, 0]])],
           LoopbackFailed)"
  by (simp add: gui_rerecord_def model_simps demo_batch_host_def demo_device_def)

lemma demo_gui_hang:
  "gui_rerecord ((demo_batch_host)\<lparr>pipe_capacity := 4\<rparr>) [''a.mp3'' \<mapsto> Encoded 0] ''a.mp3''
     ''a_rerecord.wav'' ''default'' = None"
  using demo_hang by (simp add: gui_rerecord_None)

lemma demo_gui_run:
  "\<exists>s. run_ops (demo_batch_host)
      [Ev (AddFiles [''a.mp3'']), Ev StartProcessing, Work, Work, Work, Work, Work]
      (app_init [''a.mp3'' \<mapsto> Encoded 0]) = Some s \<and> worker s = Idle \<and>
    app_fs s = [''a.mp3'' \<mapsto> Encoded 0,
      ''a_clean.wav'' \<mapsto> WavFile \<lparr>wav_rate = 48000, wav_channels = 2, wav_subtype = PCM_24,
                               wav_frames = [[0, 0]]\<rparr>]"
  by (simp add: gui_run_simps demo_gui_rerecord demo_scrub)

section \<open>Properties of the GUI\<close>

text \<open>C15. Once the worker thread is blocked in a \<open>rerecord\<close> that never returns (ffmpeg stuck on its unread pipe), it stays blocked in every later state: \<open>processing\<close> stays set, the start button stays disabled, no file is written again and the status label keeps its message (\<open>Re-recording <name>...\<close>), whatever the user does.\<close>

theorem gui_blocked_forever:
  assumes "(gui_step h)\<^sup>*\<^sup>* s s'" and "gui_inv s" and "worker s = Blocked a i t"
  shows "worker s' = Blocked a i t \<and> processing s' \<and> \<not> btn_enabled s' \<and> app_fs s' = app_fs s \<and>
    status_var s' = status_var s"
  using assms(1)
proof (induction rule: rtranclp_induct)
  case base
  then show ?case using assms(2,3) by (simp add: gui_inv_def)
next
  case (step s1 s2)
  from step.hyps(2) show ?case
  proof cases
    case (event e)
    then show ?thesis using step.IH gui_event_disabled [of s1 e] by simp
  next
    case work
    then show ?thesis using step.IH by (simp add: worker_step_def)
  qed
qed

theorem gui_blocked_forever_witness:
  "\<exists>s. run_ops ((demo_batch_host)\<lparr>pipe_capacity := 4\<rparr>)
      [Ev (AddFiles [''a.mp3'']), Ev StartProcessing, Work, Work, Work]
      (app_init [''a.mp3'' \<mapsto> Encoded 0]) = Some s \<and> worker s = Blocked 0 0 1 \<and>
    worker (gui_event StartProcessing s) = Blocked 0 0 1 \<and> processing (gui_event StartProcessing s)"
proof -
  obtain s where run: "run_ops ((demo_batch_host)\<lparr>pipe_capacity := 4\<rparr>)
      [Ev (AddFiles [''a.mp3'']), Ev StartProcessing, Work, Work, Work]
      (app_init [''a.mp3'' \<mapsto> Encoded 0]) = Some s" and inv: "gui_inv s" and w: "worker s = Blocked 0 0 1"
    by (simp add: gui_run_simps gui_inv_def demo_gui_hang)
  have "(gui_step ((demo_batch_host)\<lparr>pipe_capacity := 4\<rparr>))\<^sup>*\<^sup>* s (gui_event StartProcessing s)"
    by (rule r_into_rtranclp) (rule gui_step.event)
  from gui_blocked_forever [OF this inv w] run w show ?thesis by blast
qed

text \<open>C16. In the GUI, when the neural stage raises after a successful capture, the job ends with the temporary capture file still present and the final file not created: the file system is the one \<open>rerecord\<close> left. The spec requires the capture to be promoted to the final path.\<close>

theorem gui_scrub_fails_keeps_temp:
  assumes "worker s = Looping a i t" and "0 < t" and "i < length (heap s a)" and "f = heap s a ! i"
    and rr: "rerecord h (device_var s) (app_fs s) f (gui_temp f) = Some (Inr (), fs1)"
    and ns: "gui_neural_scrub h (bh_codec h) fs1 (gui_temp f) (gui_final f) (bitrate_var s) = Inl e"
  shows "\<exists>s2. Option.bind (worker_step h s) (worker_step h) = Some s2 \<and> app_fs s2 = fs1 \<and>
    fs1 (gui_temp f) \<noteq> None \<and> fs1 (gui_final f) = app_fs s (gui_final f) \<and> worker s2 = Looping a (Suc i) t"
proof -
  obtain st where rr': "gui_rerecord h (app_fs s) f (gui_temp f) (device_var s) = Some (Inr (), fs1, st)"
    using rerecord_gui_rerecord [OF rr] by blast
  have "fs1 (gui_temp f) \<noteq> None" using rerecord_Inr_out [OF rr] .
  moreover have "fs1 (gui_final f) = app_fs s (gui_final f)"
    using rerecord_other [OF rr] by (simp add: gui_temp_neq_final [symmetric])
  ultimately show ?thesis using assms(1-4) rr' ns
    by (simp add: worker_step_def Let_def job_scrub_def)
qed

theorem gui_scrub_fails_keeps_temp_witness:
  "\<exists>s s2. run_ops (demo_batch_host)
      [Ev (SetBitrate ''1.5''), Ev (AddFiles [''a.mp3'']), Ev StartProcessing, Work, Work]
      (app_init [''a.mp3'' \<mapsto> Encoded 0]) = Some s \<and>
    Option.bind (worker_step (demo_batch_host) s) (worker_step (demo_batch_host)) = Some s2 \<and>
    app_fs s2 = [''a.mp3'' \<mapsto> Encoded 0, ''a_rerecord.wav'' \<mapsto> WavFile (fallback_wav [[0, 0]])]"
proof -
  have "\<exists>s. run_ops (demo_batch_host)
      [Ev (SetBitrate ''1.5''), Ev (AddFiles [''a.mp3'']), Ev StartProcessing, Work, Work]
      (app_init [''a.mp3'' \<mapsto> Encoded 0]) = Some s \<and> worker s = Looping 0 0 1 \<and>
    heap s 0 = [''a.mp3''] \<and> device_var s = ''default'' \<and> bitrate_var s = ''1.5'' \<and>
    app_fs s = [''a.mp3'' \<mapsto> Encoded 0]"
    by (simp add: gui_run_simps)
  then obtain s where run: "run_ops (demo_batch_host)
      [Ev (SetBitrate ''1.5''), Ev (AddFiles [''a.mp3'']), Ev StartProcessing, Work, Work]
      (app_init [''a.mp3'' \<mapsto> Encoded 0]) = Some s" and w: "worker s = Looping 0 0 1"
    and hp: "heap s 0 = [''a.mp3'']" and st: "device_var s = ''default''" "bitrate_var s = ''1.5''"
    "app_fs s = [''a.mp3'' \<mapsto> Encoded 0]"
    by blast
  have f: "''a.mp3'' = heap s 0 ! 0" and lt: "0 < length (heap s 0)" using hp by simp_all
  have rr: "rerecord (demo_batch_host) (device_var s) (app_fs s) ''a.mp3'' (gui_temp ''a.mp3'')
    = Some (Inr (), [''a.mp3'' \<mapsto> Encoded 0, ''a_rerecord.wav'' \<mapsto> WavFile (fallback_wav [[0, 0]])])"
    using st by (simp add: demo_rerecord)
  have ns: "gui_neural_scrub (demo_batch_host) (bh_codec (demo_batch_host))
      [''a.mp3'' \<mapsto> Encoded 0, ''a_rerecord.wav'' \<mapsto> WavFile (fallback_wav [[0, 0]])]
      (gui_temp ''a.mp3'') (gui_final ''a.mp3'') (bitrate_var s) = Inl ValueError"
    using st by (simp add: gui_neural_scrub_def demo_scrub_rejected)
  obtain s2 where "Option.bind (worker_step (demo_batch_host) s) (worker_step (demo_batch_host)) = Some s2"
    and "app_fs s2 = [''a.mp3'' \<mapsto> Encoded 0, ''a_rerecord.wav'' \<mapsto> WavFile (fallback_wav [[0, 0]])]"
    using gui_scrub_fails_keeps_temp [OF w zero_less_one lt f rr ns] by blast
  with run show ?thesis by blast
qed

text \<open>C17. In every reachable state the progress value is non-negative, and it is at most 100 unless the list the worker iterates has grown past the total it read at the start.\<close>

theorem gui_progress_bounded:
  assumes "(gui_step h)\<^sup>*\<^sup>* (app_init fs) s"
  shows "0 \<le> progress s \<and>
    (progress s \<le> 100 \<or> (\<exists>a t. worker_list (worker s) = Some (a, t) \<and> t < length (heap s a)))"
proof -
  have "gui_inv s \<and> progress_ok s"
    using assms
  proof (induction rule: rtranclp_induct)
    case base
    show ?case by (simp add: gui_inv_init) (simp add: progress_ok_def app_init_def)
  next
    case (step s1 s2)
    then show ?case by (auto intro: gui_step_inv gui_step_progress)
  qed
  then show ?thesis by (simp add: progress_ok_def)
qed

theorem gui_progress_bounded_witness:
  "\<exists>s. run_ops (demo_batch_host) [Ev (AddFiles [''a.mp3'']), Ev StartProcessing, Work, Work, Work]
      (app_init [''a.mp3'' \<mapsto> Encoded 0]) = Some s \<and> 0 \<le> progress s \<and>
    (progress s \<le> 100 \<or> (\<exists>a t. worker_list (worker s) = Some (a, t) \<and> t < length (heap s a)))"
proof -
  have "\<exists>s. run_ops (demo_batch_host) [Ev (AddFiles [''a.mp3'']), Ev StartProcessing, Work, Work, Work]
      (app_init [''a.mp3'' \<mapsto> Encoded 0]) = Some s"
    by (simp add: gui_run_simps demo_gui_rerecord)
  then obtain s where run: "run_ops (demo_batch_host)
      [Ev (AddFiles [''a.mp3'']), Ev StartProcessing, Work, Work, Work]
      (app_init [''a.mp3'' \<mapsto> Encoded 0]) = Some s" by blast
  from gui_progress_bounded [OF run_ops_reach [OF run]] run show ?thesis by blast
qed

text \<open>C18. A worker that read a total of 0 never touches a file. This happens when the
  list is cleared after Start and before the worker counts it: the worker then iterates
  the new list, and every file added to it raises \<open>ZeroDivisionError\<close> at line 145,
  which the loop's \<open>except\<close> swallows. Whatever handler events interleave, every
  state until the worker finishes has the same file system and a worker still at total 0
  on the same list.\<close>

theorem gui_zero_total_skips:
  assumes "(\<lambda>x y. gui_step h x y \<and> worker x \<noteq> Idle)\<^sup>*\<^sup>* s s'" and "gui_inv s"
    and "worker s = Looping a i 0"
  shows "app_fs s' = app_fs s \<and> (worker s' = Idle \<or> (\<exists>j. worker s' = Looping a j 0))"
proof -
  have "app_fs s' = app_fs s \<and> (worker s' = Idle \<or> (\<exists>j. worker s' = Looping a j 0)) \<and> gui_inv s'"
    using assms(1)
  proof (induction rule: rtranclp_induct)
    case base
    then show ?case using assms(2,3) by blast
  next
    case (step s1 s2)
    then obtain j where w: "worker s1 = Looping a j 0" and fs: "app_fs s1 = app_fs s"
      and inv: "gui_inv s1" and st: "gui_step h s1 s2" by blast
    have "gui_inv s2" using gui_step_inv [OF st inv] .
    moreover from st have "app_fs s2 = app_fs s \<and> (worker s2 = Idle \<or> (\<exists>j. worker s2 = Looping a j 0))"
    proof cases
      case (event e)
      have "\<not> btn_enabled s1" using inv w by (simp add: gui_inv_def)
      with event w fs show ?thesis using gui_event_disabled [of s1 e] by simp
    next
      case work
      with w fs show ?thesis by (auto simp: worker_step_def split: if_splits)
    qed
    ultimately show ?case by blast
  qed
  then show ?thesis by blast
qed

theorem gui_zero_total_skips_witness:
  "\<exists>s s'. run_ops demo_batch_host
      [Ev (AddFiles [''a.mp3'']), Ev StartProcessing, Ev ClearFiles, Work, Work, Ev (AddFiles [''a.mp3''])]
      (app_init [''a.mp3'' \<mapsto> Encoded 0]) = Some s \<and> worker s = Looping 1 0 0 \<and>
    heap s (files_ref s) = [''a.mp3''] \<and>
    Option.bind (worker_step demo_batch_host s) (worker_step demo_batch_host) = Some s' \<and>
    worker s' = Idle \<and> app_fs s' = app_fs s"
proof -
  have "\<exists>s s1 s'. run_ops demo_batch_host
      [Ev (AddFiles [''a.mp3'']), Ev StartProcessing, Ev ClearFiles, Work, Work, Ev (AddFiles [''a.mp3''])]
      (app_init [''a.mp3'' \<mapsto> Encoded 0]) = Some s \<and> worker s = Looping 1 0 0 \<and>
      heap s (files_ref s) = [''a.mp3''] \<and> gui_inv s \<and>
      worker_step demo_batch_host s = Some s1 \<and> worker s1 = Looping 1 1 0 \<and>
      worker_step demo_batch_host s1 = Some s' \<and> worker s' = Idle"
    by (simp add: gui_run_simps gui_inv_def)
  then obtain s s1 s' where run: "run_ops demo_batch_host
      [Ev (AddFiles [''a.mp3'']), Ev StartProcessing, Ev ClearFiles, Work, Work, Ev (AddFiles [''a.mp3''])]
      (app_init [''a.mp3'' \<mapsto> Encoded 0]) = Some s" and w: "worker s = Looping 1 0 0"
    and hp: "heap s (files_ref s) = [''a.mp3'']" and inv: "gui_inv s"
    and ws1: "worker_step demo_batch_host s = Some s1" and w1: "worker s1 = Looping 1 1 0"
    and ws2: "worker_step demo_batch_host s1 = Some s'" and idle: "worker s' = Idle"
    by blast
  let ?R = "\<lambda>x y. gui_step demo_batch_host x y \<and> worker x \<noteq> Idle"
  have "?R\<^sup>*\<^sup>* s s1" by (rule r_into_rtranclp) (simp add: gui_step.work [OF ws1] w)
  then have "?R\<^sup>*\<^sup>* s s'" by (rule rtranclp.rtrancl_into_rtrancl) (simp add: gui_step.work [OF ws2] w1)
  from gui_zero_total_skips [OF this inv w] run w hp ws1 ws2 idle show ?thesis by auto
qed

text \<open>C19. Clearing the list while the worker iterates does not affect the worker: \<open>self.files = []\<close> binds a new list object, so every later worker step is the same as without the clear.\<close>

theorem gui_clear_keeps_worker:
  assumes "gui_inv s" and "worker s \<noteq> Spawned" and "\<forall>n. worker s \<noteq> Counted n"
  shows "worker_step h (clear_files s) = map_option clear_files (worker_step h s)"
proof (cases "worker s")
  case (Looping a i t)
  with assms(1) have "a < next_ref s" by (simp add: gui_inv_def)
  with Looping show ?thesis
    by (simp add: worker_step_def Let_def clear_files_upd split: option.split prod.split sum.split)
next
  case (Recorded a i t tp fn)
  with assms(1) have "a < next_ref s" by (simp add: gui_inv_def)
  with Recorded show ?thesis
    by (simp add: worker_step_def clear_files_upd split: prod.split sum.split)
qed (use assms(2,3) in \<open>simp_all add: worker_step_def\<close>)

theorem gui_clear_keeps_worker_witness:
  "\<exists>s. run_ops (demo_batch_host) [Ev (AddFiles [''a.mp3'']), Ev StartProcessing, Work, Work]
      (app_init [''a.mp3'' \<mapsto> Encoded 0]) = Some s \<and>
    worker_step (demo_batch_host) (clear_files s) = map_option clear_files (worker_step (demo_batch_host) s)"
proof -
  obtain s where run: "run_ops (demo_batch_host) [Ev (AddFiles [''a.mp3'']), Ev StartProcessing, Work, Work]
      (app_init [''a.mp3'' \<mapsto> Encoded 0]) = Some s" and inv: "gui_inv s" and w: "worker s = Looping 0 0 1"
    by (simp add: gui_run_simps gui_inv_def)
  from gui_clear_keeps_worker [OF inv] w run show ?thesis by simp
qed

text \<open>C20. Every reachable state of the GUI satisfies the invariant (the worker runs exactly while \<open>processing\<close> is set, the button is enabled exactly when it is not, list references are allocated, no list holds a path twice) and keeps every WAV file well formed.\<close>

theorem gui_reachable_ok:
  assumes "batch_host_ok h" and "fs_ok fs" and "(gui_step h)\<^sup>*\<^sup>* (app_init fs) s"
  shows "gui_inv s \<and> fs_ok (app_fs s)"
  using assms(3)
proof (induction rule: rtranclp_induct)
  case base
  have "app_fs (app_init fs) = fs" by (simp add: app_init_def)
  then show ?case using assms(2) gui_inv_init [of fs] by simp
next
  case (step s s')
  then show ?case using assms(1) by (auto intro: gui_step_inv gui_step_fs_ok)
qed

theorem gui_reachable_ok_witness:
  "\<exists>s. run_ops (demo_batch_host)
      [Ev (AddFiles [''a.mp3'']), Ev StartProcessing, Work, Work, Work, Work, Work]
      (app_init [''a.mp3'' \<mapsto> Encoded 0]) = Some s \<and> gui_inv s \<and> fs_ok (app_fs s)"
proof -
  obtain s where run: "run_ops (demo_batch_host)
      [Ev (AddFiles [''a.mp3'']), Ev StartProcessing, Work, Work, Work, Work, Work]
      (app_init [''a.mp3'' \<mapsto> Encoded 0]) = Some s"
    using demo_gui_run by blast
  have "fs_ok [''a.mp3'' \<mapsto> Encoded 0]" by (simp add: fs_ok_def)
  with gui_reachable_ok [OF demo_batch_host_ok this run_ops_reach [OF run]] run show ?thesis by blast
qed

text \<open>C21. On a machine where no capture can block, a started worker finishes on its own: after at most 2n + 3 steps (n the number of files) it is idle, \<open>processing\<close> is cleared, the button enabled and the progress 100.\<close>

theorem gui_worker_terminates:
  assumes "pipe_fits h" and "worker s = Spawned"
  shows "\<exists>s'. worker_run h (2 * length (heap s (files_ref s)) + 3) s = Some s' \<and> worker s' = Idle \<and>
    \<not> processing s' \<and> btn_enabled s' \<and> progress s' = 100"
proof -
  let ?n = "length (heap s (files_ref s))"
  define s1 where "s1 = s\<lparr>worker := Counted ?n\<rparr>"
  define s2 where "s2 = s1\<lparr>worker := Looping (files_ref s) 0 ?n\<rparr>"
  have st1: "worker_step h s = Some s1" using assms(2) by (simp add: worker_step_def s1_def)
  have st2: "worker_step h s1 = Some s2" by (simp add: worker_step_def s1_def s2_def)
  have w2: "worker s2 = Looping (files_ref s) 0 ?n" by (simp add: s2_def)
  obtain s' where run: "worker_run h (2 * (length (heap s2 (files_ref s)) - 0) + 1) s2 = Some s'"
    and s': "worker s' = Idle \<and> \<not> processing s' \<and> btn_enabled s' \<and> progress s' = 100"
    using worker_run_Looping [OF assms(1) w2] by blast
  have eq: "2 * ?n + 3 = Suc (Suc (2 * (length (heap s2 (files_ref s)) - 0) + 1))"
    by (simp add: s1_def s2_def)
  have ns: "worker s \<noteq> Idle" "worker s1 \<noteq> Idle" using assms(2) by (simp_all add: s1_def)
  show ?thesis
    unfolding eq worker_run_step [OF ns(1) st1] worker_run_step [OF ns(2) st2] using run s' by blast
qed

theorem gui_worker_terminates_witness:
  "\<exists>s s'. run_ops demo_small_host [Ev (AddFiles [''a.mp3'', ''b.mp3'']), Ev StartProcessing]
      (app_init [''a.mp3'' \<mapsto> Encoded 0]) = Some s \<and>
    worker_run demo_small_host 7 s = Some s' \<and> worker s' = Idle \<and> progress s' = 100"
proof -
  obtain s where run: "run_ops demo_small_host [Ev (AddFiles [''a.mp3'', ''b.mp3'']), Ev StartProcessing]
      (app_init [''a.mp3'' \<mapsto> Encoded 0]) = Some s" and w: "worker s = Spawned"
    and n: "length (heap s (files_ref s)) = 2"
    by (simp add: gui_run_simps)
  have "pipe_fits demo_small_host"
    by (simp add: pipe_fits_def demo_small_host_def demo_batch_host_def bytes_per_frame_def)
  from gui_worker_terminates [OF this w] n run show ?thesis by auto
qed

text \<open>The executable schedules and the interleaving semantics agree: a state is reachable
  by steps of the relation exactly when some sequence of events and worker steps leads to
  it. The example runs above are therefore runs of the step relation.\<close>

lemma gui_step_schedules: "(gui_step h)\<^sup>*\<^sup>* s s' \<longleftrightarrow> (\<exists>ops. run_ops h ops s = Some s')"
proof
  assume "(gui_step h)\<^sup>*\<^sup>* s s'"
  then show "\<exists>ops. run_ops h ops s = Some s'"
  proof (induction rule: rtranclp_induct)
    case base
    have "run_ops h [] s = Some s" by simp
    then show ?case by blast
  next
    case (step s1 s2)
    then obtain ops where ops: "run_ops h ops s = Some s1" by blast
    from step.hyps(2) show ?case
    proof cases
      case (event e)
      then have "run_ops h (ops @ [Ev e]) s = Some s2" by (simp add: run_ops_append ops)
      then show ?thesis by blast
    next
      case work
      then have "run_ops h (ops @ [Work]) s = Some s2" by (simp add: run_ops_append ops)
      then show ?thesis by blast
    qed
  qed
next
  assume "\<exists>ops. run_ops h ops s = Some s'"
  then show "(gui_step h)\<^sup>*\<^sup>* s s'" by (auto intro: run_ops_reach)
qed

text \<open>C22. With sounddevice's \<open>read\<close> the GUI's rerecord never keeps a capture: whenever
  it returns normally the label reads \<open>Loopback failed, falling back to direct
  conversion...\<close>, and it is left at \<open>Re-recording <name>...\<close> only when the call
  raised because ffmpeg is missing (before any file is written). The GUI therefore reports
  a loopback failure for every file it processes.\<close>

theorem gui_rerecord_reports_fallback:
  assumes "gui_rerecord h fs src out dev = Some (r, fs', st)"
  shows "(r = Inr () \<longrightarrow> st = LoopbackFailed) \<and>
    (st \<noteq> LoopbackFailed \<longrightarrow> r = Inl (FileNotFoundError ''ffmpeg'') \<and> fs' = fs)"
proof (cases "player_start h fs src")
  case (Inl e)
  then have "e = FileNotFoundError ''ffmpeg''" by (simp add: player_start_def split: if_splits)
  with Inl assms show ?thesis by (auto simp: gui_rerecord_def Let_def)
next
  case (Inr p)
  with assms obtain q fs1 where att: "capture_attempt h dev fs out p = Some (q, fs1)"
    by (auto simp: gui_rerecord_def Let_def)
  from capture_attempt_isl [OF att] obtain e where "q = Inl e" by (cases q) auto
  with Inr att assms have "st = LoopbackFailed"
    by (auto simp: gui_rerecord_def Let_def split: sum.splits)
  then show ?thesis by simp
qed

theorem gui_rerecord_reports_fallback_witness:
  "gui_rerecord demo_batch_host [''a.mp3'' \<mapsto> Encoded 0] ''a.mp3'' ''a_rerecord.wav'' ''default''
     = Some (Inr (), [''a.mp3'' \<mapsto> Encoded 0, ''a_rerecord.wav'' \<mapsto> WavFile (fallback_wav [[0, 0]])],
             LoopbackFailed) \<and> LoopbackFailed = LoopbackFailed"
  using gui_rerecord_reports_fallback [OF demo_gui_rerecord] demo_gui_rerecord by simp

text \<open>C23. Whenever the worker is idle, the status label reads \<open>Ready\<close> or
  \<open>All files processed!\<close>: a batch ends with the latter whatever its jobs' outcomes,
  so a job's \<open>Error processing ...\<close> message is overwritten (by the next file's
  message or by the final one) and no failure stays visible after the batch.\<close>

theorem gui_idle_status:
  assumes "(gui_step h)\<^sup>*\<^sup>* (app_init fs) s" and "worker s = Idle"
  shows "status_var s = Ready \<or> status_var s = AllProcessed"
  using assms
proof (induction arbitrary: rule: rtranclp_induct)
  case base
  then show ?case by (simp add: app_init_def)
next
  case (step s1 s2)
  from step.hyps(2) show ?case
  proof cases
    case (event e)
    then show ?thesis using step.IH step.prems gui_event_Idle [of e s1] by simp
  next
    case work
    then show ?thesis using step.prems worker_step_Idle by blast
  qed
qed

theorem gui_idle_status_witness:
  "\<exists>s1 s. run_ops (demo_batch_host)
      [Ev (SetBitrate ''1.5''), Ev (AddFiles [''a.mp3'']), Ev StartProcessing, Work, Work, Work, Work]
      (app_init [''a.mp3'' \<mapsto> Encoded 0]) = Some s1 \<and>
    status_var s1 = ErrorProcessing ''a.mp3'' ValueError \<and>
    worker_step (demo_batch_host) s1 = Some s \<and> worker s = Idle \<and> app_fs s ''a_clean.wav'' = None \<and>
    (status_var s = Ready \<or> status_var s = AllProcessed)"
proof -
  have demo_bh_codec: "bh_codec (demo_batch_host) = demo_codec" by (simp add: demo_batch_host_def)
  have "\<exists>s1 s. run_ops (demo_batch_host)
      [Ev (SetBitrate ''1.5''), Ev (AddFiles [''a.mp3'']), Ev StartProcessing, Work, Work, Work, Work]
      (app_init [''a.mp3'' \<mapsto> Encoded 0]) = Some s1 \<and>
    status_var s1 = ErrorProcessing ''a.mp3'' ValueError \<and>
    worker_step (demo_batch_host) s1 = Some s \<and> worker s = Idle \<and> app_fs s ''a_clean.wav'' = None"
    using demo_bh_codec by (simp add: gui_run_simps demo_gui_rerecord demo_codec_def neural_scrub_def)
  then obtain s1 s where run: "run_ops (demo_batch_host)
      [Ev (SetBitrate ''1.5''), Ev (AddFiles [''a.mp3'']), Ev StartProcessing, Work, Work, Work, Work]
      (app_init [''a.mp3'' \<mapsto> Encoded 0]) = Some s1"
    and st: "status_var s1 = ErrorProcessing ''a.mp3'' ValueError"
    and ws: "worker_step (demo_batch_host) s1 = Some s" and idle: "worker s = Idle"
    and nf: "app_fs s ''a_clean.wav'' = None" by blast
  have "(gui_step (demo_batch_host))\<^sup>*\<^sup>* (app_init [''a.mp3'' \<mapsto> Encoded 0]) s"
    using run_ops_reach [OF run] gui_step.work [OF ws] by (rule rtranclp.rtrancl_into_rtrancl)
  from gui_idle_status [OF this idle] run st ws idle nf show ?thesis by blast
qed

end
