(* ===== verification/Spec2Isabelle.thy ===== *)
theory Spec2Isabelle
  imports Paths Capture Scrub Cli Gui
begin

text \<open>
  Verification development of the audio scrubber: \<open>src/audio_scrubber.py\<close>, a
  command-line batch that re-records each MP3 through a loopback audio device and then
  passes the recording through the EnCodec neural codec, and
  \<open>src/audio_scrubber_gui.py\<close>, a Tk front end running the same two stages on a
  worker thread.

  \<^bold>\<open>Parts and theories.\<close>
  \<^item> \<open>Scrubber_Prelude\<close>: the shared vocabulary. Samples are \<open>int\<close>, a frame is a
    sample list, a WAV file is a record (rate, channels, subtype, frames), the file
    system is a map from paths to contents (\<open>Encoded\<close> compressed inputs,
    \<open>WavFile\<close>s, and \<open>Transcoded\<close> files ffmpeg wrote in another container),
    errors are a datatype of the exceptions the code raises, and \<open>os.path.exists\<close>,
    \<open>os.remove\<close>, \<open>os.rename\<close> are functions into \<open>error + fs\<close>.
    \<open>fs_ok\<close> (every WAV file has one sample per channel in every frame) is the
    file-system invariant.
  \<^item> \<open>Paths\<close>: the CLI's \<open>mp3.lower().endswith(".mp3")\<close> filter and its
    \<open>str.replace\<close> path derivation, the GUI's \<open>rsplit('.', 1)[0]\<close> derivation,
    with \<open>str.replace\<close>, \<open>lower\<close>, \<open>endswith\<close>, \<open>rsplit\<close> modelled on
    strings; the extension of a path as \<open>soundfile\<close> (\<open>os.path.splitext\<close>,
    \<open>py_ext\<close>) and ffmpeg (\<open>ff_ext\<close>) see it.
  \<^item> \<open>Decoder\<close>: the machine as a record \<open>host\<close> (ffmpeg present, what ffmpeg
    decodes a file to, the OS pipe capacity, ffmpeg's decoding rate, writable paths, the
    extensions ffmpeg has a muxer for); the ffmpeg producer of \<open>rerecord\<close>
    (\<open>Popen\<close> with stdout to a pipe nobody reads) as a record of pending and piped
    bytes with \<open>player_step\<close>; the fallback \<open>subprocess.run\<close> conversion as
    \<open>direct_convert\<close> (container from the extension, no in-place conversion); and
    \<open>soundfile\<close>'s format check when it opens a file for writing at 24 bits
    (\<open>sf_open_write\<close>).
  \<^item> \<open>Capture\<close>: \<open>rerecord\<close> (lines 20--42 of the CLI, 16--41 of the GUI) in
    full: \<open>Popen\<close> outside the \<open>try\<close>, the \<open>SoundFile\<close> and
    \<open>InputStream\<close> blocks, the settle delay as one producer step, the
    \<open>while player.poll() is None\<close> loop as \<open>capture_loop\<close>, a
    \<open>partial_function (option)\<close> whose value \<open>None\<close> is non-termination, the
    drain loop (\<open>drain\<close>, \<open>DRAIN_READS = 10\<close>), whose first
    \<open>read(1024, exception_on_overflow=False)\<close> raises \<open>TypeError\<close> on
    sounddevice's \<open>InputStream\<close>, and the \<open>except\<close> branch's fallback. The device
    is a function from read index to block or \<open>PortAudioError\<close>; a block carries the
    overflow flag \<open>stream.read\<close> returns.
  \<^item> \<open>Scrub\<close>: \<open>neural_scrub\<close> (lines 45--72): model load, bandwidth check,
    \<open>sf.read\<close>, the channels-first transpose, \<open>convert_audio\<close>, the codec's
    encode/decode round trip (a parameter of the \<open>codec\<close> record), the transpose back
    and \<open>sf.write\<close>.
  \<^item> \<open>Cli\<close>: the \<open>__main__\<close> block (lines 75--106): file selection and exit
    (\<open>cli_main\<close>, \<open>exit_status\<close>), the loop (\<open>cli_loop\<close>), one job
    (\<open>cli_job\<close>) and its neural stage with the \<open>try/except\<close>, \<open>exists\<close>,
    \<open>remove\<close> and \<open>rename\<close> logic (\<open>scrub_stage\<close>). An exception escaping a
    job ends the run (\<open>Crash\<close>, exit status 1).
  \<^item> \<open>Gui\<close>: \<open>AudioScrubberApp\<close>: its state as the record \<open>app\<close>, with
    \<open>self.files\<close> a reference into a heap of list objects so that
    \<open>clear_files\<close>' rebinding and the worker's iteration of the old object are
    explicit; the handlers \<open>add_files\<close>, \<open>clear_files\<close>,
    \<open>start_processing\<close>; \<open>process_loop\<close> as \<open>worker_step\<close>, one statement
    group per step; the interleaving of handler events and worker steps as the
    inductive relation \<open>gui_step\<close>, with \<open>run_ops\<close> executing a given schedule.
    The GUI's own copy of \<open>rerecord\<close> (lines 16--41) is \<open>gui_rerecord\<close>, which
    also returns the status message it leaves; the status label is the field
    \<open>status_var\<close> with the messages of lines 17, 40, 44, 156 and 160 as the
    datatype \<open>status\<close>, set by \<open>update_status\<close>.
  \<^item> \<open>Py_Float\<close>: \<open>float()\<close> on the bitrate text (GUI line 46) as \<open>py_float\<close>,
    following Python's grammar (digit parts with underscores, exponent, \<open>inf\<close> and
    \<open>nan\<close>).
  \<^item> This theory: the job contract of spec section 4.5 (\<open>spec_job_outcome\<close>,
    observed through \<open>job_view\<close>) and the properties that span components.

  \<^bold>\<open>What the lemmas show.\<close> The capture never returns when the decoded source is
  larger than the pipe, and always returns when it fits; the drain raises
  \<open>TypeError\<close>, so every normal return has written ffmpeg's conversion of the source
  and never the captured audio; the overflow flag of a read never changes the outcome
  (spec 4.2: overflow is not an error). For the CLI: the exit status (non-zero exactly
  for an empty file list or an uncaught exception), the success, failure and
  zero-bitrate paths of a job, the crash on a fallback failure, the crash on an
  upper-case \<open>.MP3\<close> argument (its temporary path is the source, which neither
  soundfile nor ffmpeg accepts), the file-system invariant over whole runs, the
  refinement of the job contract and the spec's unreachable-device scenario. For the
  GUI: the state invariant over every interleaving, the progress bound, the files a
  worker with total 0 skips, the independence of the worker from a clear, the blocked
  worker, the missing promotion after a neural failure, termination of the worker,
  agreement with the CLI job, the \<open>Loopback failed\<close> message for every processed file,
  and that an idle worker always leaves the label at \<open>Ready\<close> or \<open>All files
  processed!\<close>, so no job failure stays visible after a batch. For the neural stage:
  the transposes give the frames back with a transparent codec. For paths: the derived
  names, the rewriting of directory names and the unchanged upper-case paths.

  \<^bold>\<open>Bounds and fuel.\<close> Loops that may not end are \<open>partial_function (option)\<close>
  (\<open>capture_loop\<close>); non-termination is proved by fixpoint induction and termination
  by a measure on the producer (pending bytes plus one while running). The worker's
  termination is stated with the fuel \<open>2 n + 3\<close> (\<open>worker_run\<close>): two steps to
  read the length and the iterator, at most two per file, one to finish. The examples
  use a pipe of 65536 bytes (or 4 bytes, to block), a decoding rate of 8 bytes per block
  and a device returning block \<open>k\<close> as \<open>[[k, k]]\<close>.

  \<^bold>\<open>Not modelled.\<close> The libraries the code only calls are parameters or tables,
  not models: ffmpeg's decoder (\<open>ff_decode\<close>) and its muxer list (\<open>ff_muxes\<close>),
  PortAudio (\<open>devices\<close>), libsndfile beyond its format table and what
  \<open>sf.read\<close>/\<open>sf.write\<close> store (a file \<open>sf.read\<close> is given must be a WAV
  file; newer libsndfile versions also read other containers, which the program never
  hands it on its own paths), EnCodec's network and \<open>convert_audio\<close>'s resampler
  (fields of \<open>codec\<close>). Sample values are integers (the float32 stream and PCM
  quantisation are not modelled), and timing is a step count. The Tk widgets, dialogs
  and message boxes are presentation only (the status label's text is modelled, its
  rendering and \<open>update_idletasks\<close> are not); the files the dialog returns are an
  input of \<open>AddFiles\<close>. Tk calls made from the worker thread (progress, status,
  button state) are taken as atomic updates of the state. Strings are byte strings:
  \<open>lower\<close>, \<open>float\<close> and the extension matching are modelled on ASCII. The ffmpeg
  process left running after a failed capture is not modelled.
\<close>

section \<open>The job contract of the specification\<close>

text \<open>Spec section 4.5, seen from the files a job leaves: after a successful capture
  (or fallback conversion) to the temporary path, a zero bitrate promotes the captured
  file to the final path; a successful neural stage leaves its output as the final file
  and removes the temporary one; a failing neural stage promotes the captured file when
  no final file exists yet. The view of a file system is the pair (temporary file, final
  file).\<close>

definition spec_job_outcome ::
  "rat \<Rightarrow> fcontent \<Rightarrow> error + fcontent \<Rightarrow> fcontent option \<Rightarrow> fcontent option \<times> fcontent option"
where
  "spec_job_outcome bw captured scrub prior =
     (if bw = 0 then (None, Some captured)
      else case scrub of
        Inr out \<Rightarrow> (None, Some out)
      | Inl e \<Rightarrow> if prior = None then (None, Some captured) else (Some captured, prior))"

definition job_view :: "fs \<Rightarrow> path \<Rightarrow> path \<Rightarrow> fcontent option \<times> fcontent option" where
  "job_view fs temp final = (fs temp, fs final)"

text \<open>The neural stage's result as the contract sees it: the exception, or the content it
  wrote to the final path.\<close>

definition scrub_result :: "error + fs \<Rightarrow> path \<Rightarrow> error + fcontent" where
  "scrub_result r final = (case r of Inl e \<Rightarrow> Inl e | Inr fs2 \<Rightarrow> Inr (the (fs2 final)))"

section \<open>Properties across components\<close>

text \<open>C12. The command-line job refines the contract: whenever the capture stage returns
  normally for an argument containing \<open>.mp3\<close>, the job returns normally and the
  temporary and final files it leaves are the ones the contract prescribes for the
  bitrate, the captured file and the neural stage's result.\<close>

theorem cli_job_refines_spec:
  assumes occ: "py_contains ''.mp3'' f"
    and rr: "rerecord h (virtual_device cfg) fs f (cli_temp f) = Some (Inr (), fs1)"
    and cap: "fs1 (cli_temp f) = Some c"
  shows "\<exists>fs'. cli_job h cfg fs f = Some (Inr (), fs') \<and>
    job_view fs' (cli_temp f) (cli_final f) =
      spec_job_outcome (codec_bitrate cfg) c
        (scrub_result (neural_scrub h (bh_codec h) fs1 (cli_temp f) (cli_final f) (codec_bitrate cfg)) (cli_final f))
        (fs1 (cli_final f))"
proof -
  have neq: "cli_temp f \<noteq> cli_final f" using occ by (simp add: cli_temp_eq_final_iff)
  show ?thesis
  proof (cases "neural_scrub h (bh_codec h) fs1 (cli_temp f) (cli_final f) (codec_bitrate cfg)")
    case (Inl e)
    with rr cap neq show ?thesis
      by (auto simp: cli_job_def scrub_stage_def os_rename_def exists_def job_view_def
          spec_job_outcome_def scrub_result_def)
  next
    case (Inr fs2)
    have tmp: "fs2 (cli_temp f) = Some c" using neural_scrub_other [OF Inr neq] cap by simp
    obtain out where out: "fs2 (cli_final f) = Some out" using neural_scrub_out [OF Inr] by blast
    from Inr rr cap neq tmp out show ?thesis
      by (auto simp: cli_job_def scrub_stage_def os_rename_def os_remove_def exists_def job_view_def
          spec_job_outcome_def scrub_result_def)
  qed
qed

theorem cli_job_refines_spec_witness:
  "\<exists>fs'. cli_job (demo_batch_host) (demo_config 12) [''a.mp3'' \<mapsto> Encoded 0] ''a.mp3''
      = Some (Inr (), fs') \<and>
    job_view fs' ''a_rerecord.wav'' ''a_clean.wav'' =
      (None, Some (WavFile \<lparr>wav_rate = 48000, wav_channels = 2, wav_subtype = PCM_24, wav_frames = [[0, 0]]\<rparr>))"
proof -
  have occ: "py_contains ''.mp3'' ''a.mp3''" by simp
  have rr: "rerecord (demo_batch_host) (virtual_device (demo_config 12)) [''a.mp3'' \<mapsto> Encoded 0]
      ''a.mp3'' (cli_temp ''a.mp3'')
    = Some (Inr (), [''a.mp3'' \<mapsto> Encoded 0, ''a_rerecord.wav'' \<mapsto> WavFile (fallback_wav [[0, 0]])])"
    by (simp add: demo_config_def demo_rerecord)
  have cap: "[''a.mp3'' \<mapsto> Encoded 0, ''a_rerecord.wav'' \<mapsto> WavFile (fallback_wav [[0, 0]])]
      (cli_temp ''a.mp3'') = Some (WavFile (fallback_wav [[0, 0]]))" by simp
  have ns: "neural_scrub (demo_batch_host) (bh_codec (demo_batch_host))
      [''a.mp3'' \<mapsto> Encoded 0, ''a_rerecord.wav'' \<mapsto> WavFile (fallback_wav [[0, 0]])]
      (cli_temp ''a.mp3'') (cli_final ''a.mp3'') (codec_bitrate (demo_config 12))
    = Inr [''a.mp3'' \<mapsto> Encoded 0, ''a_rerecord.wav'' \<mapsto> WavFile (fallback_wav [[0, 0]]),
          ''a_clean.wav'' \<mapsto> WavFile \<lparr>wav_rate = 48000, wav_channels = 2, wav_subtype = PCM_24,
                                   wav_frames = [[0, 0]]\<rparr>]"
    by (simp add: demo_config_def demo_scrub)
  show ?thesis
    using cli_job_refines_spec [OF occ rr cap, unfolded ns]
    by (simp add: demo_config_def spec_job_outcome_def scrub_result_def)
qed

text \<open>C13. When the neural stage succeeds, the GUI's handling of a file (two worker steps:
  capture, then scrub and removal) leaves the same file system as the command-line job
  for the same file, provided both derive the same paths and use the same device and
  bitrate.\<close>

theorem gui_job_eq_cli_job:
  assumes w: "worker s = Looping a i t" and "0 < t" and "i < length (heap s a)" and f: "f = heap s a ! i"
    and paths: "gui_temp f = cli_temp f" "gui_final f = cli_final f"
    and cfg: "device_var s = virtual_device cfg" "py_float (bitrate_var s) = Some (Finite (codec_bitrate cfg))"
      "codec_bitrate cfg \<noteq> 0"
    and rr: "rerecord h (virtual_device cfg) (app_fs s) f (cli_temp f) = Some (Inr (), fs1)"
    and ns: "neural_scrub h (bh_codec h) fs1 (cli_temp f) (cli_final f) (codec_bitrate cfg) = Inr fs2"
  shows "\<exists>s2. Option.bind (worker_step h s) (worker_step h) = Some s2 \<and>
    cli_job h cfg (app_fs s) f = Some (Inr (), app_fs s2) \<and> worker s2 = Looping a (Suc i) t"
proof -
  have ld: "cd_loads (bh_codec h)" using ns by (auto simp: neural_scrub_def split: if_splits)
  have tf: "cli_temp f \<noteq> cli_final f" using paths gui_temp_neq_final by metis
  have tmp: "fs2 (cli_temp f) \<noteq> None"
    using neural_scrub_other [OF ns tf] rerecord_Inr_out [OF rr] by simp
  obtain st where gr: "gui_rerecord h (app_fs s) f (gui_temp f) (device_var s) = Some (Inr (), fs1, st)"
    using rerecord_gui_rerecord [OF rr] paths cfg by auto
  from assms(2,3) w f paths cfg rr gr ns ld tmp show ?thesis
    by (simp add: worker_step_def Let_def job_scrub_def gui_neural_scrub_def cli_job_def scrub_stage_def
        exists_def os_remove_def)
qed

theorem gui_job_eq_cli_job_witness:
  "\<exists>s s2. run_ops (demo_batch_host) [Ev (AddFiles [''a.mp3'']), Ev StartProcessing, Work, Work]
      (app_init [''a.mp3'' \<mapsto> Encoded 0]) = Some s \<and>
    Option.bind (worker_step (demo_batch_host) s) (worker_step (demo_batch_host)) = Some s2 \<and>
    cli_job (demo_batch_host) (demo_config 12) [''a.mp3'' \<mapsto> Encoded 0] ''a.mp3'' = Some (Inr (), app_fs s2)"
proof -
  have "\<exists>s. run_ops (demo_batch_host) [Ev (AddFiles [''a.mp3'']), Ev StartProcessing, Work, Work]
      (app_init [''a.mp3'' \<mapsto> Encoded 0]) = Some s \<and> worker s = Looping 0 0 1 \<and>
    heap s 0 = [''a.mp3''] \<and> device_var s = ''default'' \<and> bitrate_var s = ''12.0'' \<and>
    app_fs s = [''a.mp3'' \<mapsto> Encoded 0]"
    by (simp add: gui_run_simps)
  then obtain s where run: "run_ops (demo_batch_host)
      [Ev (AddFiles [''a.mp3'']), Ev StartProcessing, Work, Work] (app_init [''a.mp3'' \<mapsto> Encoded 0]) = Some s"
    and w: "worker s = Looping 0 0 1" and hp: "heap s 0 = [''a.mp3'']"
    and st: "device_var s = ''default''" "bitrate_var s = ''12.0''" "app_fs s = [''a.mp3'' \<mapsto> Encoded 0]"
    by blast
  have f: "''a.mp3'' = heap s 0 ! 0" and lt: "0 < length (heap s 0)" using hp by simp_all
  have paths: "gui_temp ''a.mp3'' = cli_temp ''a.mp3''" "gui_final ''a.mp3'' = cli_final ''a.mp3''" by simp_all
  have cfg: "device_var s = virtual_device (demo_config 12)"
    "py_float (bitrate_var s) = Some (Finite (codec_bitrate (demo_config 12)))" "codec_bitrate (demo_config 12) \<noteq> 0"
    using st by (simp_all add: demo_config_def)
  have rr: "rerecord (demo_batch_host) (virtual_device (demo_config 12)) (app_fs s) ''a.mp3'' (cli_temp ''a.mp3'')
    = Some (Inr (), [''a.mp3'' \<mapsto> Encoded 0, ''a_rerecord.wav'' \<mapsto> WavFile (fallback_wav [[0, 0]])])"
    using st by (simp add: demo_config_def demo_rerecord)
  have ns: "neural_scrub (demo_batch_host) (bh_codec (demo_batch_host))
      [''a.mp3'' \<mapsto> Encoded 0, ''a_rerecord.wav'' \<mapsto> WavFile (fallback_wav [[0, 0]])]
      (cli_temp ''a.mp3'') (cli_final ''a.mp3'') (codec_bitrate (demo_config 12))
    = Inr [''a.mp3'' \<mapsto> Encoded 0, ''a_rerecord.wav'' \<mapsto> WavFile (fallback_wav [[0, 0]]),
          ''a_clean.wav'' \<mapsto> WavFile \<lparr>wav_rate = 48000, wav_channels = 2, wav_subtype = PCM_24,
                                   wav_frames = [[0, 0]]\<rparr>]"
    by (simp add: demo_config_def demo_scrub)
  obtain s2 where "Option.bind (worker_step (demo_batch_host) s) (worker_step (demo_batch_host)) = Some s2"
    and "cli_job (demo_batch_host) (demo_config 12) (app_fs s) ''a.mp3'' = Some (Inr (), app_fs s2)"
    using gui_job_eq_cli_job [OF w zero_less_one lt f paths cfg rr ns] by blast
  with run st show ?thesis by auto
qed

text \<open>C14. Spec section 8, scenario with an unreachable capture device: the command-line
  run on one argument \<open>stem.mp3\<close> opens the output file, fails to open the stream,
  converts the source directly to the temporary path \<open>stem_rerecord.wav\<close> (ffmpeg's
  16-bit WAV), scrubs it to the final path and removes the temporary file; it exits
  with status 0.\<close>

theorem cli_device_unreachable:
  assumes "ffmpeg_installed h" and "ff_muxes h ''wav''" and "writable h (cli_temp f)"
    and "devices h (virtual_device cfg) = None"
    and src: "fs f = Some src" and dec: "ff_decode h src = Some frs"
    and f: "f = stem @ ''.mp3''" and nocc: "\<not> py_contains ''.mp3'' stem" and bw: "codec_bitrate cfg \<noteq> 0"
    and ns: "neural_scrub h (bh_codec h) (fs(cli_temp f \<mapsto> WavFile (fallback_wav frs))) (cli_temp f)
               (cli_final f) (codec_bitrate cfg) = Inr fs2"
  shows "cli_main h cfg [f] globbed fs = Some (Exit 0, fs2(cli_temp f := None)) \<and> fs2 (cli_final f) \<noteq> None"
proof -
  have occ: "py_contains ''.mp3'' f" using f py_contains_suffix by simp
  have sel: "cli_selects f" using f by (simp add: cli_selects_def)
  have tmp_eq: "cli_temp f = stem @ ''_rerecord.wav''"
    using f nocc by (simp add: cli_temp_def py_replace_mp3_suffix)
  have ts: "cli_temp f \<noteq> f" using occ by (rule cli_temp_neq_src)
  have tf: "cli_temp f \<noteq> cli_final f" using occ by (simp add: cli_temp_eq_final_iff)
  have "rerecord h (virtual_device cfg) fs f (cli_temp f) =
      Some (Inr (), fs(cli_temp f \<mapsto> ff_output (cli_temp f) frs))"
    using assms(1-4) src dec ts tmp_eq
    by (simp add: rerecord_def player_start_def capture_attempt_def direct_convert_def sf_open_write_wav)
  then have rr: "rerecord h (virtual_device cfg) fs f (cli_temp f) =
      Some (Inr (), fs(cli_temp f \<mapsto> WavFile (fallback_wav frs)))"
    using tmp_eq by (simp add: ff_output_wav)
  have tmp: "fs2 (cli_temp f) \<noteq> None" using neural_scrub_other [OF ns tf] by simp
  with rr ns bw sel show ?thesis
    by (simp add: cli_main_def cli_job_def scrub_stage_def exists_def os_remove_def neural_scrub_out)
qed

theorem cli_device_unreachable_witness:
  "cli_main (demo_batch_host) \<lparr>virtual_device = ''none'', codec_bitrate = 12\<rparr> [''a.mp3''] []
     [''a.mp3'' \<mapsto> Encoded 0]
   = Some (Exit 0, [''a.mp3'' \<mapsto> Encoded 0,
       ''a_clean.wav'' \<mapsto> WavFile \<lparr>wav_rate = 48000, wav_channels = 2, wav_subtype = PCM_24,
                                wav_frames = [[0, 0]]\<rparr>])"
proof -
  let ?h = demo_batch_host and ?cfg = "\<lparr>virtual_device = ''none'', codec_bitrate = (12::rat)\<rparr>"
  have h: "ffmpeg_installed ?h" "ff_muxes ?h ''wav''" "writable ?h (cli_temp ''a.mp3'')"
    "devices ?h (virtual_device ?cfg) = None" "ff_decode ?h (Encoded 0) = Some [[0, 0]]"
    by (simp_all add: demo_batch_host_def)
  have src: "[''a.mp3'' \<mapsto> Encoded 0] ''a.mp3'' = Some (Encoded 0)" by simp
  have f: "''a.mp3'' = ''a'' @ ''.mp3''" by simp
  have nocc: "\<not> py_contains ''.mp3'' ''a''" by simp
  have bw: "codec_bitrate ?cfg \<noteq> 0" by simp
  have ns: "neural_scrub (demo_batch_host) (bh_codec (demo_batch_host))
      ([''a.mp3'' \<mapsto> Encoded 0](cli_temp ''a.mp3'' \<mapsto> WavFile (fallback_wav [[0, 0]]))) (cli_temp ''a.mp3'')
      (cli_final ''a.mp3'') (codec_bitrate \<lparr>virtual_device = ''none'', codec_bitrate = 12\<rparr>)
    = Inr [''a.mp3'' \<mapsto> Encoded 0, ''a_rerecord.wav'' \<mapsto> WavFile (fallback_wav [[0, 0]]),
          ''a_clean.wav'' \<mapsto> WavFile \<lparr>wav_rate = 48000, wav_channels = 2, wav_subtype = PCM_24,
                                   wav_frames = [[0, 0]]\<rparr>]"
    by (simp add: demo_scrub)
  have "cli_main (demo_batch_host) \<lparr>virtual_device = ''none'', codec_bitrate = 12\<rparr> [''a.mp3''] []
     [''a.mp3'' \<mapsto> Encoded 0] =
    Some (Exit 0, [''a.mp3'' \<mapsto> Encoded 0, ''a_rerecord.wav'' \<mapsto> WavFile (fallback_wav [[0, 0]]),
          ''a_clean.wav'' \<mapsto> WavFile \<lparr>wav_rate = 48000, wav_channels = 2, wav_subtype = PCM_24,
                                   wav_frames = [[0, 0]]\<rparr>](''a_rerecord.wav'' := None))"
    using cli_device_unreachable [OF h(1-4) src h(5) f nocc bw ns] by simp
  then show ?thesis by (simp add: fun_upd_twist)
qed

end
